(* ===== verification/Larva_Prelude.thy ===== *)
theory Larva_Prelude
  imports Main "HOL-Library.Word" "HOL-Library.Signed_Division" "HOL-Library.Monad_Syntax"
begin

text \<open>
  Shared vocabulary of the development: the C integer types of \<open>libc/include/types.h\<close>
  at the widths of the i686 target, the error numbers of \<open>libc/include/errno.h\<close>, C
  conversions, and generic lemmas on words that every component uses.

  Conventions. A C \<open>int\<close> is a HOL \<open>int\<close> where its range is far from the
  limits of the type, and a \<open>32 word\<close> where it can wrap; \<open>size_t\<close>, \<open>uint32_t\<close>
  and pointers are \<open>32 word\<close>; \<open>uint16_t\<close> is \<open>16 word\<close>; \<open>uint8_t\<close>
  and \<open>char\<close> are \<open>8 word\<close>, read with \<open>sint\<close> where the code uses the signedness of
  \<open>char\<close>. A result of type \<open>option\<close> is \<open>None\<close> where the C code does not return or
  leaves the objects it may touch.
\<close>

unbundle bit_operations_syntax

type_synonym u8 = "8 word"
type_synonym u16 = "16 word"
type_synonym u32 = "32 word"
type_synonym memory = "u32 \<Rightarrow> u8"

section \<open>Lemma collections\<close>

named_theorems frame_simps \<open>what an operation leaves unchanged\<close>
named_theorems inv_intros \<open>operations keep the invariant of their component\<close>

section \<open>Words\<close>

lemma unat_inc_below: "x < t \<Longrightarrow> unat (x + 1) = Suc (unat x)" for x t :: u32
proof -
  assume less: "x < t"
  have "1 + x \<noteq> 0"
  proof
    assume "1 + x = 0"
    then have "x = - 1" by (simp add: eq_neg_iff_add_eq_0 add.commute)
    with less show False by simp
  qed
  then show ?thesis by (simp add: unatSuc add.commute)
qed

section \<open>Error numbers (libc/include/errno.h)\<close>

definition ESRCH :: int where "ESRCH = 3"
definition EIO :: int where "EIO = 5"
definition ENOMEM :: int where "ENOMEM = 12"
definition EINVAL :: int where "EINVAL = 22"
definition EROFS :: int where "EROFS = 30"
definition MAX_ERRNO :: u32 where "MAX_ERRNO = 4095"

lemmas errno_defs = ESRCH_def EIO_def ENOMEM_def EINVAL_def EROFS_def

text \<open>\<open>ERR_PTR\<close>, \<open>PTR_ERR\<close> and \<open>IS_ERR\<close>: error codes travel in the top 4095 addresses.\<close>

definition ERR_PTR :: "int \<Rightarrow> u32" where
  "ERR_PTR error = word_of_int error"

definition PTR_ERR :: "u32 \<Rightarrow> int" where
  "PTR_ERR ptr = sint ptr"

definition IS_ERR_VALUE :: "u32 \<Rightarrow> bool" where
  "IS_ERR_VALUE x \<longleftrightarrow> x \<ge> - MAX_ERRNO"

definition IS_ERR :: "u32 \<Rightarrow> bool" where
  "IS_ERR ptr = IS_ERR_VALUE ptr"

end
