(* ===== verification/CLib_Memory.thy ===== *)
theory CLib_Memory
  imports Larva_Prelude
begin

text \<open>
  The memory functions of \<open>libc/src/string.c\<close> over the flat byte memory of the
  machine: on this target every 32-bit address is readable and writable by the kernel, and
  pointer arithmetic wraps at \<open>2 ^ 32\<close>. A function that only writes memory returns the new
  memory; the pointer that the C function returns as well is its first argument. The
  theory also holds the vocabulary of address ranges and of little-endian 32-bit loads and
  stores, which the components above share.
\<close>

section \<open>Address ranges\<close>

text \<open>The \<open>n\<close> addresses that start at \<open>p\<close>, wrapping at the end of the address space.\<close>

definition addrs :: "u32 \<Rightarrow> nat \<Rightarrow> u32 set" where
  "addrs p n = {a. unat (a - p) < n}"

definition bytes_at :: "memory \<Rightarrow> u32 \<Rightarrow> nat \<Rightarrow> u8 list" where
  "bytes_at m p n = map (\<lambda>i. m (p + of_nat i)) [0..<n]"

lemma unat_u32_less [simp]: "unat (a :: u32) < 4294967296"
  by (rule less_le_trans [OF unsigned_less]) simp

lemma unat_of_nat_u32: "k < 2 ^ 32 \<Longrightarrow> unat (of_nat k :: u32) = k"
  by (simp add: unat_of_nat)

lemma of_nat_u32_eq_0: "k < 2 ^ 32 \<Longrightarrow> (of_nat k :: u32) = 0 \<longleftrightarrow> k = 0"
proof
  assume "k < 2 ^ 32" "(of_nat k :: u32) = 0"
  then have "unat (of_nat k :: u32) = 0" by (simp only: unat_0)
  then show "k = 0" using unat_of_nat_u32 [OF \<open>k < 2 ^ 32\<close>] by (simp only:)
qed simp

lemma sint_of_nat_u32: "k < 2 ^ 31 \<Longrightarrow> sint (of_nat k :: u32) = int k"
proof -
  assume "k < 2 ^ 31"
  then have "int k < 2 ^ 31" by simp
  then have "sint (word_of_int (int k) :: u32) = int k"
    by (subst sint_sbintrunc') (simp add: signed_take_bit_int_eq_self)
  then show ?thesis by simp
qed

lemma addrs_0 [simp]: "addrs p 0 = {}"
  by (simp add: addrs_def)

lemma offset_unat: "a = p + of_nat (unat (a - p))" for a p :: u32
  by simp

lemma offset_eq_iff: "k < 2 ^ 32 \<Longrightarrow> (a = p + of_nat k) \<longleftrightarrow> unat (a - p) = k" for a p :: u32
  by (metis add_diff_cancel_left' offset_unat unat_of_nat_u32)

lemma in_addrs_offset: "i < n \<Longrightarrow> n \<le> 2 ^ 32 \<Longrightarrow> p + of_nat i \<in> addrs p n"
  by (simp add: addrs_def unat_of_nat_u32 del: of_nat_unat)

lemma addrs_iff: "n \<le> 2 ^ 32 \<Longrightarrow> a \<in> addrs p n \<longleftrightarrow> (\<exists>i<n. a = p + of_nat i)"
  by (metis addrs_def in_addrs_offset mem_Collect_eq offset_unat)

lemma addrs_mono: "n \<le> k \<Longrightarrow> addrs p n \<subseteq> addrs p k"
  by (auto simp: addrs_def)

lemma addrs_Suc: "n < 2 ^ 32 \<Longrightarrow> addrs p (Suc n) = insert (p + of_nat n) (addrs p n)"
  by (auto simp: addrs_iff less_Suc_eq)

lemma length_bytes_at [simp]: "length (bytes_at m p n) = n"
  by (simp add: bytes_at_def)

lemma nth_bytes_at [simp]: "i < n \<Longrightarrow> bytes_at m p n ! i = m (p + of_nat i)"
  by (simp add: bytes_at_def)

lemma bytes_at_cong: "(\<And>a. a \<in> addrs p n \<Longrightarrow> m a = m' a) \<Longrightarrow> n \<le> 2 ^ 32 \<Longrightarrow> bytes_at m p n = bytes_at m' p n"
  by (rule nth_equalityI) (auto simp: in_addrs_offset)

text \<open>A range that does not wrap is an interval.\<close>

lemma addrs_interval:
  assumes "unat p + n \<le> 2 ^ 32"
  shows "a \<in> addrs p n \<longleftrightarrow> unat p \<le> unat a \<and> unat a < unat p + n"
proof (cases "p \<le> a")
  case True
  then have "unat (a - p) = unat a - unat p" by (rule unat_sub)
  then show ?thesis using True by (auto simp: addrs_def word_le_nat_alt)
next
  case False
  then have less: "unat a < unat p" by (simp add: word_le_nat_alt)
  have "uint (a - p) = uint a - uint p + 4294967296"
    using False by (simp add: uint_sub_if' word_le_def)
  then have "int (unat (a - p)) = int (unat a) - int (unat p) + 4294967296" by simp
  then have "unat (a - p) = 4294967296 - (unat p - unat a)" using less unat_u32_less [of p] by linarith
  then show ?thesis using assms less by (simp add: addrs_def)
qed

lemma addrs_apart: "unat p + n \<le> unat q \<Longrightarrow> unat q + k \<le> 2 ^ 32 \<Longrightarrow> addrs q k \<inter> addrs p n = {}"
  by (auto simp: addrs_interval)

section \<open>memset, memcpy, memcmp\<close>

definition memset :: "u32 \<Rightarrow> int \<Rightarrow> u32 \<Rightarrow> memory \<Rightarrow> memory" where
  "memset ptr c n m = fold (\<lambda>i m. m(ptr + of_nat i := word_of_int c)) [0..<unat n] m"

fun memcpy_loop :: "nat \<Rightarrow> u32 \<Rightarrow> u32 \<Rightarrow> memory \<Rightarrow> memory" where
  "memcpy_loop 0 dest src m = m"
| "memcpy_loop (Suc n) dest src m = memcpy_loop n (dest + 1) (src + 1) (m(dest := m src))"

definition memcpy :: "u32 \<Rightarrow> u32 \<Rightarrow> u32 \<Rightarrow> memory \<Rightarrow> memory" where
  "memcpy d s n m = memcpy_loop (unat n) d s m"

text \<open>The difference of two unsigned chars is stored in a \<open>signed char\<close>: it wraps at 8 bits.\<close>

fun memcmp_loop :: "memory \<Rightarrow> nat \<Rightarrow> u32 \<Rightarrow> u32 \<Rightarrow> int" where
  "memcmp_loop m 0 su1 su2 = 0"
| "memcmp_loop m (Suc c) su1 su2 =
     (let res = sint (m su1 - m su2) in
      if res \<noteq> 0 then res else memcmp_loop m c (su1 + 1) (su2 + 1))"

definition memcmp :: "memory \<Rightarrow> u32 \<Rightarrow> u32 \<Rightarrow> u32 \<Rightarrow> int" where
  "memcmp m p1 p2 c = memcmp_loop m (unat c) p1 p2"

lemma fill_loop:
  "k \<le> 2 ^ 32 \<Longrightarrow>
   fold (\<lambda>i m. m(p + of_nat i := b)) [0..<k] m a = (if a \<in> addrs p k then b else m a)"
proof (induction k)
  case (Suc k)
  then show ?case by (simp add: addrs_Suc)
qed simp

lemma memset_apply:
  "memset p c n m a = (if a \<in> addrs p (unat n) then word_of_int c else m a)"
  unfolding memset_def by (rule fill_loop) (simp add: order.strict_implies_order)

lemma memcpy_loop_apply:
  assumes "n \<le> 2 ^ 32" and "addrs d n \<inter> addrs s n = {}"
  shows "memcpy_loop n d s m a = (if a \<in> addrs d n then m (s + (a - d)) else m a)"
  using assms
proof (induction n arbitrary: d s m)
  case (Suc n)
  have step: "addrs (q + 1) n \<subseteq> addrs q (Suc n)" for q :: u32
  proof
    fix x assume "x \<in> addrs (q + 1) n"
    then obtain i where "i < n" "x = q + 1 + of_nat i"
      using Suc.prems(1) by (auto simp: addrs_iff)
    then show "x \<in> addrs q (Suc n)"
      using Suc.prems(1) in_addrs_offset [of "Suc i" "Suc n" q] by (simp add: add.assoc)
  qed
  have dj: "addrs (d + 1) n \<inter> addrs (s + 1) n = {}"
    using Suc.prems(2) step by blast
  have split_d: "a \<in> addrs d (Suc n) \<longleftrightarrow> a = d \<or> a \<in> addrs (d + 1) n"
  proof -
    have "a \<in> addrs d (Suc n) \<longleftrightarrow> (\<exists>i<Suc n. a = d + of_nat i)"
      using Suc.prems(1) by (rule addrs_iff)
    also have "\<dots> \<longleftrightarrow> a = d \<or> (\<exists>i<n. a = d + 1 + of_nat i)"
      by (auto simp: less_Suc_eq_0_disj add.assoc)
    also have "\<dots> \<longleftrightarrow> a = d \<or> a \<in> addrs (d + 1) n"
      using Suc.prems(1) by (simp add: addrs_iff)
    finally show ?thesis .
  qed
  have d_notin: "d \<notin> addrs (d + 1) n"
  proof
    assume "d \<in> addrs (d + 1) n"
    then obtain i where i: "i < n" "d = d + 1 + of_nat i"
      using Suc.prems(1) by (auto simp: addrs_iff)
    then have "of_nat (Suc i) = (0 :: u32)" by (simp add: add.assoc)
    then show False
      using i(1) Suc.prems(1) unat_of_nat_u32 [of "Suc i"] by simp
  qed
  have s_in: "s + 1 + (a - (d + 1)) = s + (a - d)" by simp
  have src: "s + (a - d) \<noteq> d" if "a \<in> addrs (d + 1) n"
  proof -
    have "a \<in> addrs d (Suc n)" using that split_d by blast
    then have "s + (a - d) \<in> addrs s (Suc n)"
      by (simp only: addrs_def mem_Collect_eq add_diff_cancel_left')
    moreover have "d \<in> addrs d (Suc n)" by (simp add: addrs_def)
    ultimately show ?thesis
      using Suc.prems(2) by (simp only: disjoint_iff) metis
  qed
  have "n \<le> 2 ^ 32" using Suc.prems(1) by simp
  from Suc.IH [OF this dj, of "m(d := m s)"]
  have IH: "memcpy_loop n (d + 1) (s + 1) (m(d := m s)) a =
      (if a \<in> addrs (d + 1) n then (m(d := m s)) (s + (a - d)) else (m(d := m s)) a)"
    by (simp only: s_in)
  show ?case
  proof (cases "a \<in> addrs (d + 1) n")
    case True
    then show ?thesis using src split_d by (simp only: memcpy_loop.simps IH) simp
  next
    case False
    then show ?thesis using split_d by (simp only: memcpy_loop.simps IH) simp
  qed
qed simp

lemma memcpy_apply:
  assumes "addrs d (unat n) \<inter> addrs s (unat n) = {}"
  shows "memcpy d s n m a = (if a \<in> addrs d (unat n) then m (s + (a - d)) else m a)"
  unfolding memcpy_def
  by (rule memcpy_loop_apply [OF _ assms]) (simp add: order.strict_implies_order)

lemma memcpy_bytes:
  assumes "addrs d (unat n) \<inter> addrs s (unat n) = {}"
  shows "bytes_at (memcpy d s n m) d (unat n) = bytes_at m s (unat n)"
  by (rule nth_equalityI)
     (simp_all add: memcpy_apply [OF assms] in_addrs_offset order.strict_implies_order)

lemma memcmp_loop_eq_0:
  "memcmp_loop m n p q = 0 \<longleftrightarrow> bytes_at m p n = bytes_at m q n"
proof (induction n arbitrary: p q)
  case (Suc n)
  have split: "bytes_at m r (Suc n) = m r # bytes_at m (r + 1) n" for r
    by (simp add: bytes_at_def upt_conv_Cons map_Suc_upt [symmetric] add.assoc del: upt_Suc)
  have "sint (m p - m q) = 0 \<longleftrightarrow> m p = m q"
    by (metis right_minus_eq sint_0 signed_word_eqI)
  then show ?case using Suc.IH by (simp add: split Let_def)
qed (simp add: bytes_at_def)

lemma memcmp_eq_0: "memcmp m p q n = 0 \<longleftrightarrow> bytes_at m p (unat n) = bytes_at m q (unat n)"
  by (simp add: memcmp_def memcmp_loop_eq_0)

section \<open>Writing a list of bytes\<close>

definition write_bytes :: "u32 \<Rightarrow> u8 list \<Rightarrow> memory \<Rightarrow> memory" where
  "write_bytes p bs m = (\<lambda>a. if a \<in> addrs p (length bs) then bs ! unat (a - p) else m a)"

lemma addrs_Suc_head: "n < 2 ^ 32 \<Longrightarrow> addrs p (Suc n) = insert p (addrs (p + 1) n)"
proof (rule set_eqI)
  fix a assume n: "n < 2 ^ 32"
  then have "a \<in> addrs p (Suc n) \<longleftrightarrow> (\<exists>i<Suc n. a = p + of_nat i)" by (intro addrs_iff) simp
  also have "\<dots> \<longleftrightarrow> a = p \<or> (\<exists>i<n. a = p + 1 + of_nat i)"
    by (simp add: Ex_less_Suc2 add.assoc)
  also have "\<dots> \<longleftrightarrow> a \<in> insert p (addrs (p + 1) n)" using n by (simp add: addrs_iff)
  finally show "a \<in> addrs p (Suc n) \<longleftrightarrow> a \<in> insert p (addrs (p + 1) n)" .
qed

lemma write_bytes_Nil [simp]: "write_bytes p [] m = m"
  by (simp add: write_bytes_def)

lemma write_bytes_outside: "a \<notin> addrs p (length bs) \<Longrightarrow> write_bytes p bs m a = m a"
  by (simp add: write_bytes_def)

lemma write_bytes_nth:
  "i < length bs \<Longrightarrow> length bs \<le> 2 ^ 32 \<Longrightarrow> write_bytes p bs m (p + of_nat i) = bs ! i"
  using in_addrs_offset [of i "length bs" p] by (simp add: write_bytes_def unat_of_nat_u32 del: of_nat_unat)

lemma bytes_at_write_bytes:
  "length bs \<le> 2 ^ 32 \<Longrightarrow> bytes_at (write_bytes p bs m) p (length bs) = bs"
  by (rule nth_equalityI) (simp_all add: write_bytes_nth)

lemma write_bytes_snoc:
  assumes "length bs < 2 ^ 32"
  shows "write_bytes p (bs @ [b]) m = (write_bytes p bs m)(p + of_nat (length bs) := b)"
proof (rule ext)
  fix a
  have "a \<in> addrs p (length (bs @ [b])) \<longleftrightarrow> a = p + of_nat (length bs) \<or> a \<in> addrs p (length bs)"
    using assms by (simp add: addrs_Suc)
  moreover have "a = p + of_nat (length bs) \<longleftrightarrow> unat (a - p) = length bs"
    using assms by (rule offset_eq_iff)
  moreover have "a \<in> addrs p (length bs) \<longleftrightarrow> unat (a - p) < length bs" by (simp add: addrs_def)
  ultimately show "write_bytes p (bs @ [b]) m a = ((write_bytes p bs m)(p + of_nat (length bs) := b)) a"
    by (simp add: write_bytes_def nth_append)
qed

lemma write_bytes_append:
  assumes "length (bs @ cs) \<le> 2 ^ 32"
  shows "write_bytes p (bs @ cs) m = write_bytes (p + of_nat (length bs)) cs (write_bytes p bs m)"
  using assms
proof (induction cs rule: rev_induct)
  case (snoc c cs)
  then show ?case
    using write_bytes_snoc [of "bs @ cs" p c m]
      write_bytes_snoc [of cs "p + of_nat (length bs)" c "write_bytes p bs m"]
    by (simp add: add.assoc)
qed simp

lemma write_bytes_single: "write_bytes p [b] m = m(p := b)"
  using write_bytes_snoc [of "[]" p b m] by simp

lemma write_bytes_Cons:
  "length bs < 2 ^ 32 \<Longrightarrow> write_bytes p (b # bs) m = write_bytes (p + 1) bs (m(p := b))"
  using write_bytes_append [of "[b]" bs p m] by (simp add: write_bytes_single)

lemma bytes_at_Suc: "bytes_at m p (Suc n) = m p # bytes_at m (p + 1) n"
  by (simp add: bytes_at_def upt_conv_Cons map_Suc_upt [symmetric] add.assoc del: upt_Suc)

lemma bytes_at_append: "bytes_at m p (j + k) = bytes_at m p j @ bytes_at m (p + of_nat j) k"
  by (rule nth_equalityI) (auto simp: nth_append add.assoc of_nat_diff)

lemma addrs_suffix: "i \<le> n \<Longrightarrow> n \<le> 2 ^ 32 \<Longrightarrow> addrs (p + of_nat i) (n - i) \<subseteq> addrs p n"
proof
  fix a assume i: "i \<le> n" "n \<le> 2 ^ 32" and "a \<in> addrs (p + of_nat i) (n - i)"
  then obtain j where j: "j < n - i" "a = p + of_nat i + of_nat j" by (auto simp: addrs_iff)
  then have "a = p + of_nat (i + j)" "i + j < n" by simp_all
  then show "a \<in> addrs p n" using i in_addrs_offset [of "i + j" n p] by simp
qed

lemma memcpy_loop_write_bytes:
  assumes "n \<le> 2 ^ 32" and "addrs d n \<inter> addrs s n = {}"
  shows "memcpy_loop n d s m = write_bytes d (bytes_at m s n) m"
  by (rule ext) (simp add: memcpy_loop_apply [OF assms] write_bytes_def addrs_def)

section \<open>32-bit little-endian words in memory\<close>

definition load32 :: "memory \<Rightarrow> u32 \<Rightarrow> u32" where
  "load32 m a = ucast (m a) OR push_bit 8 (ucast (m (a + 1)))
     OR push_bit 16 (ucast (m (a + 2))) OR push_bit 24 (ucast (m (a + 3)))"

definition store32 :: "u32 \<Rightarrow> u32 \<Rightarrow> memory \<Rightarrow> memory" where
  "store32 a v m = m(a := ucast v, a + 1 := ucast (drop_bit 8 v),
     a + 2 := ucast (drop_bit 16 v), a + 3 := ucast (drop_bit 24 v))"

lemma load32_store32_same [simp]: "load32 (store32 a v m) a = v"
proof (rule bit_word_eqI)
  fix n assume "n < LENGTH(32)"
  then have "n < 8 \<or> 8 \<le> n \<and> n < 16 \<or> 16 \<le> n \<and> n < 24 \<or> 24 \<le> n \<and> n < 32"
    by simp linarith
  then have "(n < 8 \<or> 8 \<le> n \<and> n - 8 < 8 \<or> 16 \<le> n \<and> n - 16 < 8 \<or> 24 \<le> n \<and> n - 24 < 8) \<and> n < 32"
    by linarith
  then show "bit (load32 (store32 a v m) a) n = bit v n"
    by (auto simp add: load32_def store32_def bit_simps)
qed

lemma store32_apply_other: "b \<notin> addrs a 4 \<Longrightarrow> store32 a v m b = m b"
  by (auto simp: store32_def addrs_def)

lemma load32_cong: "(\<And>b. b \<in> addrs a 4 \<Longrightarrow> m b = m' b) \<Longrightarrow> load32 m a = load32 m' a"
  by (simp add: load32_def addrs_def)

lemma load32_store32_disjoint:
  "addrs a 4 \<inter> addrs b 4 = {} \<Longrightarrow> load32 (store32 a v m) b = load32 m b"
  by (rule load32_cong) (auto intro: store32_apply_other)

definition load16 :: "memory \<Rightarrow> u32 \<Rightarrow> u16" where
  "load16 m a = ucast (m a) OR push_bit 8 (ucast (m (a + 1)))"

definition store16 :: "u32 \<Rightarrow> u16 \<Rightarrow> memory \<Rightarrow> memory" where
  "store16 a v m = m(a := ucast v, a + 1 := ucast (drop_bit 8 v))"

lemma load16_store16_same [simp]: "load16 (store16 a v m) a = v"
proof (rule bit_word_eqI)
  fix n assume "n < LENGTH(16)"
  then have "(n < 8 \<or> 8 \<le> n \<and> n - 8 < 8) \<and> n < 16" by simp linarith
  then show "bit (load16 (store16 a v m) a) n = bit v n"
    by (auto simp: load16_def store16_def bit_simps)
qed

lemma store16_apply_other: "b \<notin> addrs a 2 \<Longrightarrow> store16 a v m b = m b"
  by (auto simp: store16_def addrs_def)

lemma load16_cong: "(\<And>b. b \<in> addrs a 2 \<Longrightarrow> m b = m' b) \<Longrightarrow> load16 m a = load16 m' a"
  by (simp add: load16_def addrs_def)

end
