(* ===== verification/CLib_String.thy ===== *)
theory CLib_String
  imports CLib_Memory
begin

text \<open>
  The string functions of \<open>libc/src/string.c\<close>, \<open>libc/src/ctype.c\<close> and
  \<open>libc/src/strings.c\<close>. A loop that runs until it meets a NUL byte need not end, so it is a
  \<open>partial_function (option)\<close>: \<open>None\<close> is a call that does not return. \<open>str_at m p s\<close> says
  that the bytes \<open>s\<close>, none of them NUL, stand at \<open>p\<close> with a NUL after them; for such a
  string every function returns, and the lemmas say what.
\<close>

section \<open>Strings in memory\<close>

fun str_at :: "memory \<Rightarrow> u32 \<Rightarrow> u8 list \<Rightarrow> bool" where
  "str_at m p [] \<longleftrightarrow> m p = 0"
| "str_at m p (c # s) \<longleftrightarrow> c \<noteq> 0 \<and> m p = c \<and> str_at m (p + 1) s"

section \<open>Lengths and search\<close>

partial_function (option) strlen_loop :: "memory \<Rightarrow> u32 \<Rightarrow> u32 \<Rightarrow> u32 option" where
  "strlen_loop m s i = (if m s \<noteq> 0 then strlen_loop m (s + 1) (i + 1) else Some i)"

definition strlen :: "memory \<Rightarrow> u32 \<Rightarrow> u32 option" where
  "strlen m s = strlen_loop m s 0"

fun strnlen_loop :: "memory \<Rightarrow> nat \<Rightarrow> u32 \<Rightarrow> u32" where
  "strnlen_loop m 0 sc = sc"
| "strnlen_loop m (Suc count) sc = (if m sc \<noteq> 0 then strnlen_loop m count (sc + 1) else sc)"

definition strnlen :: "memory \<Rightarrow> u32 \<Rightarrow> u32 \<Rightarrow> u32" where
  "strnlen m s count = strnlen_loop m (unat count) s - s"

partial_function (option) strchr_loop :: "memory \<Rightarrow> u32 \<Rightarrow> u8 \<Rightarrow> u32 option" where
  "strchr_loop m s c =
     (if m s \<noteq> c then (if m s = 0 then Some 0 else strchr_loop m (s + 1) c) else Some s)"

definition strchr :: "memory \<Rightarrow> u32 \<Rightarrow> int \<Rightarrow> u32 option" where
  "strchr m s c = strchr_loop m s (word_of_int c)"

section \<open>Copying\<close>

partial_function (option) strcpy_loop :: "u32 \<Rightarrow> u32 \<Rightarrow> memory \<Rightarrow> memory option" where
  "strcpy_loop d s m =
     (let c = m s; m' = m(d := c) in if c \<noteq> 0 then strcpy_loop (d + 1) (s + 1) m' else Some m')"

definition strcpy :: "u32 \<Rightarrow> u32 \<Rightarrow> memory \<Rightarrow> memory option" where
  "strcpy d s m = strcpy_loop d s m"

text \<open>
  \<open>strncpy\<close> copies at most 255 bytes, whatever \<open>n\<close> says, and returns NULL when it stopped at
  that limit. The loop counts \<open>k\<close> bytes still to copy; it yields the final \<open>count\<close>.
\<close>

fun strncpy_loop :: "nat \<Rightarrow> u32 \<Rightarrow> u32 \<Rightarrow> u32 \<Rightarrow> memory \<Rightarrow> u32 \<times> memory" where
  "strncpy_loop 0 d s count m = (count, m)"
| "strncpy_loop (Suc k) d s count m =
     (let m' = m(d + count := m (s + count)) in
      if m' (s + count) = 0 then (count, m') else strncpy_loop k d s (count + 1) m')"

definition strncpy :: "u32 \<Rightarrow> u32 \<Rightarrow> u32 \<Rightarrow> memory \<Rightarrow> u32 \<times> memory" where
  "strncpy d s n m =
     (if d = 0 \<or> s = 0 then (0, m)
      else let n = (if n > 255 then 255 else n);
               (count, m') = strncpy_loop (unat n) d s 0 m
           in (if count \<ge> 255 then 0 else d, m'))"

section \<open>Comparison\<close>

definition isupper :: "int \<Rightarrow> bool" where
  "isupper c \<longleftrightarrow> c \<ge> 65 \<and> c \<le> 90"

definition islower :: "int \<Rightarrow> bool" where
  "islower c \<longleftrightarrow> c \<ge> 97 \<and> c \<le> 122"

definition isdigit :: "int \<Rightarrow> bool" where
  "isdigit c \<longleftrightarrow> c \<ge> 48 \<and> c \<le> 57"

definition tolower :: "int \<Rightarrow> int" where
  "tolower c = (if isupper c then c OR 0x20 else c)"

definition toupper :: "int \<Rightarrow> int" where
  "toupper c = (if islower c then c AND NOT 0x20 else c)"

partial_function (option) strncmp :: "memory \<Rightarrow> u32 \<Rightarrow> u32 \<Rightarrow> int \<Rightarrow> int \<Rightarrow> int option" where
  "strncmp m s1 s2 c result =
     (if c = 0 then Some result
      else let result = sint (m s1) - sint (m s2) in
           if result \<noteq> 0 \<or> m s1 = 0 then Some result
           else strncmp m (s1 + 1) (s2 + 1) (c - 1) result)"

partial_function (option) strcasecmp :: "memory \<Rightarrow> u32 \<Rightarrow> u32 \<Rightarrow> int option" where
  "strcasecmp m s1 s2 =
     (let result = tolower (sint (m s1)) - tolower (sint (m s2)) in
      if result \<noteq> 0 \<or> m s1 = 0 then Some result else strcasecmp m (s1 + 1) (s2 + 1))"

fun strncasecmp_loop :: "memory \<Rightarrow> nat \<Rightarrow> u32 \<Rightarrow> u32 \<Rightarrow> int \<Rightarrow> int" where
  "strncasecmp_loop m 0 s1 s2 result = result"
| "strncasecmp_loop m (Suc c) s1 s2 result =
     (let result = toupper (sint (m s1)) - toupper (sint (m s2)) in
      if result \<noteq> 0 \<or> m s1 = 0 then result else strncasecmp_loop m c (s1 + 1) (s2 + 1) result)"

definition strncasecmp :: "memory \<Rightarrow> u32 \<Rightarrow> u32 \<Rightarrow> u32 \<Rightarrow> int" where
  "strncasecmp m s1 s2 c = strncasecmp_loop m (unat c) s1 s2 0"

section \<open>Facts about strings in memory\<close>

lemma str_at_unique: "str_at m p s \<Longrightarrow> str_at m p t \<Longrightarrow> s = t"
proof (induction s arbitrary: p t)
  case Nil
  then show ?case by (cases t) auto
next
  case (Cons c s)
  then show ?case by (cases t) auto
qed

lemma str_at_nth: "str_at m p s \<Longrightarrow> i < length s \<Longrightarrow> m (p + of_nat i) = s ! i \<and> s ! i \<noteq> 0"
proof (induction s arbitrary: p i)
  case (Cons c s)
  then show ?case by (cases i) (auto simp flip: add.assoc)
qed simp

lemma str_at_end: "str_at m p s \<Longrightarrow> m (p + of_nat (length s)) = 0"
  by (induction s arbitrary: p) (auto simp flip: add.assoc)

lemma str_atI:
  "(\<And>i. i < length s \<Longrightarrow> m (p + of_nat i) = s ! i \<and> s ! i \<noteq> 0) \<Longrightarrow> m (p + of_nat (length s)) = 0
   \<Longrightarrow> str_at m p s"
proof (induction s arbitrary: p)
  case (Cons c s)
  have "m p = c \<and> c \<noteq> 0" using Cons.prems(1) [of 0] by simp
  moreover have "str_at m (p + 1) s"
    using Cons.prems(1) [of "Suc _"] Cons.prems(2) by (intro Cons.IH) (auto simp flip: add.assoc)
  ultimately show ?case by simp
qed simp

lemma str_at_cong:
  assumes "\<And>i. i \<le> length s \<Longrightarrow> m (p + of_nat i) = m' (p + of_nat i)"
  shows "str_at m p s \<longleftrightarrow> str_at m' p s"
proof -
  have "str_at m2 p s" if "str_at m1 p s"
    and "\<And>i. i \<le> length s \<Longrightarrow> m1 (p + of_nat i) = m2 (p + of_nat i)" for m1 m2
    using str_at_nth [OF that(1)] str_at_end [OF that(1)] that(2)
    by (intro str_atI) (metis less_imp_le order_refl)+
  then show ?thesis using assms by metis
qed

lemma str_at_append:
  "str_at m p (s @ t) \<longleftrightarrow> (\<forall>i<length s. m (p + of_nat i) = s ! i \<and> s ! i \<noteq> 0) \<and> str_at m (p + of_nat (length s)) t"
proof (induction s arbitrary: p)
  case (Cons c s)
  have "(\<forall>i<length (c # s). m (p + of_nat i) = (c # s) ! i \<and> (c # s) ! i \<noteq> 0) \<longleftrightarrow>
     (m p = c \<and> c \<noteq> 0) \<and> (\<forall>i<length s. m (p + 1 + of_nat i) = s ! i \<and> s ! i \<noteq> 0)"
    by (auto simp: All_less_Suc2 simp flip: add.assoc)
  then show ?case using Cons.IH [of "p + 1"] by (auto simp flip: add.assoc)
qed simp

lemma str_at_drop: "str_at m p s \<Longrightarrow> k \<le> length s \<Longrightarrow> str_at m (p + of_nat k) (drop k s)"
  using str_at_append [of m p "take k s" "drop k s"] by simp

lemma strlen_loop_str: "str_at m p s \<Longrightarrow> strlen_loop m p i = Some (i + of_nat (length s))"
proof (induction s arbitrary: p i)
  case Nil
  then show ?case by (simp add: strlen_loop.simps [of m p])
next
  case (Cons c s)
  then show ?case by (simp add: strlen_loop.simps [of m p] flip: add.assoc)
qed

lemma strlen_str: "str_at m p s \<Longrightarrow> strlen m p = Some (of_nat (length s))"
  by (simp add: strlen_def strlen_loop_str)

lemma strnlen_loop_str:
  "str_at m p s \<Longrightarrow> strnlen_loop m k p = p + of_nat (min k (length s))"
proof (induction s arbitrary: p k)
  case Nil
  then show ?case by (cases k) auto
next
  case (Cons c s)
  then show ?case by (cases k) (auto simp flip: add.assoc)
qed

lemma strnlen_str: "str_at m p s \<Longrightarrow> strnlen m p n = of_nat (min (unat n) (length s))"
  by (simp add: strnlen_def strnlen_loop_str)

lemma strchr_loop_str:
  "str_at m p s \<Longrightarrow> c \<noteq> 0 \<Longrightarrow>
   strchr_loop m p c = Some (if c \<in> set s then p + of_nat (length (takeWhile (\<lambda>x. x \<noteq> c) s)) else 0)"
proof (induction s arbitrary: p)
  case Nil
  then show ?case by (simp add: strchr_loop.simps [of m p])
next
  case (Cons x s)
  then show ?case by (auto simp: strchr_loop.simps [of m p] simp flip: add.assoc)
qed

section \<open>Facts about copying and comparison\<close>

lemma str_at_frame:
  assumes "length s < 2 ^ 32" and "\<And>a. a \<in> addrs p (Suc (length s)) \<Longrightarrow> m a = m' a"
  shows "str_at m p s \<longleftrightarrow> str_at m' p s"
  by (rule str_at_cong, rule assms(2), rule in_addrs_offset) (use assms(1) in auto)

lemma str_at_write_bytes:
  assumes "0 \<notin> set t" and "length t < 2 ^ 32"
  shows "str_at (write_bytes p (t @ [0]) m) p t"
proof (rule str_atI)
  fix i assume "i < length t"
  then show "write_bytes p (t @ [0]) m (p + of_nat i) = t ! i \<and> t ! i \<noteq> 0"
    using assms write_bytes_nth [of i "t @ [0]" p m] by (simp add: nth_append) (metis nth_mem)
next
  show "write_bytes p (t @ [0]) m (p + of_nat (length t)) = 0"
    using assms(2) write_bytes_nth [of "length t" "t @ [0]" p m] by simp
qed

lemma str_at_upd:
  "length s < 2 ^ 32 \<Longrightarrow> a \<notin> addrs p (Suc (length s)) \<Longrightarrow> str_at (m(a := v)) p s \<longleftrightarrow> str_at m p s"
  by (rule str_at_frame) auto

text \<open>\<open>strcpy\<close> returns and copies the string and its NUL, as \<open>memcpy\<close> of that length does.\<close>

lemma strcpy_loop_str:
  assumes "str_at m s xs" and "length xs < 2 ^ 32"
    and "addrs d (Suc (length xs)) \<inter> addrs s (Suc (length xs)) = {}"
  shows "strcpy_loop d s m = Some (memcpy_loop (Suc (length xs)) d s m)"
  using assms
proof (induction xs arbitrary: d s m)
  case Nil
  then show ?case by (simp add: strcpy_loop.simps [of d s m] fun_upd_def)
next
  case (Cons c xs)
  have parts: "addrs q (Suc (length (c # xs))) = insert q (addrs (q + 1) (Suc (length xs)))" for q
    using Cons.prems(2) by (simp only: length_Cons) (rule addrs_Suc_head, simp)
  have dj: "addrs (d + 1) (Suc (length xs)) \<inter> addrs (s + 1) (Suc (length xs)) = {}"
    and d: "d \<notin> addrs (s + 1) (Suc (length xs))"
    using Cons.prems(3) by (simp_all only: parts) auto
  have "str_at (m(d := m s)) (s + 1) xs"
    using Cons.prems(1,2) d by (simp add: str_at_upd)
  then have "strcpy_loop (d + 1) (s + 1) (m(d := m s)) =
      Some (memcpy_loop (Suc (length xs)) (d + 1) (s + 1) (m(d := m s)))"
    by (rule Cons.IH) (use Cons.prems(2) dj in simp_all)
  then show ?case
    using Cons.prems(1) by (simp only: strcpy_loop.simps [of d s m] str_at.simps) (simp add: Let_def)
qed

lemma strcpy_str:
  assumes "str_at m s xs" and "length xs < 2 ^ 32"
    and "addrs d (Suc (length xs)) \<inter> addrs s (Suc (length xs)) = {}"
  shows "\<exists>m'. strcpy d s m = Some m' \<and> str_at m' d xs \<and>
    (\<forall>a. a \<notin> addrs d (Suc (length xs)) \<longrightarrow> m' a = m a)"
proof -
  let ?n = "Suc (length xs)" and ?m' = "memcpy_loop (Suc (length xs)) d s m"
  have n: "?n \<le> 2 ^ 32" using assms(2) by simp
  note copy = memcpy_loop_apply [OF n assms(3)]
  have "?m' (d + of_nat i) = m (s + of_nat i)" if "i < ?n" for i
    using in_addrs_offset [OF that n, of d] by (simp only: copy if_True) simp
  then have "str_at ?m' d xs"
    using str_at_nth [OF assms(1)] str_at_end [OF assms(1)] by (intro str_atI) auto
  then show ?thesis
    using strcpy_loop_str [OF assms] copy by (auto simp: strcpy_def)
qed

text \<open>Comparison without case: equal up to \<open>tolower\<close> of each character.\<close>

definition casefold :: "u8 list \<Rightarrow> int list" where
  "casefold s = map (\<lambda>c. tolower (sint c)) s"

lemma tolower_eq_0: "tolower (sint (c :: u8)) = 0 \<longleftrightarrow> c = 0"
proof -
  have "c OR 0x20 \<noteq> 0" if "65 \<le> c" "c \<le> 90" for c :: int
    using that by (simp add: or_eq_0_iff)
  then show ?thesis
    by (auto simp: tolower_def isupper_def signed_eq_0_iff)
qed

lemma strcasecmp_str:
  "str_at m p s \<Longrightarrow> str_at m q t \<Longrightarrow>
   \<exists>r. strcasecmp m p q = Some r \<and> (r = 0 \<longleftrightarrow> casefold s = casefold t)"
proof (induction s arbitrary: p q t)
  case Nil
  then show ?case
    using tolower_eq_0 [of 0]
    by (cases t) (auto simp: strcasecmp.simps [of m p] casefold_def tolower_eq_0 Let_def)
next
  case (Cons c s)
  show ?case
  proof (cases t)
    case Nil
    then show ?thesis using Cons.prems
      using tolower_eq_0 [of 0]
      by (auto simp: strcasecmp.simps [of m p] casefold_def tolower_eq_0 Let_def)
  next
    case (Cons b t')
    with Cons.prems Cons.IH [of "p + 1" "q + 1" t'] show ?thesis
      by (auto simp: strcasecmp.simps [of m p] casefold_def Let_def)
  qed
qed

end
