(* ===== verification/CLib_Stdlib.thy ===== *)
theory CLib_Stdlib
  imports CLib_String
begin

text \<open>
  \<open>libc/src/stdlib.c\<close>: \<open>itoa\<close> and \<open>atoi\<close>. Division truncates as in C (\<open>sdiv\<close>,
  \<open>smod\<close>); a zero base is \<open>None\<close>, and so is a base for which the digit loop does not end.
  The accumulator of \<open>atoi\<close> wraps at 32 bits, as the unoptimised two's complement code does.
\<close>

section \<open>The functions\<close>

definition digit_char :: "int \<Rightarrow> u8" where
  "digit_char tmp = word_of_int (if tmp < 10 then tmp + 48 else tmp + 97 - 10)"

partial_function (option) itoa_digits :: "int \<Rightarrow> int \<Rightarrow> u32 \<Rightarrow> nat \<Rightarrow> memory \<Rightarrow> (nat \<times> memory) option" where
  "itoa_digits value base str i m =
     (if base = 0 then None
      else let m' = m(str + of_nat i := digit_char (value smod base)); value' = value sdiv base in
           if value' \<noteq> 0 then itoa_digits value' base str (i + 1) m' else Some (i + 1, m'))"

fun itoa_rev :: "u32 \<Rightarrow> nat \<Rightarrow> nat \<Rightarrow> memory \<Rightarrow> memory" where
  "itoa_rev str j i m =
     (if j < i
      then itoa_rev str (j + 1) (i - 1)
             (m(str + of_nat j := m (str + of_nat i), str + of_nat i := m (str + of_nat j)))
      else m)"

definition itoa :: "int \<Rightarrow> u32 \<Rightarrow> int \<Rightarrow> memory \<Rightarrow> memory option" where
  "itoa value str base m =
     (case itoa_digits value base str 0 m of
        None \<Rightarrow> None
      | Some (i, m') \<Rightarrow> Some (itoa_rev str 0 (i - 1) (m'(str + of_nat i := 0))))"

partial_function (option) atoi_skip :: "memory \<Rightarrow> u32 \<Rightarrow> u32 option" where
  "atoi_skip m s =
     (if m s = 32 \<or> word_of_int (sint (m s) - 9) < (5 :: u32) then atoi_skip m (s + 1) else Some s)"

partial_function (option) atoi_digits :: "memory \<Rightarrow> u32 \<Rightarrow> u32 \<Rightarrow> u32 option" where
  "atoi_digits m s v =
     (if word_of_int (sint (m s) - 48) < (10 :: u32)
      then atoi_digits m (s + 1) (v * 10 + word_of_int (sint (m s)) - 48) else Some v)"

definition atoi :: "memory \<Rightarrow> u32 \<Rightarrow> int option" where
  "atoi m s =
     (case atoi_skip m s of
        None \<Rightarrow> None
      | Some s \<Rightarrow>
          let sign = (if m s = 45 then -1 else 0 :: int);
              s' = (if m s = 45 \<or> m s = 43 then s + 1 else s)
          in (case atoi_digits m s' 0 of
                None \<Rightarrow> None
              | Some v \<Rightarrow> Some (sint (if sign \<noteq> 0 then - v else v))))"

declare itoa_rev.simps [simp del]

section \<open>The digits of a number\<close>

text \<open>Least significant first, as the loop of \<open>itoa\<close> produces them.\<close>

function digits_rev :: "int \<Rightarrow> int \<Rightarrow> int list" where
  "digits_rev base v =
     (if v \<le> 0 \<or> base \<le> 1 \<or> v div base = 0 then [v mod base]
      else (v mod base) # digits_rev base (v div base))"
  by pat_completeness auto
termination
  by (relation "measure (\<lambda>(b, v). nat v)") (auto simp: int_div_less_self)

declare digits_rev.simps [simp del]

lemma digits_rev_nonempty [simp]: "digits_rev b v \<noteq> []"
  by (subst digits_rev.simps) simp

lemma digits_rev_range: "2 \<le> b \<Longrightarrow> 0 \<le> v \<Longrightarrow> d \<in> set (digits_rev b v) \<Longrightarrow> 0 \<le> d \<and> d < b"
proof (induction b v rule: digits_rev.induct)
  case (1 b v)
  show ?case
  proof (cases "v \<le> 0 \<or> b \<le> 1 \<or> v div b = 0")
    case True
    with "1.prems" show ?thesis by (simp add: digits_rev.simps [of b v])
  next
    case False
    with "1.prems" "1.IH" show ?thesis
      by (auto simp: digits_rev.simps [of b v] pos_imp_zdiv_nonneg_iff)
  qed
qed

lemma digits_rev_value:
  "2 \<le> b \<Longrightarrow> 0 \<le> v \<Longrightarrow> foldr (\<lambda>d acc. acc * b + d) (digits_rev b v) 0 = v"
proof (induction b v rule: digits_rev.induct)
  case (1 b v)
  show ?case
  proof (cases "v \<le> 0 \<or> b \<le> 1 \<or> v div b = 0")
    case True
    then have "v mod b = v" using "1.prems" by (auto simp: zdiv_eq_0_iff)
    with True show ?thesis by (simp add: digits_rev.simps [of b v])
  next
    case False
    with "1.prems" "1.IH" show ?thesis
      by (simp add: digits_rev.simps [of b v] pos_imp_zdiv_nonneg_iff)
  qed
qed

lemma digits_rev_length: "2 \<le> b \<Longrightarrow> 0 \<le> v \<Longrightarrow> v < 2 ^ Suc n \<Longrightarrow> length (digits_rev b v) \<le> Suc n"
proof (induction n arbitrary: v)
  case 0
  then have "v div b = 0" by (simp add: zdiv_eq_0_iff)
  then show ?case by (simp add: digits_rev.simps [of b v])
next
  case (Suc n)
  have "v div b \<le> v div 2" using Suc.prems(1,2) by (intro zdiv_mono2) auto
  also have "\<dots> < 2 ^ Suc n" using Suc.prems(3) by simp
  finally have "length (digits_rev b (v div b)) \<le> Suc n"
    using Suc.prems(1,2) by (intro Suc.IH) (auto simp: pos_imp_zdiv_nonneg_iff)
  then show ?case by (subst digits_rev.simps) simp
qed

section \<open>What itoa writes\<close>

lemma itoa_digits_spec:
  assumes "2 \<le> b" and "0 \<le> v" and "i + length (digits_rev b v) < 2 ^ 32"
  shows "itoa_digits v b str i m =
    Some (i + length (digits_rev b v), write_bytes (str + of_nat i) (map digit_char (digits_rev b v)) m)"
  using assms
proof (induction b v arbitrary: i m rule: digits_rev.induct)
  case (1 b v)
  have ops: "v smod b = v mod b" "v sdiv b = v div b"
    using "1.prems" by (simp_all add: signed_divide_int_def signed_modulo_int_def sgn_if pos_imp_zdiv_nonneg_iff)
  have one: "write_bytes p [c] m = m(p := c)" for p c m
    using write_bytes_snoc [of "[]" p c m] by simp
  show ?case
  proof (cases "v \<le> 0 \<or> b \<le> 1 \<or> v div b = 0")
    case True
    then have "v div b = 0" using "1.prems" by auto
    then show ?thesis using True "1.prems"
      by (simp add: itoa_digits.simps [of v b] digits_rev.simps [of b v] ops one Let_def fun_upd_def)
  next
    case False
    let ?m = "m(str + of_nat i := digit_char (v mod b))"
    have len: "length (digits_rev b v) = Suc (length (digits_rev b (v div b)))"
      using False by (simp add: digits_rev.simps [of b v])
    have "itoa_digits (v div b) b str (Suc i) ?m =
        Some (Suc i + length (digits_rev b (v div b)),
          write_bytes (str + of_nat (Suc i)) (map digit_char (digits_rev b (v div b))) ?m)"
      using False "1.prems" len by (intro "1.IH") (auto simp: pos_imp_zdiv_nonneg_iff)
    moreover have "write_bytes (str + of_nat (Suc i)) (map digit_char (digits_rev b (v div b))) ?m =
        write_bytes (str + of_nat i) (map digit_char (digits_rev b v)) m"
      using False "1.prems"(3) len
        write_bytes_append [of "[digit_char (v mod b)]" "map digit_char (digits_rev b (v div b))"
          "str + of_nat i" m]
      by (simp add: digits_rev.simps [of b v] one add.commute add.left_commute)
    ultimately show ?thesis
      using False "1.prems" len by (simp add: itoa_digits.simps [of v b] ops Let_def)
  qed
qed

lemma itoa_rev_apply:
  "i < 2 ^ 32 \<Longrightarrow> itoa_rev str j i m a =
     (if j \<le> unat (a - str) \<and> unat (a - str) \<le> i then m (str + of_nat (i + j - unat (a - str))) else m a)"
proof (induction str j i m arbitrary: a rule: itoa_rev.induct)
  case (1 str j i m)
  define k where "k = unat (a - str)"
  have at: "a = str + of_nat n \<longleftrightarrow> k = n" if "n < 2 ^ 32" for n
    using that offset_eq_iff [of n a str] by (simp add: k_def)
  have a: "a = str + of_nat k" by (simp add: k_def)
  have eq: "str + of_nat n = str + of_nat l \<longleftrightarrow> n = l" if "n < 2 ^ 32" "l < 2 ^ 32" for n l
    using that by (metis add_left_cancel unat_of_nat_u32)
  show ?case
  proof (cases "j < i")
    case False
    then have "(if j \<le> k \<and> k \<le> i then m (str + of_nat (i + j - k)) else m a) = m a"
      using a by (metis add_diff_cancel_left' le_antisym le_trans not_le)
    then show ?thesis using False by (simp only: itoa_rev.simps [of str j i] if_False flip: k_def)
  next
    case True
    let ?m = "m(str + of_nat j := m (str + of_nat i), str + of_nat i := m (str + of_nat j))"
    have IH: "itoa_rev str (j + 1) (i - 1) ?m a =
       (if j + 1 \<le> k \<and> k \<le> i - 1 then ?m (str + of_nat (i + j - k)) else ?m a)"
    proof -
      have e: "i - 1 + (j + 1) - k = i + j - k" and "i - 1 < 2 ^ 32"
        using True "1.prems" by simp_all
      from "1.IH" [OF True this(2), of a] show ?thesis by (simp only: e flip: k_def)
    qed
    have at_m: "?m (str + of_nat n) = (if n = i then m (str + of_nat j) else if n = j then m (str + of_nat i)
        else m (str + of_nat n))" if "n < 2 ^ 32" for n
      using that True "1.prems" eq [of n i] eq [of n j] by simp
    have k32: "k < 2 ^ 32" by (simp add: k_def)
    have "(if j + 1 \<le> k \<and> k \<le> i - 1 then ?m (str + of_nat (i + j - k)) else ?m a) =
        (if j \<le> k \<and> k \<le> i then m (str + of_nat (i + j - k)) else m a)"
      unfolding a using True "1.prems" k32 at_m [of k] at_m [of "i + j - k"]
      by (auto simp del: fun_upd_apply of_nat_diff)
    with IH show ?thesis
      using True by (simp only: itoa_rev.simps [of str j i] if_True flip: k_def)
  qed
qed

lemma itoa_spec:
  assumes "2 \<le> b" and "0 \<le> v" and "v < 2 ^ 31"
  shows "itoa v str b m = Some (write_bytes str (rev (map digit_char (digits_rev b v)) @ [0]) m)"
proof -
  let ?ds = "map digit_char (digits_rev b v)" and ?n = "length (digits_rev b v)"
  have n: "?n \<le> 31" using digits_rev_length [of b v 30] assms by simp
  obtain l where l: "?n = Suc l" by (cases "digits_rev b v") auto
  let ?m1 = "write_bytes str ?ds m"
  let ?m2 = "?m1(str + of_nat ?n := 0)"
  have "itoa_rev str 0 (?n - 1) ?m2 a = write_bytes str (rev ?ds @ [0]) m a" for a
  proof -
    define k where "k = unat (a - str)"
    have a: "a = str + of_nat k" by (simp add: k_def)
    have k: "k < 2 ^ 32" by (simp add: k_def)
    have eq: "str + of_nat i = str + of_nat l \<longleftrightarrow> i = l" if "i < 2 ^ 32" "l < 2 ^ 32" for i l
      using that by (metis add_left_cancel unat_of_nat_u32)
    have m2: "?m2 (str + of_nat x) = (if x = ?n then 0 else if x < ?n then ?ds ! x else m (str + of_nat x))"
      if "x < 2 ^ 32" for x
      using that n eq [of x ?n]
      by (simp add: write_bytes_def addrs_def unat_of_nat_u32 del: of_nat_unat of_nat_diff)
    have "itoa_rev str 0 (?n - 1) ?m2 a = (if k \<le> ?n - 1 then ?m2 (str + of_nat (?n - 1 - k)) else ?m2 a)"
      using n by (simp add: itoa_rev_apply k_def del: of_nat_diff)
    also have "\<dots> = (if k < ?n then rev ?ds ! k else if k = ?n then 0 else m a)"
      unfolding a using n l k m2 [of "?n - 1 - k"] m2 [of k]
      by (auto simp: rev_nth simp del: of_nat_diff fun_upd_apply)
    also have "\<dots> = write_bytes str (rev ?ds @ [0]) m a"
      using n by (auto simp: write_bytes_def addrs_def nth_append simp flip: k_def)
    finally show ?thesis .
  qed
  then show ?thesis
    using assms n itoa_digits_spec [of b v 0 str m] by (simp add: itoa_def fun_eq_iff)
qed

section \<open>What atoi reads\<close>

lemma digit_cases:
  fixes d :: int
  assumes "0 \<le> d" and "d < 10"
  obtains "d = 0" | "d = 1" | "d = 2" | "d = 3" | "d = 4" | "d = 5" | "d = 6" | "d = 7" | "d = 8" | "d = 9"
proof -
  have "d = 0 \<or> d = 1 \<or> d = 2 \<or> d = 3 \<or> d = 4 \<or> d = 5 \<or> d = 6 \<or> d = 7 \<or> d = 8 \<or> d = 9"
    using assms by presburger
  then show thesis using that by blast
qed

lemma digit_char_facts:
  assumes "0 \<le> d" and "d < 10"
  shows "sint (digit_char d) = d + 48" and "digit_char d \<noteq> 0"
    and "digit_char d \<noteq> 32" and "digit_char d \<noteq> 45" and "digit_char d \<noteq> 43"
    and "word_of_int (sint (digit_char d) - 48) < (10 :: u32)"
    and "\<not> word_of_int (sint (digit_char d) - 9) < (5 :: u32)"
  by (rule digit_cases [OF assms]; simp add: digit_char_def)+

lemma not_digit_0: "\<not> word_of_int (sint (0 :: u8) - 48) < (10 :: u32)"
  by simp

lemma atoi_digits_str:
  assumes "str_at m p (map digit_char ds)" and "\<forall>d \<in> set ds. 0 \<le> d \<and> d < 10"
  shows "atoi_digits m p (word_of_int v) = Some (word_of_int (foldl (\<lambda>acc d. acc * 10 + d) v ds))"
  using assms
proof (induction ds arbitrary: p v)
  case Nil
  then show ?case using not_digit_0 by (simp add: atoi_digits.simps [of m p])
next
  case (Cons d ds)
  have d: "0 \<le> d" "d < 10" and mp: "m p = digit_char d" using Cons.prems by auto
  have "word_of_int v * 10 + word_of_int (sint (m p)) - 48 = (word_of_int (v * 10 + d) :: u32)"
    by (simp add: mp digit_char_facts(1) [OF d])
  moreover have "atoi_digits m (p + 1) (word_of_int (v * 10 + d)) =
      Some (word_of_int (foldl (\<lambda>acc d. acc * 10 + d) (v * 10 + d) ds))"
    using Cons.prems by (intro Cons.IH) auto
  ultimately show ?case
    using digit_char_facts(6) [OF d] by (simp only: atoi_digits.simps [of m p] mp if_True foldl_Cons)
qed

lemma atoi_str:
  assumes "str_at m p (map digit_char ds)" and "ds \<noteq> []" and "\<forall>d \<in> set ds. 0 \<le> d \<and> d < 10"
  shows "atoi m p = Some (sint (word_of_int (foldl (\<lambda>acc d. acc * 10 + d) 0 ds) :: u32))"
proof -
  obtain d ds' where ds: "ds = d # ds'" using assms(2) by (cases ds) auto
  then have d: "0 \<le> d" "d < 10" and mp: "m p = digit_char d" using assms by auto
  have "atoi_skip m p = Some p"
    using digit_char_facts(3,7) [OF d] by (simp only: atoi_skip.simps [of m p] mp) simp
  then show ?thesis
    using atoi_digits_str [OF assms(1,3), of 0] digit_char_facts(4,5) [OF d]
    by (simp add: atoi_def mp Let_def)
qed

text \<open>Decimal round trip: \<open>atoi\<close> reads back what \<open>itoa\<close> wrote.\<close>

lemma itoa_str_at:
  assumes "2 \<le> b" and "b \<le> 10" and "0 \<le> v" and "v < 2 ^ 31"
  shows "\<exists>m'. itoa v str b m = Some m' \<and> str_at m' str (map digit_char (rev (digits_rev b v)))"
proof -
  let ?s = "map digit_char (rev (digits_rev b v))"
  have len: "length ?s < 2 ^ 32" using digits_rev_length [of b v 30] assms by simp
  have nz: "?s ! i \<noteq> 0" if "i < length ?s" for i
  proof -
    have "?s ! i \<in> digit_char ` set (digits_rev b v)"
      using nth_mem [OF that] by simp
    then show ?thesis
      using digits_rev_range [of b v] assms digit_char_facts(2) by force
  qed
  have "str_at (write_bytes str (?s @ [0]) m) str ?s"
    using len nz write_bytes_nth [of _ "?s @ [0]" str m]
    by (intro str_atI) (auto simp: nth_append)
  then show ?thesis using itoa_spec [of b v str m] assms by (simp add: rev_map)
qed

lemma itoa_atoi_decimal:
  assumes "0 \<le> v" and "v < 2 ^ 31"
  shows "\<exists>m'. itoa v str 10 m = Some m' \<and> atoi m' str = Some v"
proof -
  let ?ds = "rev (digits_rev 10 v)"
  have range: "\<forall>d \<in> set ?ds. 0 \<le> d \<and> d < 10" using digits_rev_range [of 10 v] assms by auto
  have "foldl (\<lambda>acc d. acc * 10 + d) 0 ?ds = v"
    using digits_rev_value [of 10 v] assms by (simp add: foldl_conv_foldr)
  moreover have "sint (word_of_int v :: u32) = v"
    using assms by (subst sint_sbintrunc') (simp add: signed_take_bit_int_eq_self)
  ultimately show ?thesis
    using itoa_str_at [of 10 v str m] assms atoi_str [OF _ _ range] by (auto simp: rev_map)
qed

end
