(* ===== verification/CLib_Properties.thy ===== *)
theory CLib_Properties
  imports CLib_Stdlib
begin

text \<open>
  What the kernel relies on in its C library: copying, comparing and printing numbers. The
  examples run on a memory that holds the string \<open>"Data"\<close> at address 16.
\<close>

definition sample_memory :: memory where
  "sample_memory = write_bytes 16 [68, 97, 116, 97, 0] (\<lambda>a. 1)"

lemma sample_str: "str_at sample_memory 16 [68, 97, 116, 97]"
  by (simp add: sample_memory_def write_bytes_def addrs_def)

text \<open>
  C40. The decimal digits of a non-negative \<open>int\<close> are a string of at most 31
  characters, and \<open>atoi\<close> reads the number back.
\<close>

lemma itoa_atoi_roundtrip:
  assumes "0 \<le> v" and "v < 2 ^ 31"
  shows "\<exists>m'. itoa v str 10 m = Some m' \<and> atoi m' str = Some v \<and>
    (\<exists>cs. str_at m' str cs \<and> length cs \<le> 31)"
proof -
  obtain m' where m': "itoa v str 10 m = Some m'" "str_at m' str (map digit_char (rev (digits_rev 10 v)))"
    using itoa_str_at [of 10 v str m] assms by auto
  moreover have "length (map digit_char (rev (digits_rev 10 v))) \<le> 31"
    using digits_rev_length [of 10 v 30] assms by simp
  ultimately show ?thesis using itoa_atoi_decimal [OF assms, of str m] by auto
qed

lemma itoa_atoi_roundtrip_witness: "\<exists>m'. itoa 2024 0 10 sample_memory = Some m' \<and> atoi m' 0 = Some 2024"
  using itoa_atoi_roundtrip [of 2024 0 sample_memory] by auto

text \<open>
  \<open>strcpy\<close> to a place apart from the source copies the string and its
  terminator and writes nothing else; \<open>strlen\<close> and \<open>strcasecmp\<close>
  agree on the copy.
\<close>

lemma strcpy_copies:
  assumes "str_at m s xs" and "length xs < 2 ^ 32"
    and "addrs d (Suc (length xs)) \<inter> addrs s (Suc (length xs)) = {}"
  shows "\<exists>m'. strcpy d s m = Some m' \<and> strlen m' d = Some (of_nat (length xs)) \<and> strcasecmp m' d s = Some 0 \<and>
    bytes_at m' d (Suc (length xs)) = xs @ [0] \<and> (\<forall>a. a \<notin> addrs d (Suc (length xs)) \<longrightarrow> m' a = m a)"
proof -
  obtain m' where m': "strcpy d s m = Some m'" "str_at m' d xs"
    "\<forall>a. a \<notin> addrs d (Suc (length xs)) \<longrightarrow> m' a = m a"
    using strcpy_str [OF assms] by blast
  have "str_at m' s xs"
  proof (rule iffD1 [OF str_at_frame [OF assms(2)], rotated, rotated])
    show "str_at m s xs" by (rule assms(1))
    fix a assume "a \<in> addrs s (Suc (length xs))"
    then have "a \<notin> addrs d (Suc (length xs))" using assms(3) by blast
    then show "m a = m' a" using m'(3) by simp
  qed
  moreover have "bytes_at m' d (Suc (length xs)) = xs @ [0]"
    using m'(2) str_at_nth [OF m'(2)] str_at_end [OF m'(2)]
    by (intro nth_equalityI) (auto simp: nth_append less_Suc_eq)
  ultimately show ?thesis using m' strlen_str [OF m'(2)] strcasecmp_str [OF m'(2)] by fastforce
qed

lemma strcpy_copies_witness:
  "\<exists>m'. strcpy 64 16 sample_memory = Some m' \<and> bytes_at m' 64 5 = [68, 97, 116, 97, 0]"
proof -
  have n: "Suc (length [68, 97, 116, 97 :: u8]) = 5" by simp
  have "addrs 64 5 \<inter> addrs 16 5 = {}" by (rule addrs_apart) simp_all
  then obtain m' where "strcpy 64 16 sample_memory = Some m'" "bytes_at m' 64 5 = [68, 97, 116, 97] @ [0]"
    using strcpy_copies [OF sample_str, of 64] unfolding n by force
  then show ?thesis by simp
qed

text \<open>
  After \<open>memcpy\<close> between disjoint ranges, \<open>memcmp\<close> finds them
  equal, and nothing outside the destination has changed.
\<close>

lemma memcmp_memcpy:
  assumes "addrs d (unat n) \<inter> addrs s (unat n) = {}"
  shows "memcmp (memcpy d s n m) d s n = 0 \<and> (\<forall>a. a \<notin> addrs d (unat n) \<longrightarrow> memcpy d s n m a = m a)"
proof -
  have "bytes_at (memcpy d s n m) s (unat n) = bytes_at m s (unat n)"
  proof (rule bytes_at_cong)
    show "unat n \<le> 2 ^ 32" by (simp add: order.strict_implies_order)
    fix a assume "a \<in> addrs s (unat n)"
    then have "a \<notin> addrs d (unat n)" using assms by blast
    then show "memcpy d s n m a = m a" by (simp add: memcpy_apply [OF assms])
  qed
  then show ?thesis using memcpy_bytes [OF assms] by (simp add: memcmp_eq_0 memcpy_apply [OF assms])
qed

lemma memcmp_memcpy_witness: "memcmp (memcpy 64 16 5 sample_memory) 64 16 5 = 0"
proof -
  have "addrs 64 5 \<inter> addrs 16 5 = {}" by (rule addrs_apart) simp_all
  then show ?thesis using memcmp_memcpy [of 64 5 16] by simp
qed

text \<open>
  \<open>strcasecmp\<close> returns on any two strings, and 0 exactly when they agree up
  to the case of ASCII letters.
\<close>

lemma strcasecmp_ignores_case:
  assumes "str_at m p s" and "str_at m q t"
  shows "\<exists>r. strcasecmp m p q = Some r \<and>
    (r = 0 \<longleftrightarrow> map (\<lambda>c. tolower (sint c)) s = map (\<lambda>c. tolower (sint c)) t)"
  using strcasecmp_str [OF assms] by (simp add: casefold_def)

lemma strcasecmp_ignores_case_witness:
  "strcasecmp (write_bytes 64 [100, 65, 84, 65, 0] sample_memory) 64 16 = Some 0"
proof -
  let ?m = "write_bytes 64 [100, 65, 84, 65, 0] sample_memory"
  have s: "str_at ?m 64 [100, 65, 84, 65]" "str_at ?m 16 [68, 97, 116, 97]"
    by (simp_all add: sample_memory_def write_bytes_def addrs_def)
  show ?thesis
    using strcasecmp_ignores_case [OF s] by (simp add: tolower_def isupper_def)
qed

end
