(* ===== verification/Console.thy ===== *)
theory Console
  imports CLib_Stdlib
begin

text \<open>
  The VGA text console of \<open>video/video.c\<close>: its cursor and colour globals and the bytes of
  the video memory at \<open>VIDEO_MEMORY\<close>, which the model keeps apart from the kernel's other
  memory, with offset 0 for the first cell. All counters are \<open>size_t\<close> and wrap.
\<close>

section \<open>State and constants\<close>

record console =
  vram :: memory
  g_row :: u32
  g_column :: u32
  g_color :: u8

definition g_vga_width :: u32 where "g_vga_width = 80"
definition g_vga_height :: u32 where "g_vga_height = 40"
definition g_screen_size :: u32 where "g_screen_size = g_vga_width * g_vga_height"
definition VGA_COLOR_WHITE :: u8 where "VGA_COLOR_WHITE = 15"

lemmas vga_defs = g_vga_width_def g_vga_height_def g_screen_size_def VGA_COLOR_WHITE_def

section \<open>Operations\<close>

definition is_end_line_char :: "u8 \<Rightarrow> bool" where
  "is_end_line_char c \<longleftrightarrow> c = 10"

definition is_backspace_char :: "u8 \<Rightarrow> bool" where
  "is_backspace_char c \<longleftrightarrow> c = 8"

definition is_special_char :: "u8 \<Rightarrow> bool" where
  "is_special_char c \<longleftrightarrow> is_end_line_char c \<or> is_backspace_char c"

definition vga_entry_color :: "u8 \<Rightarrow> u8 \<Rightarrow> u8" where
  "vga_entry_color fg bg = fg OR push_bit 4 bg"

text \<open>The \<open>char\<close> is sign-extended before the colour is merged in.\<close>

definition vga_entry :: "u8 \<Rightarrow> u8 \<Rightarrow> u16" where
  "vga_entry c color = scast c OR push_bit 8 (ucast color)"

definition clear :: "console \<Rightarrow> console" where
  "clear s = s\<lparr>g_row := 0, g_column := 0, g_color := VGA_COLOR_WHITE,
     vram := memset 0 0 g_screen_size (vram s)\<rparr>"

definition putc_at :: "u8 \<Rightarrow> u8 \<Rightarrow> u32 \<Rightarrow> u32 \<Rightarrow> console \<Rightarrow> console" where
  "putc_at c color x y s =
     (let index = y * g_vga_width + x
      in s\<lparr>vram := store16 (2 * index) (vga_entry c color) (vram s)\<rparr>)"

text \<open>
  \<open>putc\<close> and \<open>put_special_char\<close> call each other, the latter with a blank only, which is not
  special; \<open>putc_glyph\<close> is the part of \<open>putc\<close> after the test for special characters.
\<close>

definition putc_glyph :: "u8 \<Rightarrow> console \<Rightarrow> console" where
  "putc_glyph c s =
     (let s = putc_at c (g_color s) (g_column s) (g_row s) s;
          s = s\<lparr>g_column := g_column s + 1\<rparr>
      in if g_column s = g_vga_width
         then let s = s\<lparr>g_column := 0, g_row := g_row s + 1\<rparr>
              in if g_row s = g_vga_height then s\<lparr>g_row := 0\<rparr> else s
         else s)"

definition put_special_char :: "u8 \<Rightarrow> console \<Rightarrow> console" where
  "put_special_char c s =
     (if c = 10 then s\<lparr>g_row := g_row s + 1, g_column := 0\<rparr>
      else if c = 8 then
        if g_column s = 0 \<and> g_row s = 0 then s
        else
          let s = (if g_column s = 0 then s\<lparr>g_row := g_row s - 1, g_column := g_vga_width\<rparr> else s);
              s = s\<lparr>g_column := g_column s - 1\<rparr>;
              s = putc_glyph 32 s
          in s\<lparr>g_column := g_column s - 1\<rparr>
      else s)"

definition putc :: "u8 \<Rightarrow> console \<Rightarrow> console" where
  "putc c s = (if is_special_char c then put_special_char c s else putc_glyph c s)"

definition set_color :: "u8 \<Rightarrow> console \<Rightarrow> console" where
  "set_color c s = s\<lparr>g_color := c\<rparr>"

definition console_write :: "memory \<Rightarrow> u32 \<Rightarrow> u32 \<Rightarrow> console \<Rightarrow> console" where
  "console_write m data n s = fold putc (bytes_at m data (unat n)) s"

definition print :: "memory \<Rightarrow> u32 \<Rightarrow> console \<Rightarrow> console option" where
  "print m data s = map_option (\<lambda>n. console_write m data n s) (strlen m data)"

text \<open>\<open>print\<close> of a string literal, and of the decimal digits in the local buffer of \<open>print_number\<close>.\<close>

definition print_lit :: "string \<Rightarrow> console \<Rightarrow> console" where
  "print_lit l s = fold putc (map of_char l) s"

definition print_number :: "int \<Rightarrow> console \<Rightarrow> console option" where
  "print_number x s =
     (case itoa x 0 10 (\<lambda>_. 0) of None \<Rightarrow> None | Some str \<Rightarrow> print str 0 s)"

section \<open>The cursor\<close>

definition cursor_ok :: "console \<Rightarrow> bool" where
  "cursor_ok s \<longleftrightarrow> g_column s < g_vga_width \<and> g_row s < g_vga_height"

lemma putc_plain_cursor_ok:
  assumes "cursor_ok s" and "\<not> is_special_char c"
  shows "cursor_ok (putc c s)"
proof -
  have "g_column s + 1 \<noteq> 80 \<Longrightarrow> g_column s + 1 < 80" "g_row s + 1 \<noteq> 40 \<Longrightarrow> g_row s + 1 < 40"
    using assms(1) by (auto simp: cursor_ok_def vga_defs) unat_arith+
  then show ?thesis
    using assms by (auto simp: cursor_ok_def putc_def putc_glyph_def putc_at_def vga_defs Let_def)
qed

lemma print_lit_plain_cursor_ok:
  "cursor_ok s \<Longrightarrow> (\<forall>c \<in> set l. \<not> is_special_char (of_char c)) \<Longrightarrow> cursor_ok (print_lit l s)"
  unfolding print_lit_def
  by (induction l arbitrary: s) (auto simp: putc_plain_cursor_ok)

text \<open>Text written at the cursor lands in its cell, in the current colour.\<close>

lemma putc_plain_cell:
  assumes "cursor_ok s" and "\<not> is_special_char c"
  shows "load16 (vram (putc c s)) (2 * (g_row s * 80 + g_column s)) = vga_entry c (g_color s)"
  using assms by (simp add: putc_def putc_glyph_def putc_at_def vga_defs Let_def)

lemma print_number_returns:
  assumes "0 \<le> x" and "x < 2 ^ 31"
  shows "\<exists>s'. print_number x s = Some s'"
  using itoa_str_at [of 10 x 0 "\<lambda>_. 0"] assms
  by (auto simp: print_number_def print_def strlen_str)

end
