(* ===== verification/Heap_Blocks.thy ===== *)
theory Heap_Blocks
  imports Larva_Prelude
begin

text \<open>
  The block allocator of \<open>memory/heap.c\<close>. The table holds one byte per 4096-byte block. The
  model reads \<open>table->entries\<close> as a total function of the C index, because the code can read
  it outside \<open>0 .. total - 1\<close>; inside that range it is the array. Block numbers are C
  \<open>int\<close>s; where the code compares one with a \<open>size_t\<close>, the model converts it with
  \<open>word_of_int\<close> as C does. The \<open>int\<close> counters stay below \<open>total\<close>, at most \<open>2 ^ 20\<close>
  for a table that \<open>heap_create\<close> accepted.
\<close>

section \<open>Data and constants (include/memory/heap.h)\<close>

definition HEAP_BLOCK_TABLE_ENTRY_FREE :: u8 where "HEAP_BLOCK_TABLE_ENTRY_FREE = 0x00"
definition HEAP_BLOCK_TABLE_ENTRY_TAKEN :: u8 where "HEAP_BLOCK_TABLE_ENTRY_TAKEN = 0x01"
definition HEAP_BLOCK_HAS_NEXT :: u8 where "HEAP_BLOCK_HAS_NEXT = 0x80"
definition HEAP_BLOCK_IS_FIRST :: u8 where "HEAP_BLOCK_IS_FIRST = 0x40"
definition HEAP_BLOCK_SIZE_BYTES :: u32 where "HEAP_BLOCK_SIZE_BYTES = 0x1000"

lemmas heap_consts = HEAP_BLOCK_TABLE_ENTRY_FREE_def HEAP_BLOCK_TABLE_ENTRY_TAKEN_def
  HEAP_BLOCK_HAS_NEXT_def HEAP_BLOCK_IS_FIRST_def HEAP_BLOCK_SIZE_BYTES_def

record heap_table =
  entries :: "int \<Rightarrow> u8"
  table_total :: u32

record heap =
  table :: heap_table
  start_address :: u32

section \<open>Operations\<close>

definition heap_validate_alignment :: "u32 \<Rightarrow> bool" where
  "heap_validate_alignment ptr \<longleftrightarrow> ptr mod HEAP_BLOCK_SIZE_BYTES = 0"

definition heap_validate_table :: "u32 \<Rightarrow> u32 \<Rightarrow> heap_table \<Rightarrow> int" where
  "heap_validate_table start end t =
     (let table_size = end - start; total_block = table_size div HEAP_BLOCK_SIZE_BYTES
      in if table_total t \<noteq> total_block then - EINVAL else 0)"

definition align_value_to_upper :: "u32 \<Rightarrow> u32" where
  "align_value_to_upper value =
     (let remainder = value mod HEAP_BLOCK_SIZE_BYTES
      in if remainder = 0 then value else value - remainder + HEAP_BLOCK_SIZE_BYTES)"

definition heap_get_entry_type :: "u8 \<Rightarrow> u8" where
  "heap_get_entry_type entry = entry AND 0x0F"

definition block_entry_is_free :: "u8 \<Rightarrow> bool" where
  "block_entry_is_free entry \<longleftrightarrow> heap_get_entry_type entry = HEAP_BLOCK_TABLE_ENTRY_FREE"

definition block_entry_is_taken :: "u8 \<Rightarrow> bool" where
  "block_entry_is_taken entry \<longleftrightarrow> heap_get_entry_type entry = HEAP_BLOCK_TABLE_ENTRY_TAKEN"

definition block_has_next_block :: "u8 \<Rightarrow> bool" where
  "block_has_next_block entry \<longleftrightarrow> entry AND HEAP_BLOCK_HAS_NEXT \<noteq> 0"

text \<open>The result code of \<open>heap_create\<close> and the heap it leaves; \<open>hp\<close> is the heap before.\<close>

definition heap_create :: "heap \<Rightarrow> u32 \<Rightarrow> u32 \<Rightarrow> heap_table \<Rightarrow> int \<times> heap" where
  "heap_create hp start end t =
     (if \<not> heap_validate_alignment start \<or> \<not> heap_validate_alignment end then (- EINVAL, hp)
      else
        let hp = \<lparr>table = t, start_address = start\<rparr>;
            result = heap_validate_table start end t
        in if result < 0 then (result, hp)
           else (result, hp\<lparr>table := t\<lparr>entries := (\<lambda>i. if 0 \<le> i \<and> i < uint (table_total t)
                    then HEAP_BLOCK_TABLE_ENTRY_FREE else entries t i)\<rparr>\<rparr>))"

definition get_physical_address_from_block_number :: "heap \<Rightarrow> int \<Rightarrow> u32" where
  "get_physical_address_from_block_number hp num =
     (if num < 0 \<or> word_of_int num > table_total (table hp) - 1 then 0
      else start_address hp + word_of_int num * HEAP_BLOCK_SIZE_BYTES)"

definition get_block_number_from_physical_address :: "heap \<Rightarrow> u32 \<Rightarrow> int" where
  "get_block_number_from_physical_address hp address = sint (address - start_address hp) sdiv 4096"

definition mark_blocks_taken :: "heap \<Rightarrow> int \<Rightarrow> int \<Rightarrow> int \<times> heap" where
  "mark_blocks_taken hp start_block_number n =
     (let t = table hp in
      if word_of_int start_block_number > table_total t - 1 then (- EINVAL, hp)
      else
        let end_block_number = start_block_number + n - 1;
            end_block_number = (if word_of_int end_block_number > table_total t - 1
              then sint (table_total t - 1) else end_block_number);
            e = (entries t)(start_block_number := HEAP_BLOCK_TABLE_ENTRY_TAKEN OR HEAP_BLOCK_IS_FIRST);
            e = (if n > 1 then e(start_block_number := e start_block_number OR HEAP_BLOCK_HAS_NEXT) else e);
            e = fold (\<lambda>i e. e(i := if i \<noteq> end_block_number
                  then HEAP_BLOCK_TABLE_ENTRY_TAKEN OR HEAP_BLOCK_HAS_NEXT else HEAP_BLOCK_TABLE_ENTRY_TAKEN))
                  [start_block_number + 1..end_block_number] e
        in (0, hp\<lparr>table := t\<lparr>entries := e\<rparr>\<rparr>))"

text \<open>
  \<open>mark_blocks_free\<close> is two loops. The first looks for the first block of the run; its body
  tests the entry at \<open>num\<close>, not at \<open>first_block_number\<close>. From a negative \<open>num\<close> it counts
  away from 0 and is \<open>None\<close> unless the entry has the flag.
\<close>

partial_function (option) find_first_block :: "(int \<Rightarrow> u8) \<Rightarrow> int \<Rightarrow> int \<Rightarrow> int option" where
  "find_first_block e num first_block_number =
     (if first_block_number \<noteq> 0
      then (if e num AND HEAP_BLOCK_IS_FIRST \<noteq> 0 then Some first_block_number
            else find_first_block e num (first_block_number - 1))
      else Some first_block_number)"

function clear_run :: "u32 \<Rightarrow> int \<Rightarrow> (int \<Rightarrow> u8) \<Rightarrow> (int \<Rightarrow> u8)" where
  "clear_run tot i e =
     (if word_of_int i < tot
      then let entry = e i; e = e(i := HEAP_BLOCK_TABLE_ENTRY_FREE)
           in if entry AND HEAP_BLOCK_HAS_NEXT = 0 then e else clear_run tot (i + 1) e
      else e)"
  by pat_completeness auto
termination
proof (relation "measure (\<lambda>(tot, i, e). unat tot - unat (word_of_int i :: u32))")
  fix tot :: u32 and i :: int and e entry e'
  assume less: "word_of_int i < tot"
  then have "unat (word_of_int (i + 1) :: u32) = Suc (unat (word_of_int i :: u32))"
    using unat_inc_below [OF less] by simp
  with less show "((tot, i + 1, e'), tot, i, e)
      \<in> measure (\<lambda>(tot, i, e). unat tot - unat (word_of_int i :: u32))"
    by (simp add: word_less_nat_alt)
qed simp

definition mark_blocks_free :: "heap \<Rightarrow> int \<Rightarrow> heap option" where
  "mark_blocks_free hp num =
     (let t = table hp in
      case find_first_block (entries t) num num of
        None \<Rightarrow> None
      | Some first_block_number \<Rightarrow>
          Some (hp\<lparr>table := t\<lparr>entries := clear_run (table_total t) first_block_number (entries t)\<rparr>\<rparr>))"

function get_free_loop :: "(int \<Rightarrow> u8) \<Rightarrow> nat \<Rightarrow> u32 \<Rightarrow> nat \<Rightarrow> int \<Rightarrow> int \<Rightarrow> int \<times> int" where
  "get_free_loop e tot n i free_block_count block_number =
     (if i < tot
      then if block_entry_is_free (e (int i))
           then let block_number = (if block_number = - ENOMEM then int i else block_number);
                    free_block_count = free_block_count + 1
                in if word_of_int free_block_count = n then (free_block_count, block_number)
                   else get_free_loop e tot n (i + 1) free_block_count block_number
           else get_free_loop e tot n (i + 1) 0 (- ENOMEM)
      else (free_block_count, block_number))"
  by pat_completeness auto
termination
  by (relation "measure (\<lambda>(e, tot, n, i, c, b). tot - i)") auto

definition get_free_blocks :: "heap \<Rightarrow> u32 \<Rightarrow> int" where
  "get_free_blocks hp n =
     (let (free_block_count, block_number) =
            get_free_loop (entries (table hp)) (unat (table_total (table hp))) n 0 0 (- ENOMEM)
      in if word_of_int free_block_count \<noteq> n then - ENOMEM else block_number)"

definition malloc_blocks :: "heap \<Rightarrow> u32 \<Rightarrow> u32 \<times> heap" where
  "malloc_blocks hp n =
     (let start_block = get_free_blocks hp n in
      if start_block < 0 then (0, hp)
      else (get_physical_address_from_block_number hp start_block,
            snd (mark_blocks_taken hp start_block (sint n))))"

definition malloc :: "heap \<Rightarrow> u32 \<Rightarrow> u32 \<times> heap" where
  "malloc hp n =
     (let aligned_size = align_value_to_upper n; total_blocks = aligned_size div HEAP_BLOCK_SIZE_BYTES
      in malloc_blocks hp total_blocks)"

definition free :: "heap \<Rightarrow> u32 \<Rightarrow> heap option" where
  "free hp ptr = mark_blocks_free hp (get_block_number_from_physical_address hp ptr)"

declare clear_run.simps [simp del] get_free_loop.simps [simp del]

end
