(* ===== verification/Kernel_Objects.thy ===== *)
theory Kernel_Objects
  imports Console Heap_Blocks CLib_Memory
begin

text \<open>
  The structs the kernel allocates from its heap, and the machine state. Raw buffers, page
  tables, directory items read from disk and file names are bytes in \<open>mem\<close>. A struct with
  typed fields is an object of the store \<open>objs\<close>, at the address the heap gave it; its
  pointers are addresses, with 0 for NULL. Reading an object through a pointer that
  carries none of that type (NULL included) is outside what the C code may do, and the
  operation is \<open>None\<close>. Fields that the code fills with raw bytes (\<open>header\<close> of
  \<open>struct fat_private_data\<close>, \<open>binary_file\<close> of \<open>struct process\<close>) stay in \<open>mem\<close>, at their
  offset from the object's address.
\<close>

section \<open>Structs\<close>

text \<open>\<open>include/disk/stream.h\<close>\<close>

record disk_stream =
  pos :: int
  disk :: u32

text \<open>\<open>include/fs/path_parser.h\<close>\<close>

record path_part =
  part :: u32
  next_part :: u32

text \<open>\<open>fs/fat16.c\<close>; the union of \<open>struct fat_item\<close> is one pointer, read as \<open>item\<close> or \<open>directory\<close>.\<close>

record fat_directory =
  dir_item :: u32
  dir_total :: int
  sector_pos :: int
  ending_sector_pos :: int

record fat_item =
  item_ptr :: u32
  item_type :: u32

record fat_file_descriptor =
  fat_fd_item :: u32
  fat_fd_pos :: u32

record fat_private_data =
  root_dir :: fat_directory
  cluster_read_stream :: u32
  fat_read_stream :: u32
  directory_stream :: u32

text \<open>\<open>include/fs/file.h\<close>\<close>

record file_descriptor =
  fd_index :: int
  fd_fs :: u32
  fd_disk :: u32
  fd_p :: u32

text \<open>\<open>include/task/task.h\<close> and \<open>include/task/process.h\<close>\<close>

record registers =
  reg_edi :: u32
  reg_esi :: u32
  reg_ebp :: u32
  reg_ebx :: u32
  reg_edx :: u32
  reg_ecx :: u32
  reg_eax :: u32
  reg_ip :: u32
  reg_cs :: u32
  reg_flags :: u32
  reg_esp :: u32
  reg_ss :: u32

record task =
  page_directory :: u32
  task_registers :: registers
  task_next :: u32
  task_prev :: u32
  task_proc :: u32

record process =
  proc_id :: u16
  proc_task :: u32
  physical_pointer :: u32
  proc_size :: u32
  stack_pointer :: u32

datatype kobj =
    Obj_stream disk_stream
  | Obj_part path_part
  | Obj_dir fat_directory
  | Obj_item fat_item
  | Obj_ffd fat_file_descriptor
  | Obj_private fat_private_data
  | Obj_fd file_descriptor
  | Obj_task task
  | Obj_proc process

section \<open>The machine\<close>

record machine =
  mem :: memory
  con :: console
  g_kernel_heap :: heap
  objs :: "u32 \<Rightarrow> kobj option"

text \<open>\<open>print\<close> of a literal of the source, and of a string in memory.\<close>

definition klog :: "string \<Rightarrow> 'a machine_scheme \<Rightarrow> 'a machine_scheme" where
  "klog str s = s\<lparr>con := print_lit str (con s)\<rparr>"

definition klog_at :: "u32 \<Rightarrow> 'a machine_scheme \<Rightarrow> 'a machine_scheme option" where
  "klog_at ptr s = do { c \<leftarrow> print (mem s) ptr (con s); Some (s\<lparr>con := c\<rparr>) }"

section \<open>Reading and writing objects\<close>

definition stream_at :: "'a machine_scheme \<Rightarrow> u32 \<Rightarrow> disk_stream option" where
  "stream_at s p = (case objs s p of Some (Obj_stream x) \<Rightarrow> Some x | _ \<Rightarrow> None)"

definition part_at :: "'a machine_scheme \<Rightarrow> u32 \<Rightarrow> path_part option" where
  "part_at s p = (case objs s p of Some (Obj_part x) \<Rightarrow> Some x | _ \<Rightarrow> None)"

definition dir_at :: "'a machine_scheme \<Rightarrow> u32 \<Rightarrow> fat_directory option" where
  "dir_at s p = (case objs s p of Some (Obj_dir x) \<Rightarrow> Some x | _ \<Rightarrow> None)"

definition item_at :: "'a machine_scheme \<Rightarrow> u32 \<Rightarrow> fat_item option" where
  "item_at s p = (case objs s p of Some (Obj_item x) \<Rightarrow> Some x | _ \<Rightarrow> None)"

definition ffd_at :: "'a machine_scheme \<Rightarrow> u32 \<Rightarrow> fat_file_descriptor option" where
  "ffd_at s p = (case objs s p of Some (Obj_ffd x) \<Rightarrow> Some x | _ \<Rightarrow> None)"

definition private_at :: "'a machine_scheme \<Rightarrow> u32 \<Rightarrow> fat_private_data option" where
  "private_at s p = (case objs s p of Some (Obj_private x) \<Rightarrow> Some x | _ \<Rightarrow> None)"

definition fd_at :: "'a machine_scheme \<Rightarrow> u32 \<Rightarrow> file_descriptor option" where
  "fd_at s p = (case objs s p of Some (Obj_fd x) \<Rightarrow> Some x | _ \<Rightarrow> None)"

definition task_at :: "'a machine_scheme \<Rightarrow> u32 \<Rightarrow> task option" where
  "task_at s p = (case objs s p of Some (Obj_task x) \<Rightarrow> Some x | _ \<Rightarrow> None)"

definition proc_at :: "'a machine_scheme \<Rightarrow> u32 \<Rightarrow> process option" where
  "proc_at s p = (case objs s p of Some (Obj_proc x) \<Rightarrow> Some x | _ \<Rightarrow> None)"

definition put_obj :: "u32 \<Rightarrow> kobj \<Rightarrow> 'a machine_scheme \<Rightarrow> 'a machine_scheme" where
  "put_obj p x s = s\<lparr>objs := (objs s)(p \<mapsto> x)\<rparr>"

lemmas at_defs = stream_at_def part_at_def dir_at_def item_at_def ffd_at_def private_at_def
  fd_at_def task_at_def proc_at_def

lemma put_obj_simps [simp]:
  "mem (put_obj p x s) = mem s" "con (put_obj p x s) = con s"
  "g_kernel_heap (put_obj p x s) = g_kernel_heap s" "objs (put_obj p x s) = (objs s)(p \<mapsto> x)"
  by (simp_all add: put_obj_def)

lemma klog_simps [simp]:
  "mem (klog t s) = mem s" "g_kernel_heap (klog t s) = g_kernel_heap s" "objs (klog t s) = objs s"
  by (simp_all add: klog_def)

lemma put_obj_same: "objs s p = Some x \<Longrightarrow> put_obj p x s = s"
  by (simp add: put_obj_def fun_upd_idem)

lemma more_put_obj [simp]: "machine.more (put_obj p x s) = machine.more s"
  by (simp add: put_obj_def)

end
