(* ===== verification/Heap_Correct.thy ===== *)
theory Heap_Correct
  imports Heap_Blocks
begin

text \<open>
  Correctness of the block allocator: the invariant of its table, the abstract view of it as
  a map from the first block of each allocation to its length, first-fit search, and what
  \<open>mark_blocks_taken\<close> and \<open>mark_blocks_free\<close> do to that map.
\<close>

section \<open>Runs and the invariant\<close>

definition heap_blocks :: "heap \<Rightarrow> int" where
  "heap_blocks hp = uint (table_total (table hp))"

text \<open>The byte of block \<open>j\<close> of an allocation of \<open>k\<close> blocks.\<close>

definition run_code :: "int \<Rightarrow> int \<Rightarrow> u8" where
  "run_code k j = HEAP_BLOCK_TABLE_ENTRY_TAKEN OR (if j = 0 then HEAP_BLOCK_IS_FIRST else 0)
     OR (if j + 1 < k then HEAP_BLOCK_HAS_NEXT else 0)"

definition is_run :: "(int \<Rightarrow> u8) \<Rightarrow> int \<Rightarrow> int \<Rightarrow> bool" where
  "is_run e s k \<longleftrightarrow> 1 \<le> k \<and> (\<forall>j. 0 \<le> j \<and> j < k \<longrightarrow> e (s + j) = run_code k j)"

lemma is_run_nth: "is_run e s k \<Longrightarrow> s \<le> i \<Longrightarrow> i < s + k \<Longrightarrow> e i = run_code k (i - s)"
  unfolding is_run_def by (elim conjE allE [of _ "i - s"]) simp

text \<open>
  Every entry is a byte the allocator writes, a block announces a next block exactly when
  the next one continues its run, and no run leaves the table.
\<close>

definition table_ok :: "(int \<Rightarrow> u8) \<Rightarrow> int \<Rightarrow> bool" where
  "table_ok e n \<longleftrightarrow>
     (\<forall>i. 0 \<le> i \<and> i < n \<longrightarrow> e i \<in> {0x00, 0x41, 0xC1, 0x81, 0x01}) \<and>
     (\<forall>i. 0 \<le> i \<and> i < n \<and> e i \<in> {0xC1, 0x81} \<longrightarrow> i + 1 < n \<and> e (i + 1) \<in> {0x81, 0x01}) \<and>
     (\<forall>i. 0 \<le> i \<and> i < n \<and> e i \<in> {0x81, 0x01} \<longrightarrow> 0 < i \<and> e (i - 1) \<in> {0xC1, 0x81})"

definition heap_ok :: "heap \<Rightarrow> bool" where
  "heap_ok hp \<longleftrightarrow>
     heap_blocks hp \<le> 2 ^ 19 \<and> start_address hp \<noteq> 0 \<and> start_address hp mod HEAP_BLOCK_SIZE_BYTES = 0 \<and>
     uint (start_address hp) + 4096 * heap_blocks hp \<le> 2 ^ 32 \<and>
     table_ok (entries (table hp)) (heap_blocks hp)"

lemma run_code_cases:
  "run_code k j = (if j = 0 then if 1 < k then 0xC1 else 0x41 else if j + 1 < k then 0x81 else 0x01)"
  by (simp add: run_code_def heap_consts)

lemma table_ok_code: "table_ok e n \<Longrightarrow> 0 \<le> i \<Longrightarrow> i < n \<Longrightarrow> e i \<in> {0x00, 0x41, 0xC1, 0x81, 0x01}"
  by (simp add: table_ok_def)

lemma table_ok_next: "table_ok e n \<Longrightarrow> 0 \<le> i \<Longrightarrow> i < n \<Longrightarrow> e i \<in> {0xC1, 0x81} \<Longrightarrow>
    i + 1 < n \<and> e (i + 1) \<in> {0x81, 0x01}"
  by (simp add: table_ok_def)

lemma table_ok_prev: "table_ok e n \<Longrightarrow> 0 \<le> i \<Longrightarrow> i < n \<Longrightarrow> e i \<in> {0x81, 0x01} \<Longrightarrow>
    0 < i \<and> e (i - 1) \<in> {0xC1, 0x81}"
  by (simp add: table_ok_def)

lemma entry_free_code:
  "b \<in> {0x00, 0x41, 0xC1, 0x81, 0x01} \<Longrightarrow> block_entry_is_free b \<longleftrightarrow> b = 0"
  by (auto simp: block_entry_is_free_def heap_get_entry_type_def heap_consts)

lemma entry_taken_code:
  "b \<in> {0x00, 0x41, 0xC1, 0x81, 0x01} \<Longrightarrow> block_entry_is_taken b \<longleftrightarrow> b \<noteq> 0"
  by (auto simp: block_entry_is_taken_def heap_get_entry_type_def heap_consts)

section \<open>The allocations of a table\<close>

function run_length :: "(int \<Rightarrow> u8) \<Rightarrow> int \<Rightarrow> int \<Rightarrow> int" where
  "run_length e n i = (if i < n \<and> block_has_next_block (e i) then 1 + run_length e n (i + 1) else 1)"
  by pat_completeness auto
termination
  by (relation "measure (\<lambda>(e, n, i). nat (n - i))") auto

declare run_length.simps [simp del]

definition allocation :: "heap \<Rightarrow> int \<Rightarrow> int option" where
  "allocation hp s =
     (if 0 \<le> s \<and> s < heap_blocks hp \<and> entries (table hp) s AND HEAP_BLOCK_IS_FIRST \<noteq> 0
      then Some (run_length (entries (table hp)) (heap_blocks hp) s) else None)"

lemma run_length_pos: "1 \<le> run_length e n i"
proof (induction e n i rule: run_length.induct)
  case (1 e n i)
  then show ?case by (subst run_length.simps) auto
qed

lemma run_length_run:
  assumes "\<And>j. 0 \<le> j \<Longrightarrow> j < k \<Longrightarrow> i + j < n \<and> (block_has_next_block (e (i + j)) \<longleftrightarrow> j + 1 < k)"
    and "1 \<le> k"
  shows "run_length e n i = k"
  using assms
proof (induction "nat k" arbitrary: i k)
  case (Suc m)
  show ?case
  proof (cases "k = 1")
    case True
    then show ?thesis using Suc.prems(1) [of 0] by (subst run_length.simps) simp
  next
    case False
    have "run_length e n (i + 1) = k - 1"
    proof (rule Suc.hyps(1))
      show "m = nat (k - 1)" using Suc.hyps(2) by simp
      fix j :: int assume "0 \<le> j" "j < k - 1"
      then show "i + 1 + j < n \<and> (block_has_next_block (e (i + 1 + j)) \<longleftrightarrow> j + 1 < k - 1)"
        using Suc.prems(1) [of "j + 1"] by (simp add: ac_simps)
    qed (use False Suc.prems(2) in simp)
    then show ?thesis
      using Suc.prems False by (subst run_length.simps) (use Suc.prems(1) [of 0] in simp)
  qed
qed simp

text \<open>In a well-formed table the length of a run is where its bytes stop.\<close>

lemma run_length_bytes:
  assumes "table_ok e n" and "0 \<le> i" and "i < n" and "e i \<noteq> 0"
  shows "i + run_length e n i \<le> n \<and>
    (\<forall>j. 0 < j \<and> j < run_length e n i \<longrightarrow>
        e (i + j) = (if j + 1 < run_length e n i then 0x81 else 0x01)) \<and>
    (block_has_next_block (e i) \<longleftrightarrow> 1 < run_length e n i)"
  using assms
proof (induction e n i rule: run_length.induct)
  case (1 e n i)
  have code: "e i \<in> {0x41, 0xC1, 0x81, 0x01}"
    using table_ok_code [OF "1.prems"(1-3)] "1.prems"(4) by auto
  have nxt: "block_has_next_block (e i) \<longleftrightarrow> e i \<in> {0xC1, 0x81}"
    using code by (auto simp: block_has_next_block_def heap_consts)
  show ?case
  proof (cases "block_has_next_block (e i)")
    case False
    then show ?thesis using "1.prems"(3) by (auto simp: run_length.simps [of e n i])
  next
    case True
    then have after: "i + 1 < n" "e (i + 1) \<in> {0x81, 0x01}"
      using table_ok_next [OF "1.prems"(1-3)] nxt by auto
    define k where "k = run_length e n (i + 1)"
    have len: "run_length e n i = 1 + k"
      using True "1.prems"(3) by (simp add: run_length.simps [of e n i] k_def)
    have IH: "i + 1 + k \<le> n" "\<And>j. 0 < j \<Longrightarrow> j < k \<Longrightarrow> e (i + 1 + j) = (if j + 1 < k then 0x81 else 0x01)"
      "block_has_next_block (e (i + 1)) \<longleftrightarrow> 1 < k"
      using "1.IH" "1.prems" True after unfolding k_def by auto
    have "e (i + 1) = (if 1 < k then 0x81 else 0x01)"
      using after(2) IH(3) by (auto simp: block_has_next_block_def heap_consts)
    then have "e (i + j) = (if j < k then 0x81 else 0x01)" if "0 < j" "j < 1 + k" for j
      using that IH(2) [of "j - 1"] by (cases "j = 1") auto
    moreover have "1 \<le> k" unfolding k_def by (rule run_length_pos)
    ultimately show ?thesis using True IH(1) by (auto simp: len)
  qed
qed

lemma allocation_is_run:
  assumes "heap_ok hp" and "allocation hp s = Some k"
  shows "is_run (entries (table hp)) s k \<and> 0 \<le> s \<and> s + k \<le> heap_blocks hp"
proof -
  let ?e = "entries (table hp)" and ?n = "heap_blocks hp"
  have ok: "table_ok ?e ?n" using assms(1) by (simp add: heap_ok_def)
  have s: "0 \<le> s" "s < ?n" "?e s AND HEAP_BLOCK_IS_FIRST \<noteq> 0" and k: "k = run_length ?e ?n s"
    using assms(2) by (auto simp: allocation_def split: if_splits)
  then have first: "?e s \<in> {0x41, 0xC1}"
    using table_ok_code [OF ok s(1,2)] by (auto simp: heap_consts)
  then have "?e s \<noteq> 0" by auto
  note run = run_length_bytes [OF ok s(1,2) this, folded k]
  have "?e (s + j) = run_code k j" if "0 \<le> j" "j < k" for j
    using that run first
    by (cases "j = 0") (auto simp: run_code_cases block_has_next_block_def heap_consts)
  then show ?thesis
    using s run run_length_pos [of ?e ?n s] by (simp add: is_run_def k)
qed

lemma is_run_allocation:
  assumes "is_run (entries (table hp)) s k" and "0 \<le> s" and "s + k \<le> heap_blocks hp"
  shows "allocation hp s = Some k"
proof -
  let ?e = "entries (table hp)"
  have k: "1 \<le> k" and run: "\<And>j. 0 \<le> j \<Longrightarrow> j < k \<Longrightarrow> ?e (s + j) = run_code k j"
    using assms(1) by (auto simp: is_run_def)
  have "run_length ?e (heap_blocks hp) s = k"
    using k run assms(3)
    by (intro run_length_run) (auto simp: run_code_cases block_has_next_block_def heap_consts)
  moreover have "?e s AND HEAP_BLOCK_IS_FIRST \<noteq> 0"
    using run [of 0] k by (auto simp: run_code_cases heap_consts)
  ultimately show ?thesis using assms(2,3) k by (simp add: allocation_def)
qed

section \<open>Marking a run as taken\<close>

definition put_run :: "(int \<Rightarrow> u8) \<Rightarrow> int \<Rightarrow> int \<Rightarrow> (int \<Rightarrow> u8)" where
  "put_run e s k = (\<lambda>i. if s \<le> i \<and> i < s + k then run_code k (i - s) else e i)"

text \<open>A window of \<open>k\<close> free blocks at \<open>s\<close> in a table of \<open>n\<close> entries.\<close>

definition free_window :: "(int \<Rightarrow> u8) \<Rightarrow> int \<Rightarrow> int \<Rightarrow> int \<Rightarrow> bool" where
  "free_window e n s k \<longleftrightarrow> 0 \<le> s \<and> s + k \<le> n \<and>
     (\<forall>i. s \<le> i \<and> i < s + k \<longrightarrow> block_entry_is_free (e i))"

lemma fold_upd_int:
  "fold (\<lambda>i e. e(i := f i)) [a..b] e = (\<lambda>i. if a \<le> i \<and> i \<le> b then f i else e i)"
proof (induction a b arbitrary: e rule: upto.induct)
  case (1 a b)
  show ?case
  proof (cases "a \<le> b")
    case True
    then have "fold (\<lambda>i e. e(i := f i)) [a..b] e = fold (\<lambda>i e. e(i := f i)) [a + 1..b] (e(a := f a))"
      by (subst upto.simps) simp
    also have "\<dots> = (\<lambda>i. if a + 1 \<le> i \<and> i \<le> b then f i else (e(a := f a)) i)"
      using True by (rule "1.IH")
    also have "\<dots> = (\<lambda>i. if a \<le> i \<and> i \<le> b then f i else e i)"
      using True by auto
    finally show ?thesis .
  next
    case False
    then show ?thesis by (auto simp: fun_eq_iff)
  qed
qed

lemma uint_minus_one_pos: "0 < uint t \<Longrightarrow> uint (t - 1) = uint t - 1" for t :: u32
  using uint_sub_lem [of 1 t] by simp

lemma word_of_int_le_total:
  fixes t :: u32
  assumes "0 \<le> i" and "i < uint t"
  shows "word_of_int i \<le> t - 1"
proof -
  have "0 < uint t" using assms by linarith
  then have "uint (t - 1) = uint t - 1"
    by (rule uint_minus_one_pos)
  moreover have "uint (word_of_int i :: u32) = i"
    using assms uint_lt2p [of t] by (simp add: uint_word_of_int)
  ultimately show ?thesis using assms(2) by (simp add: word_le_def)
qed

lemma uint_word_of_int_small: "0 \<le> i \<Longrightarrow> i < 2 ^ 32 \<Longrightarrow> uint (word_of_int i :: u32) = i"
  by (simp add: uint_word_of_int)

lemma mark_blocks_taken_put_run:
  assumes "0 \<le> s" and "1 \<le> k" and "s + k \<le> heap_blocks hp" and "heap_blocks hp \<le> 2 ^ 19"
  shows "mark_blocks_taken hp s k =
    (0, hp\<lparr>table := (table hp)\<lparr>entries := put_run (entries (table hp)) s k\<rparr>\<rparr>)"
proof -
  let ?t = "table_total (table hp)"
  let ?e = "entries (table hp)"
  have n: "heap_blocks hp = uint ?t" by (simp add: heap_blocks_def)
  have "\<not> word_of_int s > ?t - 1" "\<not> word_of_int (s + k - 1) > ?t - 1"
    using word_of_int_le_total [of s ?t] word_of_int_le_total [of "s + k - 1" ?t] assms
    by (auto simp: n not_less)
  then have "mark_blocks_taken hp s k = (0, hp\<lparr>table := (table hp)\<lparr>entries :=
      fold (\<lambda>i e. e(i := if i \<noteq> s + k - 1 then 0x01 OR 0x80 else 0x01)) [s + 1..s + k - 1]
        (if k > 1 then (?e(s := 0x41))(s := 0xC1) else ?e(s := 0x41))\<rparr>\<rparr>)"
    by (simp add: mark_blocks_taken_def Let_def heap_consts cong: if_cong)
  also have "fold (\<lambda>i e. e(i := if i \<noteq> s + k - 1 then 0x01 OR 0x80 else 0x01)) [s + 1..s + k - 1]
        (if k > 1 then (?e(s := 0x41))(s := 0xC1) else ?e(s := 0x41)) = put_run ?e s k"
    unfolding fold_upd_int using assms(2) by (auto simp: put_run_def run_code_cases fun_eq_iff)
  finally show ?thesis .
qed

lemma put_run_ok:
  assumes ok: "table_ok e n" and "0 \<le> s" and "1 \<le> k" and "s + k \<le> n"
    and free: "\<forall>i. s \<le> i \<and> i < s + k \<longrightarrow> e i = 0"
  shows "table_ok (put_run e s k) n"
proof -
  let ?e = "put_run e s k"
  have old: "?e i = e i" if "i < s \<or> s + k \<le> i" for i
    using that by (auto simp: put_run_def)
  have new: "?e i = run_code k (i - s)" if "s \<le> i" "i < s + k" for i
    using that by (simp add: put_run_def)
  have next_old: "i + 1 < s \<or> s + k \<le> i + 1" if "i < s \<or> s + k \<le> i" "0 \<le> i" "i < n" "e i \<in> {0xC1, 0x81}" for i
  proof -
    have "e (i + 1) \<noteq> 0" using table_ok_next [OF ok that(2-4)] by auto
    with free show ?thesis by (metis not_le)
  qed
  have prev_old: "i - 1 < s \<or> s + k \<le> i - 1" if "i < s \<or> s + k \<le> i" "0 \<le> i" "i < n" "e i \<in> {0x81, 0x01}" for i
  proof -
    have "e (i - 1) \<noteq> 0" using table_ok_prev [OF ok that(2-4)] by auto
    with free show ?thesis by (metis not_le)
  qed
  have inside: "i < s \<or> s + k \<le> i \<or> s \<le> i \<and> i < s + k" for i by linarith
  have "?e i \<in> {0x00, 0x41, 0xC1, 0x81, 0x01}" if "0 \<le> i" "i < n" for i
    using table_ok_code [OF ok that] by (auto simp: put_run_def run_code_cases)
  moreover have "i + 1 < n \<and> ?e (i + 1) \<in> {0x81, 0x01}" if "0 \<le> i" "i < n" "?e i \<in> {0xC1, 0x81}" for i
    using inside [of i]
  proof (elim disjE)
    assume i: "s \<le> i \<and> i < s + k"
    then have "i + 1 < s + k" using that(3) by (auto simp: new run_code_cases split: if_splits)
    then show ?thesis using i assms(4) by (auto simp: new run_code_cases)
  qed (use that next_old [of i] table_ok_next [OF ok that(1,2)] old in force)+
  moreover have "0 < i \<and> ?e (i - 1) \<in> {0xC1, 0x81}" if "0 \<le> i" "i < n" "?e i \<in> {0x81, 0x01}" for i
    using inside [of i]
  proof (elim disjE)
    assume i: "s \<le> i \<and> i < s + k"
    then have "s < i" using that(3) by (auto simp: new run_code_cases split: if_splits)
    then show ?thesis using i assms(2) by (auto simp: new run_code_cases)
  qed (use that prev_old [of i] table_ok_prev [OF ok that(1,2)] old in force)+
  ultimately show ?thesis unfolding table_ok_def by blast
qed

section \<open>Clearing a run\<close>

definition clear_blocks :: "(int \<Rightarrow> u8) \<Rightarrow> int \<Rightarrow> int \<Rightarrow> (int \<Rightarrow> u8)" where
  "clear_blocks e s k = (\<lambda>i. if s \<le> i \<and> i < s + k then 0 else e i)"

lemma clear_run_clears:
  assumes "1 \<le> k" and "0 \<le> i" and "i + k \<le> uint tot"
    and "\<And>j. 0 \<le> j \<Longrightarrow> j < k \<Longrightarrow> e (i + j) AND HEAP_BLOCK_HAS_NEXT = 0 \<longleftrightarrow> j + 1 = k"
  shows "clear_run tot i e = clear_blocks e i k"
  using assms
proof (induction "nat k" arbitrary: i k e)
  case (Suc m)
  have "uint (word_of_int i :: u32) = i"
    using Suc.prems(1-3) uint_lt2p [of tot] by (intro uint_word_of_int_small) auto
  then have in_range: "word_of_int i < tot" using Suc.prems by (simp add: word_less_def)
  show ?case
  proof (cases "k = 1")
    case True
    then show ?thesis using in_range Suc.prems(4) [of 0]
      by (auto simp: clear_run.simps [of tot i e] clear_blocks_def heap_consts fun_eq_iff)
  next
    case False
    let ?e = "e(i := 0)"
    have "clear_run tot (i + 1) ?e = clear_blocks ?e (i + 1) (k - 1)"
    proof (rule Suc.hyps(1))
      show "m = nat (k - 1)" using Suc.hyps(2) by simp
      fix j :: int assume "0 \<le> j" "j < k - 1"
      then show "?e (i + 1 + j) AND HEAP_BLOCK_HAS_NEXT = 0 \<longleftrightarrow> j + 1 = k - 1"
        using Suc.prems(4) [of "j + 1"] by (auto simp: ac_simps)
    qed (use False Suc.prems in auto)
    moreover have "e i AND HEAP_BLOCK_HAS_NEXT \<noteq> 0"
      using Suc.prems(4) [of 0] Suc.prems(1) False by auto
    ultimately have "clear_run tot i e = clear_blocks ?e (i + 1) (k - 1)"
      using in_range by (simp add: clear_run.simps [of tot i e] HEAP_BLOCK_TABLE_ENTRY_FREE_def)
    also have "\<dots> = clear_blocks e i k"
      using Suc.prems(1) by (auto simp: clear_blocks_def fun_eq_iff)
    finally show ?thesis .
  qed
qed simp

lemma mark_blocks_free_run:
  assumes "is_run (entries (table hp)) s k" and "0 \<le> s" and "s + k \<le> heap_blocks hp"
  shows "mark_blocks_free hp s =
    Some (hp\<lparr>table := (table hp)\<lparr>entries := clear_blocks (entries (table hp)) s k\<rparr>\<rparr>)"
proof -
  let ?e = "entries (table hp)"
  have k: "1 \<le> k" and run: "\<And>j. 0 \<le> j \<Longrightarrow> j < k \<Longrightarrow> ?e (s + j) = run_code k j"
    using assms(1) by (auto simp: is_run_def)
  have "?e s AND HEAP_BLOCK_IS_FIRST \<noteq> 0"
    using run [of 0] k by (auto simp: run_code_cases heap_consts)
  then have "find_first_block ?e s s = Some s" by (simp add: find_first_block.simps)
  moreover have "clear_run (table_total (table hp)) s ?e = clear_blocks ?e s k"
    using k assms(2,3) run
    by (intro clear_run_clears) (auto simp: heap_blocks_def run_code_cases heap_consts)
  ultimately show ?thesis by (simp add: mark_blocks_free_def Let_def)
qed

lemma clear_blocks_ok:
  assumes ok: "table_ok e n" and run: "is_run e s k" and "0 \<le> s" and "s + k \<le> n"
  shows "table_ok (clear_blocks e s k) n"
proof -
  let ?e = "clear_blocks e s k"
  have k: "1 \<le> k" using run by (simp add: is_run_def)
  note codes = is_run_nth [OF run]
  have old: "?e i = e i" if "i < s \<or> s + k \<le> i" for i
    using that by (auto simp: clear_blocks_def)
  have out: "i < s \<or> s + k \<le> i" if "?e i \<noteq> 0" for i
    using that by (auto simp: clear_blocks_def split: if_splits)
  have next_out: "i + 1 < s \<or> s + k \<le> i + 1"
    if "i < s \<or> s + k \<le> i" "e (i + 1) \<in> {0x81, 0x01}" for i
  proof (rule ccontr)
    assume "\<not> ?thesis"
    then have "i + 1 = s" using that(1) by linarith
    then show False using that(2) codes [of s] k by (auto simp: run_code_cases split: if_splits)
  qed
  have prev_out: "i - 1 < s \<or> s + k \<le> i - 1"
    if "i < s \<or> s + k \<le> i" "e (i - 1) \<in> {0xC1, 0x81}" for i
  proof (rule ccontr)
    assume "\<not> ?thesis"
    then have "i - 1 = s + k - 1" using that(1) by linarith
    then show False using that(2) codes [of "s + k - 1"] k by (auto simp: run_code_cases split: if_splits)
  qed
  have "?e i \<in> {0x00, 0x41, 0xC1, 0x81, 0x01}" if "0 \<le> i" "i < n" for i
    using table_ok_code [OF ok that] by (auto simp: clear_blocks_def)
  moreover have "i + 1 < n \<and> ?e (i + 1) \<in> {0x81, 0x01}" if "0 \<le> i" "i < n" "?e i \<in> {0xC1, 0x81}" for i
  proof -
    have i: "i < s \<or> s + k \<le> i" by (rule out) (use that(3) in auto)
    then have "i + 1 < n \<and> e (i + 1) \<in> {0x81, 0x01}"
      using table_ok_next [OF ok that(1,2)] that(3) old by auto
    then show ?thesis using next_out [OF i] old by auto
  qed
  moreover have "0 < i \<and> ?e (i - 1) \<in> {0xC1, 0x81}" if "0 \<le> i" "i < n" "?e i \<in> {0x81, 0x01}" for i
  proof -
    have i: "i < s \<or> s + k \<le> i" by (rule out) (use that(3) in auto)
    then have "0 < i \<and> e (i - 1) \<in> {0xC1, 0x81}"
      using table_ok_prev [OF ok that(1,2)] that(3) old by auto
    then show ?thesis using prev_out [OF i] old by auto
  qed
  ultimately show ?thesis unfolding table_ok_def by blast
qed

section \<open>First-fit search\<close>

lemma block_entry_is_free_0 [simp]: "block_entry_is_free 0"
  by (simp add: block_entry_is_free_def heap_get_entry_type_def heap_consts)

lemma word_of_int_eq_iff_uint: "0 \<le> x \<Longrightarrow> x < 2 ^ 32 \<Longrightarrow> word_of_int x = n \<longleftrightarrow> x = uint n" for n :: u32
  by (metis uint_word_of_int_small word_of_int_uint)

lemma get_free_loop_first_fit:
  assumes "i \<le> tot" and "0 < uint n" and "0 \<le> c" and "c < uint n"
    and "b = (if c = 0 then - ENOMEM else int i - c)" and "c \<le> int i"
    and "\<And>j. int i - c \<le> j \<Longrightarrow> j < int i \<Longrightarrow> block_entry_is_free (e j)"
    and "\<And>s. s < int i - c \<Longrightarrow> \<not> free_window e (int tot) s (uint n)"
  shows "(case get_free_loop e tot n i c b of (c', b') \<Rightarrow>
     (c' = uint n \<and> free_window e (int tot) b' c' \<and> (\<forall>s < b'. \<not> free_window e (int tot) s c')) \<or>
     (0 \<le> c' \<and> c' < uint n \<and> (\<forall>s. \<not> free_window e (int tot) s (uint n))))"
  using assms
proof (induction e tot n i c b rule: get_free_loop.induct)
  case (1 e tot n i c b)
  have c32: "c + 1 < 2 ^ 32 \<or> c + 1 = 2 ^ 32" "c + 1 \<le> uint n" and n32: "uint n < 2 ^ 32"
    using "1.prems"(4) uint_lt2p [of n] by auto
  have reached: "word_of_int (c + 1) = n \<longleftrightarrow> c + 1 = uint n"
    using "1.prems"(3,4) n32 by (intro word_of_int_eq_iff_uint) auto
  show ?case
  proof (cases "i < tot")
    case False
    have "\<not> free_window e (int tot) s (uint n)" for s
      using "1.prems"(1,4) "1.prems"(8) [of s] False by (cases "s < int i - c") (auto simp: free_window_def)
    then show ?thesis using False "1.prems"(3,4) by (simp add: get_free_loop.simps [of e tot n i])
  next
    case True
    show ?thesis
    proof (cases "block_entry_is_free (e (int i))")
      case False
      have "\<not> free_window e (int tot) s (uint n)" if "s < int (i + 1) - 0" for s
        using that "1.prems"(4) "1.prems"(8) [of s] False
        by (cases "s < int i - c") (auto simp: free_window_def intro!: exI [of _ "int i"])
      then have "case get_free_loop e tot n (i + 1) 0 (- ENOMEM) of (c', b') \<Rightarrow>
         (c' = uint n \<and> free_window e (int tot) b' c' \<and> (\<forall>s < b'. \<not> free_window e (int tot) s c')) \<or>
         (0 \<le> c' \<and> c' < uint n \<and> (\<forall>s. \<not> free_window e (int tot) s (uint n)))"
        using True False "1.prems"(2,4) by (intro "1.IH"(2)) auto
      then show ?thesis using True False by (simp add: get_free_loop.simps [of e tot n i])
    next
      case here: True
      define b1 where "b1 = (if b = - ENOMEM then int i else b)"
      have b1: "b1 = int i - c"
        using "1.prems"(3,5,6) by (auto simp: b1_def ENOMEM_def)
      have step: "get_free_loop e tot n i c b =
          (if c + 1 = uint n then (c + 1, b1) else get_free_loop e tot n (i + 1) (c + 1) b1)"
        using True here reached by (simp add: get_free_loop.simps [of e tot n i] b1_def Let_def)
      have free: "block_entry_is_free (e j)" if "int i - c \<le> j" "j < int i + 1" for j
        using that "1.prems"(7) [of j] here by (cases "j = int i") auto
      show ?thesis
      proof (cases "c + 1 = uint n")
        case True
        then have "free_window e (int tot) b1 (c + 1)"
          using free \<open>i < tot\<close> "1.prems"(6) by (auto simp: free_window_def b1)
        then show ?thesis using True "1.prems"(8) step b1 by auto
      next
        case False
        have "case get_free_loop e tot n (i + 1) (c + 1) b1 of (c', b') \<Rightarrow>
           (c' = uint n \<and> free_window e (int tot) b' c' \<and> (\<forall>s < b'. \<not> free_window e (int tot) s c')) \<or>
           (0 \<le> c' \<and> c' < uint n \<and> (\<forall>s. \<not> free_window e (int tot) s (uint n)))"
          unfolding b1_def
          by (rule "1.IH"(1) [OF True here refl refl])
             (use True False reached c32 "1.prems" free b1 in \<open>auto simp: b1_def\<close>)
        then show ?thesis using step False by simp
      qed
    qed
  qed
qed

abbreviation heap_window :: "heap \<Rightarrow> int \<Rightarrow> int \<Rightarrow> bool" where
  "heap_window hp \<equiv> free_window (entries (table hp)) (heap_blocks hp)"

text \<open>The search returns the least window of the wanted size, or \<open>-ENOMEM\<close> when there is none.\<close>

lemma get_free_blocks_first_fit:
  assumes "0 < n"
  shows "(0 \<le> get_free_blocks hp n \<and> heap_window hp (get_free_blocks hp n) (uint n) \<and>
      (\<forall>s < get_free_blocks hp n. \<not> heap_window hp s (uint n))) \<or>
    (get_free_blocks hp n = - ENOMEM \<and> (\<forall>s. \<not> heap_window hp s (uint n)))"
proof -
  let ?tot = "unat (table_total (table hp))"
  obtain c b where loop: "get_free_loop (entries (table hp)) ?tot n 0 0 (- ENOMEM) = (c, b)"
    by fastforce
  have pos: "0 < uint n" using assms by (simp add: word_less_def)
  have "(c = uint n \<and> heap_window hp b c \<and> (\<forall>s < b. \<not> heap_window hp s c)) \<or>
      (0 \<le> c \<and> c < uint n \<and> (\<forall>s. \<not> heap_window hp s (uint n)))"
    using get_free_loop_first_fit [of 0 ?tot n 0 "- ENOMEM" "entries (table hp)"] pos loop
    by (simp add: heap_blocks_def free_window_def)
  moreover have "word_of_int c = n \<longleftrightarrow> c = uint n" if "0 \<le> c" "c \<le> uint n"
    using that uint_lt2p [of n] by (intro word_of_int_eq_iff_uint) auto
  ultimately show ?thesis
    using loop pos by (auto simp: get_free_blocks_def free_window_def)
qed

lemma get_free_blocks_0: "get_free_blocks hp 0 = - ENOMEM"
proof -
  have "word_of_int c = (0 :: u32) \<Longrightarrow> b = - ENOMEM"
    if "get_free_loop e tot 0 i c0 b0 = (c, b)" "c0 = 0 \<Longrightarrow> b0 = - ENOMEM" "0 \<le> c0" "c0 \<le> int i" "i \<le> tot" "int tot < 2 ^ 32"
    for e tot i c0 b0 c b
    using that
  proof (induction e tot "0 :: u32" i c0 b0 rule: get_free_loop.induct)
    case (1 e tot i c0 b0)
    have never: "word_of_int x \<noteq> (0 :: u32)" if "0 < x" "x < 2 ^ 32" for x
      using that word_of_int_eq_iff_uint [of x 0] by simp
    show ?case
    proof (cases "i < tot \<and> block_entry_is_free (e (int i))")
      case True
      then show ?thesis
        using "1.hyps"(1) "1.prems" never [of "c0 + 1"]
        by (simp add: get_free_loop.simps [of e tot 0 i c0] Let_def)
    next
      case False
      then have "get_free_loop e tot 0 i c0 b0 =
          (if i < tot then get_free_loop e tot 0 (i + 1) 0 (- ENOMEM) else (c0, b0))"
        by (subst get_free_loop.simps) simp
      then show ?thesis
        using "1.hyps"(2) "1.prems" never [of c0] False by (cases "i < tot"; cases "c0 = 0") auto
    qed
  qed
  note loop = this [of "entries (table hp)" "unat (table_total (table hp))" 0 0 "- ENOMEM"]
  show ?thesis
    using loop uint_lt2p [of "table_total (table hp)"]
    by (cases "get_free_loop (entries (table hp)) (unat (table_total (table hp))) 0 0 0 (- ENOMEM)")
      (simp add: get_free_blocks_def)
qed

section \<open>malloc and free\<close>

text \<open>The address of a block, and the block at an address, are inverse on a well-formed heap.\<close>

definition block_address :: "heap \<Rightarrow> int \<Rightarrow> u32" where
  "block_address hp i = start_address hp + word_of_int i * HEAP_BLOCK_SIZE_BYTES"

lemma block_address_uint:
  assumes "heap_ok hp" and "0 \<le> i" and "i < heap_blocks hp"
  shows "uint (block_address hp i) = uint (start_address hp) + 4096 * i"
proof -
  have "block_address hp i = word_of_int (uint (start_address hp) + 4096 * i)"
    by (simp add: block_address_def heap_consts)
  moreover have "uint (start_address hp) + 4096 * i < 2 ^ 32"
    using assms by (simp add: heap_ok_def)
  ultimately show ?thesis
    using assms(2) by (simp add: uint_word_of_int_small del: of_int_add)
qed

lemma block_number_address:
  assumes "heap_ok hp" and "0 \<le> i" and "i < heap_blocks hp"
  shows "get_block_number_from_physical_address hp (block_address hp i) = i"
proof -
  have "block_address hp i - start_address hp = word_of_int (4096 * i)"
    by (simp add: block_address_def heap_consts)
  moreover have "4096 * i < 2 ^ 31"
    using assms by (simp add: heap_ok_def)
  then have "sint (word_of_int (4096 * i) :: u32) = 4096 * i"
    using assms(2) by (subst sint_sbintrunc') (simp add: signed_take_bit_int_eq_self)
  ultimately show ?thesis
    using assms(2)
    by (simp add: get_block_number_from_physical_address_def signed_divide_int_def sgn_if)
qed

lemma physical_address_block:
  assumes "0 \<le> i" and "i < heap_blocks hp"
  shows "get_physical_address_from_block_number hp i = block_address hp i"
  using word_of_int_le_total [of i "table_total (table hp)"] assms
  by (auto simp: get_physical_address_from_block_number_def block_address_def heap_blocks_def)

lemma block_address_nonzero:
  assumes "heap_ok hp" and "0 \<le> i" and "i < heap_blocks hp"
  shows "block_address hp i \<noteq> 0"
proof
  assume "block_address hp i = 0"
  then have "uint (start_address hp) + 4096 * i = 0"
    using block_address_uint [OF assms] by simp
  then have "uint (start_address hp) = 0"
    using assms(2) uint_nonnegative [of "start_address hp"] by linarith
  then show False using assms(1) by (simp add: heap_ok_def uint_0_iff)
qed

definition with_entries :: "heap \<Rightarrow> (int \<Rightarrow> u8) \<Rightarrow> heap" where
  "with_entries hp e = hp\<lparr>table := (table hp)\<lparr>entries := e\<rparr>\<rparr>"

lemma with_entries_simps [simp]:
  "entries (table (with_entries hp e)) = e" "start_address (with_entries hp e) = start_address hp"
  "table_total (table (with_entries hp e)) = table_total (table hp)"
  "heap_blocks (with_entries hp e) = heap_blocks hp"
  "block_address (with_entries hp e) = block_address hp"
  by (simp_all add: with_entries_def heap_blocks_def block_address_def fun_eq_iff)

lemma heap_ok_with_entries:
  "heap_ok hp \<Longrightarrow> table_ok e (heap_blocks hp) \<Longrightarrow> heap_ok (with_entries hp e)"
  by (simp add: heap_ok_def)

text \<open>\<open>malloc_blocks\<close> takes the first window that fits, or returns NULL and changes nothing.\<close>

lemma malloc_blocks_cases:
  assumes "heap_ok hp"
  obtains (full) "malloc_blocks hp n = (0, hp)" "n = 0 \<or> (\<forall>s. \<not> heap_window hp s (uint n))"
  | (fit) s where "heap_window hp s (uint n)" "0 < uint n" "\<forall>s' < s. \<not> heap_window hp s' (uint n)"
      "malloc_blocks hp n = (block_address hp s, with_entries hp (put_run (entries (table hp)) s (uint n)))"
proof (cases "0 < n")
  case False
  then have "n = 0" by (simp add: word_greater_zero_iff)
  then show ?thesis using full get_free_blocks_0 [of hp] by (simp add: malloc_blocks_def ENOMEM_def)
next
  case True
  let ?s = "get_free_blocks hp n"
  from get_free_blocks_first_fit [OF True, of hp] show ?thesis
  proof (elim disjE conjE)
    assume "?s = - ENOMEM" and "\<forall>s. \<not> heap_window hp s (uint n)"
    then show ?thesis using full by (simp add: malloc_blocks_def ENOMEM_def)
  next
    assume s: "0 \<le> ?s" and win: "heap_window hp ?s (uint n)"
      and least: "\<forall>s < ?s. \<not> heap_window hp s (uint n)"
    have n: "0 < uint n" using True by (simp add: word_less_def)
    have bounds: "?s + uint n \<le> heap_blocks hp" "heap_blocks hp \<le> 2 ^ 19"
      using win assms by (simp_all add: free_window_def heap_ok_def)
    then have "sint n = uint n"
      using s n by (simp add: sint_uint signed_take_bit_int_eq_self)
    then have "malloc_blocks hp n =
        (block_address hp ?s, with_entries hp (put_run (entries (table hp)) ?s (uint n)))"
      using s n bounds mark_blocks_taken_put_run [of ?s "uint n" hp] physical_address_block [of ?s hp]
      by (simp add: malloc_blocks_def with_entries_def Let_def)
    then show ?thesis using fit win n least by blast
  qed
qed

text \<open>The allocations of a table after a run is put in a free window, or cleared.\<close>

lemma run_length_cong:
  assumes "\<And>j. 0 \<le> j \<Longrightarrow> j < run_length e n i \<Longrightarrow> e' (i + j) = e (i + j)"
  shows "run_length e' n i = run_length e n i"
  using assms
proof (induction e n i rule: run_length.induct)
  case (1 e n i)
  have "e' i = e i" using "1.prems" [of 0] run_length_pos [of e n i] by simp
  moreover have "run_length e' n (i + 1) = run_length e n (i + 1)" if "i < n \<and> block_has_next_block (e i)"
  proof (rule "1.IH" [OF that])
    fix j :: int assume "0 \<le> j" "j < run_length e n (i + 1)"
    then show "e' (i + 1 + j) = e (i + 1 + j)"
      using "1.prems" [of "j + 1"] that by (simp add: run_length.simps [of e n i] ac_simps)
  qed
  ultimately show ?case
    by (simp add: run_length.simps [of e n i] run_length.simps [of e' n i])
qed

lemma run_code_taken: "run_code k j \<noteq> 0"
  by (simp add: run_code_cases)

lemma allocation_frame:
  assumes ok: "heap_ok hp" and alloc: "allocation hp s = Some k"
    and same: "\<And>j. s \<le> j \<Longrightarrow> j < s + k \<Longrightarrow> e j = entries (table hp) j"
  shows "allocation (with_entries hp e) s = Some k"
proof -
  have run: "is_run (entries (table hp)) s k" "0 \<le> s" "s + k \<le> heap_blocks hp"
    using allocation_is_run [OF ok alloc] by auto
  then have "is_run e s k" using same by (simp add: is_run_def)
  then show ?thesis using run by (intro is_run_allocation) simp_all
qed

lemma allocation_put_run:
  assumes ok: "heap_ok hp" and win: "heap_window hp s k" and "1 \<le> k"
  shows "heap_ok (with_entries hp (put_run (entries (table hp)) s k))"
    and "allocation (with_entries hp (put_run (entries (table hp)) s k)) = (allocation hp)(s \<mapsto> k)"
    and "allocation hp s = None"
proof -
  let ?e = "entries (table hp)" and ?e' = "put_run (entries (table hp)) s k"
  let ?hp = "with_entries hp ?e'"
  have tok: "table_ok ?e (heap_blocks hp)" using ok by (simp add: heap_ok_def)
  have s: "0 \<le> s" "s + k \<le> heap_blocks hp" using win by (auto simp: free_window_def)
  have zero: "\<forall>i. s \<le> i \<and> i < s + k \<longrightarrow> ?e i = 0"
  proof (intro allI impI)
    fix i assume i: "s \<le> i \<and> i < s + k"
    then have "block_entry_is_free (?e i)" using win by (simp add: free_window_def)
    moreover have "?e i \<in> {0x00, 0x41, 0xC1, 0x81, 0x01}"
      using i s by (intro table_ok_code [OF tok]) auto
    ultimately show "?e i = 0" using entry_free_code by blast
  qed
  show ok': "heap_ok ?hp"
    using ok by (rule heap_ok_with_entries) (use put_run_ok [OF tok s(1) assms(3) s(2) zero] in simp)
  show none: "allocation hp s = None"
    using zero assms(3) by (simp add: allocation_def)
  have old: "?e' i = ?e i" if "i < s \<or> s + k \<le> i" for i
    using that by (auto simp: put_run_def)
  have here: "allocation ?hp s = Some k"
  proof (rule is_run_allocation)
    show "is_run (entries (table ?hp)) s k" using assms(3) by (auto simp: is_run_def put_run_def)
  qed (use s in simp_all)
  have "allocation ?hp s' = allocation hp s'" if "s' \<noteq> s" for s'
  proof (cases "allocation hp s'")
    case (Some l)
    then have run: "is_run ?e s' l" using allocation_is_run [OF ok] by blast
    have "j < s \<or> s + k \<le> j" if "s' \<le> j" "j < s' + l" for j
      using is_run_nth [OF run that] run_code_taken zero by (metis not_le)
    then show ?thesis using Some allocation_frame [OF ok Some, of ?e'] old by simp
  next
    case None
    have "?e' s' AND HEAP_BLOCK_IS_FIRST = 0" if "0 \<le> s'" "s' < heap_blocks hp"
      using that None \<open>s' \<noteq> s\<close>
      by (auto simp: put_run_def allocation_def run_code_cases heap_consts split: if_splits)
    then show ?thesis using None by (simp add: allocation_def)
  qed
  with here show "allocation ?hp = (allocation hp)(s \<mapsto> k)" by (auto simp: fun_eq_iff)
qed

text \<open>Two allocations never share a block.\<close>

lemma allocations_disjoint:
  assumes ok: "heap_ok hp" and "allocation hp s = Some k" and "allocation hp t = Some l" and "s < t"
  shows "s + k \<le> t"
proof (rule ccontr)
  assume "\<not> s + k \<le> t"
  then have "entries (table hp) t = run_code k (t - s)"
    using allocation_is_run [OF ok assms(2)] assms(4) by (intro is_run_nth) auto
  moreover have "entries (table hp) t = run_code l 0"
    using allocation_is_run [OF ok assms(3)] by (auto simp: is_run_def dest: spec [of _ 0])
  ultimately show False using assms(4) by (auto simp: run_code_cases split: if_splits)
qed

lemma allocation_clear:
  assumes ok: "heap_ok hp" and alloc: "allocation hp s = Some k"
  shows "heap_ok (with_entries hp (clear_blocks (entries (table hp)) s k))"
    and "allocation (with_entries hp (clear_blocks (entries (table hp)) s k)) = (allocation hp)(s := None)"
proof -
  let ?e = "entries (table hp)" and ?e' = "clear_blocks (entries (table hp)) s k"
  let ?hp = "with_entries hp ?e'"
  have tok: "table_ok ?e (heap_blocks hp)" using ok by (simp add: heap_ok_def)
  have run: "is_run ?e s k" "0 \<le> s" "s + k \<le> heap_blocks hp"
    using allocation_is_run [OF ok alloc] by auto
  show "heap_ok ?hp"
    using ok by (rule heap_ok_with_entries) (use clear_blocks_ok [OF tok run] in simp)
  have here: "allocation ?hp s = None"
    using run by (simp add: allocation_def clear_blocks_def is_run_def)
  have "allocation ?hp s' = allocation hp s'" if "s' \<noteq> s" for s'
  proof (cases "allocation hp s'")
    case (Some l)
    have l: "is_run ?e s' l" using allocation_is_run [OF ok Some] by blast
    have "s' + l \<le> s \<or> s + k \<le> s'"
      using allocations_disjoint [OF ok alloc Some] allocations_disjoint [OF ok Some alloc] that by linarith
    then show ?thesis
      using Some by (auto intro!: allocation_frame [OF ok Some] simp: clear_blocks_def)
  next
    case None
    then show ?thesis by (auto simp: allocation_def clear_blocks_def split: if_splits)
  qed
  with here show "allocation ?hp = (allocation hp)(s := None)" by (auto simp: fun_eq_iff)
qed

end
