(* ===== verification/Allocator.thy ===== *)
theory Allocator
  imports CLib_Memory
begin

text \<open>
  The interface between the kernel heap and the components that allocate from it.
  \<open>block_allocator\<close> is the contract of an allocator of page-aligned blocks; the state
  \<open>'h\<close> is the provider's, \<open>live\<close> is its abstract view: the number of 4096-byte blocks of
  every allocation in use, by address, and \<open>vacant\<close> is the set of the addresses in its free blocks. \<open>zeroing_allocator\<close> adds what a caller of
  \<open>kzalloc\<close> relies on about memory. The lemmas that follow the laws are proved here once and
  reach the clients through the interpretations in \<open>KHeap\<close>.
\<close>

definition blocks_for :: "u32 \<Rightarrow> nat" where
  "blocks_for n = (unat n + 4095) div 4096"

lemma blocks_for_enough: "unat n \<le> 4096 * blocks_for n"
proof -
  have "4096 * blocks_for n = unat n + 4095 - (unat n + 4095) mod 4096"
    unfolding blocks_for_def by (rule minus_mod_eq_mult_div [symmetric])
  moreover have "(unat n + 4095) mod 4096 \<le> 4095"
    using mod_less_divisor [of 4096 "unat n + 4095"] by simp
  ultimately show ?thesis by linarith
qed

lemma blocks_for_one: "0 < n \<Longrightarrow> n \<le> 4096 \<Longrightarrow> blocks_for n = 1"
proof -
  assume "0 < n" "n \<le> 4096"
  then have "1 \<le> unat n" "unat n \<le> 4096" by (auto simp: word_less_nat_alt word_le_nat_alt)
  then show ?thesis by (simp add: blocks_for_def div_nat_eqI)
qed

locale block_allocator =
  fixes alloc :: "'h \<Rightarrow> u32 \<Rightarrow> u32 \<times> 'h"
    and dealloc :: "'h \<Rightarrow> u32 \<Rightarrow> 'h option"
    and live :: "'h \<Rightarrow> u32 \<Rightarrow> nat option"
    and room :: "'h \<Rightarrow> nat"
    and vacant :: "'h \<Rightarrow> u32 set"
    and inv :: "'h \<Rightarrow> bool"
  assumes alloc_null: "inv h \<Longrightarrow> alloc h n = (0, h') \<Longrightarrow> h' = h"
    and alloc_some: "inv h \<Longrightarrow> alloc h n = (p, h') \<Longrightarrow> p \<noteq> 0 \<Longrightarrow>
          inv h' \<and> live h p = None \<and> live h' = (live h)(p \<mapsto> blocks_for n)"
    and alloc_room: "inv h \<Longrightarrow> alloc h n = (p, h') \<Longrightarrow> p \<noteq> 0 \<Longrightarrow> room h = room h' + blocks_for n"
    and alloc_one: "inv h \<Longrightarrow> 0 < n \<Longrightarrow> n \<le> 4096 \<Longrightarrow> 0 < room h \<Longrightarrow> fst (alloc h n) \<noteq> 0"
    and dealloc_live: "inv h \<Longrightarrow> live h p = Some k \<Longrightarrow>
          \<exists>h'. dealloc h p = Some h' \<and> inv h' \<and> live h' = (live h)(p := None) \<and> room h' = room h + k \<and>
            vacant h' = vacant h \<union> addrs p (4096 * k)"
    and alloc_vacant: "inv h \<Longrightarrow> alloc h n = (p, h') \<Longrightarrow> p \<noteq> 0 \<Longrightarrow>
          addrs p (4096 * blocks_for n) \<subseteq> vacant h \<and> vacant h' = vacant h - addrs p (4096 * blocks_for n)"
    and live_vacant: "inv h \<Longrightarrow> live h p = Some k \<Longrightarrow> addrs p (4096 * k) \<inter> vacant h = {}"
    and live_block: "inv h \<Longrightarrow> live h p = Some k \<Longrightarrow>
          p \<noteq> 0 \<and> p mod 4096 = 0 \<and> 1 \<le> k \<and> unat p + 4096 * k \<le> 2 ^ 32"
    and live_apart: "inv h \<Longrightarrow> live h p = Some k \<Longrightarrow> live h q = Some l \<Longrightarrow> p \<noteq> q \<Longrightarrow>
          addrs p (4096 * k) \<inter> addrs q (4096 * l) = {}"

context block_allocator begin

lemma alloc_inv: "inv h \<Longrightarrow> alloc h n = (p, h') \<Longrightarrow> inv h'"
  using alloc_null [of h n h'] alloc_some [of h n p h'] by (cases "p = 0") auto

lemma alloc_fresh: "inv h \<Longrightarrow> alloc h n = (p, h') \<Longrightarrow> p \<noteq> 0 \<Longrightarrow> live h q = Some l \<Longrightarrow>
    q \<noteq> p \<and> live h' q = Some l \<and> addrs p (4096 * blocks_for n) \<inter> addrs q (4096 * l) = {}"
  using alloc_some [of h n p h'] live_apart [of h' p "blocks_for n" q l] by auto

text \<open>Releasing what was just allocated gives back the same allocations.\<close>

lemma alloc_dealloc: "inv h \<Longrightarrow> alloc h n = (p, h') \<Longrightarrow> p \<noteq> 0 \<Longrightarrow>
    \<exists>h''. dealloc h' p = Some h'' \<and> inv h'' \<and> live h'' = live h"
  using alloc_some [of h n p h'] dealloc_live [of h' p "blocks_for n"] by (auto simp: fun_upd_idem)

text \<open>Two allocations in a row are different and do not overlap.\<close>

lemma alloc_twice: "inv h \<Longrightarrow> alloc h n = (p, h1) \<Longrightarrow> alloc h1 k = (q, h2) \<Longrightarrow> p \<noteq> 0 \<Longrightarrow> q \<noteq> 0 \<Longrightarrow>
    p \<noteq> q \<and> addrs p (unat n) \<inter> addrs q (unat k) = {}"
proof -
  assume a: "inv h" "alloc h n = (p, h1)" "alloc h1 k = (q, h2)" "p \<noteq> 0" "q \<noteq> 0"
  have "q \<noteq> p \<and> addrs q (4096 * blocks_for k) \<inter> addrs p (4096 * blocks_for n) = {}"
    using alloc_some [OF a(1,2,4)] alloc_fresh [OF _ a(3,5), of p "blocks_for n"] by auto
  then show ?thesis
    using addrs_mono [OF blocks_for_enough, of p n] addrs_mono [OF blocks_for_enough, of q k] by blast
qed

text \<open>Any list of live allocations can be released, one after the other.\<close>

lemma dealloc_list:
  assumes "inv h" and "distinct ps" and "set ps \<subseteq> dom (live h)"
  shows "\<exists>h'. fold (\<lambda>p r. Option.bind r (\<lambda>h. dealloc h p)) ps (Some h) = Some h' \<and> inv h' \<and>
    live h' = (\<lambda>p. if p \<in> set ps then None else live h p)"
  using assms
proof (induction ps arbitrary: h)
  case (Cons p ps)
  then obtain k where "live h p = Some k" by auto
  then obtain h1 where h1: "dealloc h p = Some h1" "inv h1" "live h1 = (live h)(p := None)"
    using dealloc_live [of h p k] Cons.prems(1) by auto
  have "set ps \<subseteq> dom (live h1)" using Cons.prems(2,3) h1(3) by auto
  from Cons.IH [OF h1(2) _ this] Cons.prems(2) show ?case
    by (auto simp: h1 fun_eq_iff)
qed auto

text \<open>A region that holds no vacant byte is safe from every allocation.\<close>

lemma alloc_safe: "inv h \<Longrightarrow> alloc h n = (p, h') \<Longrightarrow> A \<inter> vacant h = {} \<Longrightarrow>
    A \<inter> vacant h' = {} \<and> (p \<noteq> 0 \<longrightarrow> A \<inter> addrs p (4096 * blocks_for n) = {})"
  using alloc_null [of h n h'] alloc_vacant [of h n p h'] by (cases "p = 0") auto

end

locale zeroing_allocator = block_allocator alloc dealloc live room vacant inv
  for alloc :: "'h \<Rightarrow> u32 \<Rightarrow> u32 \<times> 'h" and dealloc live room vacant inv +
  fixes contents :: "'h \<Rightarrow> memory"
  assumes alloc_zero: "inv h \<Longrightarrow> alloc h n = (p, h') \<Longrightarrow> p \<noteq> 0 \<Longrightarrow>
          contents h' = (\<lambda>a. if a \<in> addrs p (unat n) then 0 else contents h a)"
    and dealloc_contents: "dealloc h p = Some h' \<Longrightarrow> contents h' = contents h"

context zeroing_allocator begin

text \<open>Allocating leaves the bytes of every other allocation as they were.\<close>

lemma alloc_keeps: "inv h \<Longrightarrow> alloc h n = (p, h') \<Longrightarrow> live h q = Some l \<Longrightarrow> a \<in> addrs q (4096 * l) \<Longrightarrow>
    contents h' a = contents h a"
proof (cases "p = 0")
  case False
  assume a: "inv h" "alloc h n = (p, h')" "live h q = Some l" "a \<in> addrs q (4096 * l)"
  then have "a \<notin> addrs p (4096 * blocks_for n)" using alloc_fresh [OF a(1,2) False a(3)] by blast
  then have "a \<notin> addrs p (unat n)" using addrs_mono [OF blocks_for_enough, of p n] by blast
  then show ?thesis using alloc_zero [OF a(1,2) False] by simp
qed (use alloc_null in auto)

lemma alloc_safe_keeps: "inv h \<Longrightarrow> alloc h n = (p, h') \<Longrightarrow> A \<inter> vacant h = {} \<Longrightarrow> a \<in> A \<Longrightarrow>
    contents h' a = contents h a"
proof (cases "p = 0")
  case False
  assume a: "inv h" "alloc h n = (p, h')" "A \<inter> vacant h = {}" "a \<in> A"
  then have "a \<notin> addrs p (4096 * blocks_for n)" using alloc_safe [OF a(1-3)] False by blast
  then have "a \<notin> addrs p (unat n)" using addrs_mono [OF blocks_for_enough, of p n] by blast
  then show ?thesis using alloc_zero [OF a(1,2) False] by simp
qed (use alloc_null in auto)

end

end
