(* ===== verification/Heap_Interface.thy ===== *)
theory Heap_Interface
  imports Heap_Correct Allocator
begin

text \<open>
  \<open>malloc\<close> and \<open>free\<close> of \<open>memory/heap.c\<close> fulfil the allocator contract. The abstract
  view \<open>live\<close> turns block numbers into addresses and counts blocks.
\<close>

definition live :: "heap \<Rightarrow> u32 \<Rightarrow> nat option" where
  "live hp p =
     (let i = get_block_number_from_physical_address hp p
      in if block_address hp i = p then map_option nat (allocation hp i) else None)"

definition free_room :: "heap \<Rightarrow> nat" where
  "free_room hp = card {i. 0 \<le> i \<and> i < heap_blocks hp \<and> entries (table hp) i = 0}"

definition block_of :: "heap \<Rightarrow> u32 \<Rightarrow> int" where
  "block_of hp a = (uint a - uint (start_address hp)) div 4096"

definition vacant :: "heap \<Rightarrow> u32 set" where
  "vacant hp = {a. 0 \<le> block_of hp a \<and> block_of hp a < heap_blocks hp \<and> entries (table hp) (block_of hp a) = 0}"

section \<open>Sizes\<close>

lemma total_blocks_for:
  "unat (align_value_to_upper n div HEAP_BLOCK_SIZE_BYTES) = (if unat n \<le> 2 ^ 32 - 4096 then blocks_for n else 0)"
proof -
  define q r where "q = unat n div 4096" and "r = unat n mod 4096"
  have n: "unat n = 4096 * q + r" by (simp add: q_def r_def)
  have r: "r < 4096" by (simp add: r_def)
  have rem: "unat (n mod 4096) = r" by (simp add: unat_mod r_def)
  have n32: "4096 * q + r < 4096 * 1048576" using unat_u32_less [of n] n by simp
  then have q: "q < 1048576" by linarith
  show ?thesis
  proof (cases "r = 0")
    case True
    then have "n mod 4096 = 0" using rem by (simp add: unat_eq_0)
    then have "align_value_to_upper n = n" by (simp add: align_value_to_upper_def heap_consts)
    then show ?thesis using True n q by (simp add: unat_div heap_consts blocks_for_def)
  next
    case False
    have "n mod 4096 \<noteq> 0"
    proof
      assume "n mod 4096 = 0"
      then have "unat (n mod 4096) = 0" by (simp only: unat_0)
      with rem False show False by simp
    qed
    then have a: "align_value_to_upper n = n - n mod 4096 + 4096"
      by (simp add: align_value_to_upper_def heap_consts Let_def)
    have "unat (n - n mod 4096) = 4096 * q"
      using rem n by (simp add: unat_sub word_le_nat_alt)
    then have "unat (align_value_to_upper n) = (4096 * q + 4096) mod 2 ^ 32"
      by (simp add: a unat_word_ariths(1))
    moreover have "blocks_for n = q + 1" using n r False by (simp add: blocks_for_def div_nat_eqI)
    ultimately show ?thesis
      using q n r False by (cases "q = 1048575") (auto simp: unat_div heap_consts)
  qed
qed

section \<open>The view by address\<close>

lemma live_block_address:
  assumes "heap_ok hp" and "0 \<le> i" and "i < heap_blocks hp"
  shows "live hp (block_address hp i) = map_option nat (allocation hp i)"
  by (simp add: live_def block_number_address [OF assms] Let_def)

lemma live_SomeE:
  assumes "heap_ok hp" and "live hp p = Some k"
  obtains i where "p = block_address hp i" "0 \<le> i" "i < heap_blocks hp" "allocation hp i = Some (int k)" "1 \<le> k"
    "i + int k \<le> heap_blocks hp"
proof -
  let ?i = "get_block_number_from_physical_address hp p"
  obtain l where l: "p = block_address hp ?i" "allocation hp ?i = Some l" "k = nat l"
    using assms(2) by (auto simp: live_def Let_def split: if_splits)
  then have "is_run (entries (table hp)) ?i l" "0 \<le> ?i" "?i + l \<le> heap_blocks hp"
    using allocation_is_run [OF assms(1)] by auto
  then show thesis using that [of ?i] l by (auto simp: is_run_def)
qed

lemma block_address_inj:
  assumes "heap_ok hp" and "0 \<le> i" "i < heap_blocks hp" "0 \<le> j" "j < heap_blocks hp"
  shows "block_address hp i = block_address hp j \<longleftrightarrow> i = j"
  using block_number_address [OF assms(1-3)] block_number_address [OF assms(1,4,5)] by metis

lemma live_with_entries:
  assumes ok: "heap_ok hp" and ok': "heap_ok (with_entries hp e)" and i: "0 \<le> i" "i < heap_blocks hp"
    and upd: "allocation (with_entries hp e) = (allocation hp)(i := v)"
  shows "live (with_entries hp e) = (live hp)(block_address hp i := map_option nat v)"
proof (rule ext)
  fix p
  let ?j = "get_block_number_from_physical_address hp p"
  have same: "get_block_number_from_physical_address (with_entries hp e) p = ?j"
    by (simp add: get_block_number_from_physical_address_def)
  show "live (with_entries hp e) p = ((live hp)(block_address hp i := map_option nat v)) p"
  proof (cases "p = block_address hp i")
    case True
    then show ?thesis using i by (simp add: live_def same [unfolded True] upd block_number_address [OF ok i] Let_def)
  next
    case False
    then show ?thesis by (auto simp: live_def same upd Let_def)
  qed
qed

lemma in_block_addrs:
  assumes "heap_ok hp" and "0 \<le> i" and "i + int k \<le> heap_blocks hp" and "1 \<le> k"
  shows "a \<in> addrs (block_address hp i) (4096 * k) \<longleftrightarrow>
    uint (start_address hp) + 4096 * i \<le> uint a \<and> uint a < uint (start_address hp) + 4096 * (i + int k)"
proof -
  let ?p = "block_address hp i"
  have p: "uint ?p = uint (start_address hp) + 4096 * i"
    using assms by (intro block_address_uint) auto
  have fits: "uint ?p + 4096 * int k \<le> 2 ^ 32"
    using assms by (simp add: p heap_ok_def)
  have "uint (a - ?p) = (if uint ?p \<le> uint a then uint a - uint ?p else uint a - uint ?p + 2 ^ 32)"
    using uint_sub_if' [of a ?p] by simp
  moreover have "unat (a - ?p) < 4096 * k \<longleftrightarrow> uint (a - ?p) < 4096 * int k"
    using of_nat_less_iff [of "unat (a - ?p)" "4096 * k", where 'a = int] by simp
  ultimately have wrap: "a \<in> addrs ?p (4096 * k) \<longleftrightarrow>
      (if uint ?p \<le> uint a then uint a - uint ?p else uint a - uint ?p + 2 ^ 32) < 4096 * int k"
    by (simp add: addrs_def)
  have pos: "0 \<le> uint a" by simp
  have iff: "a \<in> addrs ?p (4096 * k) \<longleftrightarrow> uint ?p \<le> uint a \<and> uint a - uint ?p < 4096 * int k"
  proof (cases "uint ?p \<le> uint a")
    case False
    have "\<not> uint a - uint ?p + 2 ^ 32 < 4096 * int k" using pos fits by linarith
    with False show ?thesis unfolding wrap by simp
  qed (simp add: wrap)
  have "uint a - uint ?p < 4096 * int k \<longleftrightarrow> uint a < uint (start_address hp) + 4096 * (i + int k)"
    unfolding p by (simp add: distrib_left) linarith
  then show ?thesis by (simp only: iff p)
qed

lemma in_block_addrs_block_of:
  assumes "heap_ok hp" and "0 \<le> i" and "i + int k \<le> heap_blocks hp" and "1 \<le> k"
  shows "a \<in> addrs (block_address hp i) (4096 * k) \<longleftrightarrow> i \<le> block_of hp a \<and> block_of hp a < i + int k"
proof -
  have le: "c * 4096 \<le> x \<longleftrightarrow> c \<le> x div 4096" for c x :: int
  proof -
    have "4096 * (x div 4096) + x mod 4096 = x" "0 \<le> x mod 4096" "x mod 4096 < 4096" by simp_all
    then show ?thesis by linarith
  qed
  define x where "x = uint a - uint (start_address hp)"
  have "a \<in> addrs (block_address hp i) (4096 * k) \<longleftrightarrow> i * 4096 \<le> x \<and> \<not> (i + int k) * 4096 \<le> x"
    unfolding in_block_addrs [OF assms] x_def by (simp add: algebra_simps) linarith
  then show ?thesis by (simp only: le block_of_def x_def not_le)
qed

lemma block_of_with_entries [simp]: "block_of (with_entries hp e) = block_of hp"
  by (simp add: block_of_def fun_eq_iff)

section \<open>malloc\<close>

lemma malloc_live:
  assumes ok: "heap_ok hp" and m: "malloc hp n = (p, hp')" and p: "p \<noteq> 0"
  obtains s where "p = block_address hp s" "heap_window hp s (int (blocks_for n))" "1 \<le> blocks_for n"
    "hp' = with_entries hp (put_run (entries (table hp)) s (int (blocks_for n)))"
    "0 \<le> s" "s < heap_blocks hp"
proof -
  let ?k = "align_value_to_upper n div HEAP_BLOCK_SIZE_BYTES"
  have m': "malloc_blocks hp ?k = (p, hp')" using m by (simp add: malloc_def Let_def)
  show thesis
    using ok
  proof (cases rule: malloc_blocks_cases [of _ ?k])
    case full
    then show ?thesis using m' p by simp
  next
    case (fit s)
    have "?k \<noteq> 0" using fit(2) by (metis uint_0_iff less_irrefl)
    then have "unat ?k \<noteq> 0" by (simp only: unat_eq_0 not_False_eq_True)
    then have "unat ?k = blocks_for n" by (simp only: total_blocks_for split: if_splits) simp
    then have k: "uint ?k = int (blocks_for n)" by (simp only: uint_nat)
    show ?thesis
    proof (rule that [of s])
      show "heap_window hp s (int (blocks_for n))" using fit(1) k by simp
      show "1 \<le> blocks_for n" using fit(2) k by simp
      show "p = block_address hp s" "hp' = with_entries hp (put_run (entries (table hp)) s (int (blocks_for n)))"
        using fit(4) m' k by simp_all
      show "0 \<le> s" "s < heap_blocks hp" using fit(1,2) by (auto simp: free_window_def)
    qed
  qed
qed

lemma malloc_null:
  assumes "heap_ok hp" and "malloc hp n = (0, hp')"
  shows "hp' = hp"
  using assms(1)
proof (cases rule: malloc_blocks_cases [of _ "align_value_to_upper n div HEAP_BLOCK_SIZE_BYTES"])
  case (fit s)
  then show ?thesis
    using block_address_nonzero [OF assms(1), of s] assms(2)
    by (auto simp: malloc_def Let_def free_window_def)
qed (use assms(2) in \<open>simp add: malloc_def Let_def\<close>)

lemma malloc_live_map:
  assumes ok: "heap_ok hp" and m: "malloc hp n = (p, hp')" and p: "p \<noteq> 0"
  shows "heap_ok hp' \<and> live hp p = None \<and> live hp' = (live hp)(p \<mapsto> blocks_for n)"
  using malloc_live [OF assms]
proof cases
  case (1 s)
  note put = allocation_put_run [OF ok 1(2)] 
  have k: "1 \<le> int (blocks_for n)" using 1(3) by simp
  show ?thesis
    using put [OF k] live_with_entries [OF ok put(1) [OF k] 1(5,6) put(2) [OF k]]
    by (simp add: 1(1,4) live_block_address [OF ok 1(5,6)])
qed

section \<open>Room\<close>

lemma free_room_put_run:
  assumes ok: "heap_ok hp" and win: "heap_window hp s (int k)"
  shows "free_room hp = free_room (with_entries hp (put_run (entries (table hp)) s (int k))) + k"
proof -
  let ?e = "entries (table hp)" and ?n = "heap_blocks hp"
  let ?F = "{i. 0 \<le> i \<and> i < ?n \<and> ?e i = 0}" and ?W = "{s..<s + int k}"
  have tok: "table_ok ?e ?n" using ok by (simp add: heap_ok_def)
  have sub: "?W \<subseteq> ?F"
  proof
    fix i assume i: "i \<in> ?W"
    then have range: "0 \<le> i" "i < ?n" and "block_entry_is_free (?e i)"
      using win by (auto simp: free_window_def)
    then have "?e i = 0" using entry_free_code [OF table_ok_code [OF tok range]] by simp
    then show "i \<in> ?F" using range by simp
  qed
  have fin: "finite ?F" by (rule finite_subset [of _ "{0..<?n}"]) auto
  have "{i. 0 \<le> i \<and> i < ?n \<and> put_run ?e s (int k) i = 0} = ?F - ?W"
    using run_code_taken by (auto simp: put_run_def)
  then have "free_room (with_entries hp (put_run ?e s (int k))) = card ?F - card ?W"
    using card_Diff_subset [OF _ sub] by (simp add: free_room_def)
  moreover have "card ?W \<le> card ?F" using fin sub by (rule card_mono)
  ultimately show ?thesis by (simp add: free_room_def)
qed

lemma free_room_clear:
  assumes ok: "heap_ok hp" and alloc: "allocation hp s = Some (int k)"
  shows "free_room (with_entries hp (clear_blocks (entries (table hp)) s (int k))) = free_room hp + k"
proof -
  let ?e = "entries (table hp)" and ?n = "heap_blocks hp"
  let ?F = "{i. 0 \<le> i \<and> i < ?n \<and> ?e i = 0}" and ?W = "{s..<s + int k}"
  have run: "is_run ?e s (int k)" "0 \<le> s" "s + int k \<le> ?n"
    using allocation_is_run [OF ok alloc] by auto
  have fin: "finite ?F" by (rule finite_subset [of _ "{0..<?n}"]) auto
  have "?F \<inter> ?W = {}" using is_run_nth [OF run(1)] run_code_taken by auto
  moreover have "{i. 0 \<le> i \<and> i < ?n \<and> clear_blocks ?e s (int k) i = 0} = ?F \<union> ?W"
    using run(2,3) by (auto simp: clear_blocks_def)
  ultimately show ?thesis using fin by (simp add: free_room_def card_Un_disjoint)
qed

lemma malloc_room:
  assumes "heap_ok hp" and "malloc hp n = (p, hp')" and "p \<noteq> 0"
  shows "free_room hp = free_room hp' + blocks_for n"
  using malloc_live [OF assms] by cases (auto dest: free_room_put_run [OF assms(1)])

lemma malloc_one:
  assumes ok: "heap_ok hp" and n: "0 < n" "n \<le> 4096" and room: "0 < free_room hp"
  shows "fst (malloc hp n) \<noteq> 0"
proof -
  let ?k = "align_value_to_upper n div HEAP_BLOCK_SIZE_BYTES"
  have "unat n \<le> 4096" using n(2) by (simp add: word_le_nat_alt)
  then have "unat ?k = 1" using total_blocks_for [of n] blocks_for_one [OF n] by simp
  then have k: "uint ?k = 1" by (simp only: uint_nat of_nat_1)
  obtain i where i: "0 \<le> i" "i < heap_blocks hp" "entries (table hp) i = 0"
    using room by (auto simp: free_room_def card_gt_0_iff)
  have "\<And>j. i \<le> j \<Longrightarrow> j < i + 1 \<Longrightarrow> j = i" by simp
  then have win: "heap_window hp i (uint ?k)" using i by (auto simp: k free_window_def)
  show ?thesis
    using ok
  proof (cases rule: malloc_blocks_cases [of _ ?k])
    case (fit s)
    then show ?thesis
      using block_address_nonzero [OF ok, of s] by (auto simp: malloc_def Let_def free_window_def)
  next
    case full
    have "?k \<noteq> 0" using k by force
    then show ?thesis using full(2) win by blast
  qed
qed

lemma malloc_vacant:
  assumes ok: "heap_ok hp" and m: "malloc hp n = (p, hp')" and p: "p \<noteq> 0"
  shows "addrs p (4096 * blocks_for n) \<subseteq> vacant hp \<and> vacant hp' = vacant hp - addrs p (4096 * blocks_for n)"
  using malloc_live [OF assms]
proof cases
  case (1 s)
  let ?e = "entries (table hp)"
  have s: "s + int (blocks_for n) \<le> heap_blocks hp" using 1(2) by (simp add: free_window_def)
  note addrs = in_block_addrs_block_of [OF ok 1(5) s 1(3)]
  have tok: "table_ok ?e (heap_blocks hp)" using ok by (simp add: heap_ok_def)
  have zero: "?e i = 0" if "s \<le> i" "i < s + int (blocks_for n)" for i
  proof -
    have "0 \<le> i" "i < heap_blocks hp" "block_entry_is_free (?e i)"
      using that 1(2) by (auto simp: free_window_def)
    then show ?thesis using entry_free_code [OF table_ok_code [OF tok]] by simp
  qed
  have "addrs p (4096 * blocks_for n) \<subseteq> vacant hp"
    using zero s 1(5) by (auto simp: 1(1) addrs vacant_def)
  moreover have "vacant hp' = vacant hp - addrs p (4096 * blocks_for n)"
    unfolding 1(1,4) vacant_def set_eq_iff Diff_iff mem_Collect_eq addrs
    using run_code_taken by (auto simp: put_run_def)
  ultimately show ?thesis ..
qed

section \<open>free\<close>

lemma free_live:
  assumes ok: "heap_ok hp" and l: "live hp p = Some k"
  shows "\<exists>hp'. free hp p = Some hp' \<and> heap_ok hp' \<and> live hp' = (live hp)(p := None) \<and>
    free_room hp' = free_room hp + k \<and> vacant hp' = vacant hp \<union> addrs p (4096 * k)"
  using live_SomeE [OF ok l]
proof cases
  case (1 s)
  note clear = allocation_clear [OF ok 1(4)] and room = free_room_clear [OF ok 1(4)]
  have run: "is_run (entries (table hp)) s (int k)" using allocation_is_run [OF ok 1(4)] by blast
  have "free hp p = Some (with_entries hp (clear_blocks (entries (table hp)) s (int k)))"
    using mark_blocks_free_run [OF run 1(2,6)] block_number_address [OF ok 1(2,3)]
    by (simp add: free_def 1(1) with_entries_def)
  moreover have "vacant (with_entries hp (clear_blocks (entries (table hp)) s (int k))) =
      vacant hp \<union> addrs p (4096 * k)"
    unfolding 1(1) vacant_def set_eq_iff Un_iff mem_Collect_eq in_block_addrs_block_of [OF ok 1(2,6,5)]
    using 1(2,6) by (auto simp: clear_blocks_def)
  ultimately show ?thesis
    using clear room live_with_entries [OF ok clear(1) 1(2,3) clear(2)] by (simp add: 1(1))
qed

lemma live_vacant:
  assumes ok: "heap_ok hp" and l: "live hp p = Some k"
  shows "addrs p (4096 * k) \<inter> vacant hp = {}"
  using live_SomeE [OF ok l]
proof cases
  case (1 s)
  have run: "is_run (entries (table hp)) s (int k)" using allocation_is_run [OF ok 1(4)] by blast
  have "a \<notin> vacant hp" if "a \<in> addrs p (4096 * k)" for a
  proof -
    have "s \<le> block_of hp a" "block_of hp a < s + int k"
      using that unfolding 1(1) in_block_addrs_block_of [OF ok 1(2,6,5)] by auto
    then show ?thesis using is_run_nth [OF run] run_code_taken by (simp add: vacant_def)
  qed
  then show ?thesis by blast
qed

section \<open>The contract\<close>

lemma live_block_facts:
  assumes ok: "heap_ok hp" and l: "live hp p = Some k"
  shows "p \<noteq> 0 \<and> p mod 4096 = 0 \<and> 1 \<le> k \<and> unat p + 4096 * k \<le> 2 ^ 32"
  using live_SomeE [OF ok l]
proof cases
  case (1 i)
  have p: "uint p = uint (start_address hp) + 4096 * i"
    using block_address_uint [OF ok 1(2,3)] by (simp add: 1(1))
  have "start_address hp mod 4096 = 0" using ok by (simp only: heap_ok_def heap_consts)
  then have "uint (start_address hp mod 4096) = 0" by (simp only: uint_0_iff)
  then have "uint (start_address hp) mod 4096 = 0" by (simp only: uint_mod) simp
  then have "uint (p mod 4096) = 0" by (simp add: uint_mod p)
  then have "p mod 4096 = 0" by (simp only: uint_0_iff)
  moreover have "uint p + 4096 * int k \<le> 2 ^ 32"
    using ok 1(6) p by (simp add: heap_ok_def)
  then have "int (unat p + 4096 * k) \<le> int (2 ^ 32)" by simp
  then have "unat p + 4096 * k \<le> 2 ^ 32" by (simp only: of_nat_le_iff)
  ultimately show ?thesis using block_address_nonzero [OF ok 1(2,3)] 1(1,5) by simp
qed

lemma live_disjoint:
  assumes ok: "heap_ok hp" and p: "live hp p = Some k" and q: "live hp q = Some l" and "p \<noteq> q"
  shows "addrs p (4096 * k) \<inter> addrs q (4096 * l) = {}"
proof -
  obtain i where i: "p = block_address hp i" "0 \<le> i" "allocation hp i = Some (int k)" "1 \<le> k"
      "i + int k \<le> heap_blocks hp"
    using live_SomeE [OF ok p] by metis
  obtain j where j: "q = block_address hp j" "0 \<le> j" "allocation hp j = Some (int l)" "1 \<le> l"
      "j + int l \<le> heap_blocks hp"
    using live_SomeE [OF ok q] by metis
  have "i \<noteq> j" using assms(4) i(1) j(1) by auto
  then have "i + int k \<le> j \<or> j + int l \<le> i"
    using allocations_disjoint [OF ok i(3) j(3)] allocations_disjoint [OF ok j(3) i(3)] by linarith
  then show ?thesis
    unfolding i(1) j(1) disjoint_iff in_block_addrs [OF ok i(2,5,4)] in_block_addrs [OF ok j(2,5,4)]
    by (intro allI impI notI) (elim conjE disjE; simp add: distrib_left)
qed

interpretation hb: block_allocator malloc free live free_room vacant heap_ok
  by unfold_locales
    (erule (1) malloc_null malloc_live_map malloc_room malloc_one free_live live_block_facts live_disjoint
      malloc_vacant live_vacant | assumption)+

end
