(* ===== verification/KHeap.thy ===== *)
theory KHeap
  imports Kernel_Objects Heap_Interface
begin

text \<open>
  The kernel heap of \<open>memory/kheap.c\<close>: \<open>malloc\<close> and \<open>free\<close> on the global heap of the
  machine. The bytes of its block table, at \<open>HEAP_TABLE_ADDRESS\<close>, are the \<open>entries\<close> of the
  table and kept apart from \<open>mem\<close>. Freeing a block ends the life of the object in it.
\<close>

section \<open>Operations\<close>

definition KERNEL_HEAP_SIZE_BYTES :: u32 where "KERNEL_HEAP_SIZE_BYTES = 0x06400000"
definition KERNEL_HEAP_START_ADDRESS :: u32 where "KERNEL_HEAP_START_ADDRESS = 0x01000000"

definition kheap_init :: "'a machine_scheme \<Rightarrow> 'a machine_scheme" where
  "kheap_init s =
     (let total_table_entries = KERNEL_HEAP_SIZE_BYTES div HEAP_BLOCK_SIZE_BYTES;
          t = (table (g_kernel_heap s))\<lparr>table_total := total_table_entries\<rparr>;
          (res, hp) = heap_create (g_kernel_heap s) KERNEL_HEAP_START_ADDRESS
            (KERNEL_HEAP_START_ADDRESS + KERNEL_HEAP_SIZE_BYTES) t;
          s = s\<lparr>g_kernel_heap := hp\<rparr>;
          s = (if res < 0 then klog ''Failed to initialize heap memory.\<newline>'' s else s)
      in klog ''Initialize heap successfully.\<newline>'' s)"

definition kmalloc :: "'a machine_scheme \<Rightarrow> u32 \<Rightarrow> u32 \<times> 'a machine_scheme" where
  "kmalloc s n = (let (ptr, hp) = malloc (g_kernel_heap s) n in (ptr, s\<lparr>g_kernel_heap := hp\<rparr>))"

definition kzalloc :: "'a machine_scheme \<Rightarrow> u32 \<Rightarrow> u32 \<times> 'a machine_scheme" where
  "kzalloc s n =
     (let (ptr, s) = kmalloc s n
      in if ptr = 0 then (ptr, s) else (ptr, s\<lparr>mem := memset ptr 0 n (mem s)\<rparr>))"

definition kfree :: "'a machine_scheme \<Rightarrow> u32 \<Rightarrow> 'a machine_scheme option" where
  "kfree s ptr =
     (case free (g_kernel_heap s) ptr of None \<Rightarrow> None
      | Some hp \<Rightarrow> Some (s\<lparr>g_kernel_heap := hp, objs := (objs s)(ptr := None)\<rparr>))"

text \<open>\<open>kzalloc (sizeof (struct ...))\<close>: the block, with a zeroed object of that type in it.\<close>

definition kzalloc_obj :: "'a machine_scheme \<Rightarrow> u32 \<Rightarrow> kobj \<Rightarrow> u32 \<times> 'a machine_scheme" where
  "kzalloc_obj s n x =
     (let (ptr, s) = kzalloc s n in if ptr = 0 then (ptr, s) else (ptr, put_obj ptr x s))"

section \<open>Invariant and view\<close>

definition kheap_ok :: "'a machine_scheme \<Rightarrow> bool" where
  "kheap_ok s \<longleftrightarrow> heap_ok (g_kernel_heap s)"

definition klive :: "'a machine_scheme \<Rightarrow> u32 \<Rightarrow> nat option" where
  "klive s = live (g_kernel_heap s)"

definition kroom :: "'a machine_scheme \<Rightarrow> nat" where
  "kroom s = free_room (g_kernel_heap s)"

definition kvacant :: "'a machine_scheme \<Rightarrow> u32 set" where
  "kvacant s = vacant (g_kernel_heap s)"

lemmas kheap_defs = kheap_ok_def klive_def kroom_def kvacant_def

lemma kheap_simps [simp]:
  "kheap_ok (s\<lparr>mem := m\<rparr>) = kheap_ok s" "kheap_ok (s\<lparr>objs := os\<rparr>) = kheap_ok s"
  "kheap_ok (s\<lparr>con := c\<rparr>) = kheap_ok s"
  "klive (s\<lparr>mem := m\<rparr>) = klive s" "klive (s\<lparr>objs := os\<rparr>) = klive s" "klive (s\<lparr>con := c\<rparr>) = klive s"
  "kroom (s\<lparr>mem := m\<rparr>) = kroom s" "kroom (s\<lparr>objs := os\<rparr>) = kroom s" "kroom (s\<lparr>con := c\<rparr>) = kroom s"
  "kheap_ok (put_obj p x s) = kheap_ok s" "klive (put_obj p x s) = klive s" "kroom (put_obj p x s) = kroom s"
  "kvacant (s\<lparr>mem := m\<rparr>) = kvacant s" "kvacant (s\<lparr>objs := os\<rparr>) = kvacant s" "kvacant (s\<lparr>con := c\<rparr>) = kvacant s"
  "kvacant (put_obj p x s) = kvacant s" "kvacant (klog t s) = kvacant s"
  "kheap_ok (klog t s) = kheap_ok s" "klive (klog t s) = klive s" "kroom (klog t s) = kroom s"
  by (simp_all add: kheap_defs)

lemma kmallocE:
  assumes "kmalloc s n = (p, s')"
  obtains hp where "malloc (g_kernel_heap s) n = (p, hp)" "s' = s\<lparr>g_kernel_heap := hp\<rparr>"
  using assms by (auto simp: kmalloc_def split: prod.splits)

lemma kzallocE:
  assumes "kzalloc s n = (p, s')"
  obtains (null) s1 where "p = 0" "kmalloc s n = (0, s1)" "s' = s1"
  | (fit) s1 where "p \<noteq> 0" "kmalloc s n = (p, s1)" "s' = s1\<lparr>mem := memset p 0 n (mem s1)\<rparr>"
  using assms by (auto simp: kzalloc_def split: prod.splits if_splits)

lemma kfreeE:
  assumes "kfree s p = Some s'"
  obtains hp where "free (g_kernel_heap s) p = Some hp" "s' = s\<lparr>g_kernel_heap := hp, objs := (objs s)(p := None)\<rparr>"
  using assms by (auto simp: kfree_def split: option.splits)

text \<open>No call moves the heap or changes its length.\<close>

definition heap_shape :: "heap \<Rightarrow> u32 \<times> u32" where
  "heap_shape hp = (start_address hp, table_total (table hp))"

lemma malloc_shape: "malloc hp n = (p, hp') \<Longrightarrow> heap_shape hp' = heap_shape hp"
  by (auto simp: malloc_def malloc_blocks_def mark_blocks_taken_def heap_shape_def Let_def split: if_split_asm)

lemma free_shape: "free hp p = Some hp' \<Longrightarrow> heap_shape hp' = heap_shape hp"
  by (auto simp: free_def mark_blocks_free_def heap_shape_def Let_def split: option.split_asm)

lemma heap_shape_blocks: "heap_shape hp' = heap_shape hp \<Longrightarrow> heap_blocks hp' = heap_blocks hp"
  by (simp add: heap_shape_def heap_blocks_def)

lemma kmalloc_shape: "kmalloc s n = (p, s') \<Longrightarrow> heap_shape (g_kernel_heap s') = heap_shape (g_kernel_heap s)"
  by (auto elim!: kmallocE dest: malloc_shape)

lemma kzalloc_shape: "kzalloc s n = (p, s') \<Longrightarrow> heap_shape (g_kernel_heap s') = heap_shape (g_kernel_heap s)"
  by (auto elim!: kzallocE dest: kmalloc_shape)

section \<open>The contract on the machine\<close>

lemma kfree_live:
  assumes "kheap_ok s" and "klive s p = Some k"
  shows "\<exists>s'. kfree s p = Some s' \<and> kheap_ok s' \<and> klive s' = (klive s)(p := None) \<and> kroom s' = kroom s + k \<and>
    kvacant s' = kvacant s \<union> addrs p (4096 * k)"
  using hb.dealloc_live [of "g_kernel_heap s" p k] assms by (auto simp: kfree_def kheap_defs)

lemma kmalloc_null: "kheap_ok s \<Longrightarrow> kmalloc s n = (0, s') \<Longrightarrow> s' = s"
  by (auto elim!: kmallocE dest: hb.alloc_null simp: kheap_defs)

lemma kmalloc_some: "kheap_ok s \<Longrightarrow> kmalloc s n = (p, s') \<Longrightarrow> p \<noteq> 0 \<Longrightarrow>
    kheap_ok s' \<and> klive s p = None \<and> klive s' = (klive s)(p \<mapsto> blocks_for n)"
  by (auto elim!: kmallocE dest: hb.alloc_some simp: kheap_defs)

lemma kmalloc_room: "kheap_ok s \<Longrightarrow> kmalloc s n = (p, s') \<Longrightarrow> p \<noteq> 0 \<Longrightarrow> kroom s = kroom s' + blocks_for n"
  by (auto elim!: kmallocE dest: hb.alloc_room simp: kheap_defs)

lemma kmalloc_one: "kheap_ok s \<Longrightarrow> 0 < n \<Longrightarrow> n \<le> 4096 \<Longrightarrow> 0 < kroom s \<Longrightarrow> fst (kmalloc s n) \<noteq> 0"
  using hb.alloc_one [of "g_kernel_heap s" n] by (auto simp: kmalloc_def kheap_defs split: prod.splits)

lemma klive_block: "kheap_ok s \<Longrightarrow> klive s p = Some k \<Longrightarrow>
    p \<noteq> 0 \<and> p mod 4096 = 0 \<and> 1 \<le> k \<and> unat p + 4096 * k \<le> 2 ^ 32"
  unfolding kheap_defs by (rule hb.live_block)

lemma klive_apart: "kheap_ok s \<Longrightarrow> klive s p = Some k \<Longrightarrow> klive s q = Some l \<Longrightarrow> p \<noteq> q \<Longrightarrow>
    addrs p (4096 * k) \<inter> addrs q (4096 * l) = {}"
  unfolding kheap_defs by (rule hb.live_apart)

lemma kmalloc_vacant: "kheap_ok s \<Longrightarrow> kmalloc s n = (p, s') \<Longrightarrow> p \<noteq> 0 \<Longrightarrow>
    addrs p (4096 * blocks_for n) \<subseteq> kvacant s \<and> kvacant s' = kvacant s - addrs p (4096 * blocks_for n)"
  by (erule kmallocE) (simp add: hb.alloc_vacant kheap_defs)

lemma klive_vacant: "kheap_ok s \<Longrightarrow> klive s p = Some k \<Longrightarrow> addrs p (4096 * k) \<inter> kvacant s = {}"
  unfolding kheap_defs by (rule hb.live_vacant)

text \<open>Addresses below the heap are never vacant.\<close>

lemma below_heap:
  assumes "unat p + n \<le> unat (start_address (g_kernel_heap s))"
  shows "addrs p n \<inter> kvacant s = {}"
proof -
  have "block_of (g_kernel_heap s) a < 0" if "a \<in> addrs p n" for a
  proof -
    have "unat p + n \<le> 4294967296" using assms unat_u32_less [of "start_address (g_kernel_heap s)"] by linarith
    then have "unat a < unat (start_address (g_kernel_heap s))" using that assms by (simp add: addrs_interval)
    then have "a < start_address (g_kernel_heap s)" by (simp only: word_less_nat_alt)
    then have "uint a < uint (start_address (g_kernel_heap s))" by (simp only: word_less_def)
    then show ?thesis unfolding block_of_def by (intro div_neg_pos_less0) simp_all
  qed
  then show ?thesis by (force simp: kvacant_def vacant_def)
qed

interpretation km: block_allocator kmalloc kfree klive kroom kvacant kheap_ok
  by unfold_locales
    (erule (1) kmalloc_null kmalloc_some kmalloc_room kmalloc_one kfree_live klive_block klive_apart
      kmalloc_vacant klive_vacant | assumption)+

lemma kzalloc_null: "kheap_ok s \<Longrightarrow> kzalloc s n = (0, s') \<Longrightarrow> s' = s"
  by (auto elim!: kzallocE dest: kmalloc_null)

lemma kzalloc_some: "kheap_ok s \<Longrightarrow> kzalloc s n = (p, s') \<Longrightarrow> p \<noteq> 0 \<Longrightarrow>
    kheap_ok s' \<and> klive s p = None \<and> klive s' = (klive s)(p \<mapsto> blocks_for n)"
  by (auto elim!: kzallocE dest: kmalloc_some)

lemma kzalloc_room: "kheap_ok s \<Longrightarrow> kzalloc s n = (p, s') \<Longrightarrow> p \<noteq> 0 \<Longrightarrow> kroom s = kroom s' + blocks_for n"
  by (auto elim!: kzallocE dest: kmalloc_room)

lemma kzalloc_one: "kheap_ok s \<Longrightarrow> 0 < n \<Longrightarrow> n \<le> 4096 \<Longrightarrow> 0 < kroom s \<Longrightarrow> fst (kzalloc s n) \<noteq> 0"
  using kmalloc_one [of s n] by (auto simp: kzalloc_def split: prod.splits)

lemma kzalloc_zero: "kheap_ok s \<Longrightarrow> kzalloc s n = (p, s') \<Longrightarrow> p \<noteq> 0 \<Longrightarrow>
    mem s' = (\<lambda>a. if a \<in> addrs p (unat n) then 0 else mem s a)"
  by (erule kzallocE) (auto elim!: kmallocE simp: memset_apply fun_eq_iff)

lemma kfree_mem: "kfree s p = Some s' \<Longrightarrow> mem s' = mem s"
  by (auto elim!: kfreeE)

lemma kzalloc_vacant: "kheap_ok s \<Longrightarrow> kzalloc s n = (p, s') \<Longrightarrow> p \<noteq> 0 \<Longrightarrow>
    addrs p (4096 * blocks_for n) \<subseteq> kvacant s \<and> kvacant s' = kvacant s - addrs p (4096 * blocks_for n)"
  by (erule kzallocE) (simp_all add: kmalloc_vacant)

interpretation kz: zeroing_allocator kzalloc kfree klive kroom kvacant kheap_ok mem
  by unfold_locales
    (erule (1) kzalloc_null kzalloc_some kzalloc_room kzalloc_one kfree_live klive_block klive_apart
      kzalloc_vacant klive_vacant kzalloc_zero kfree_mem | erule kfree_mem | assumption)+

section \<open>Frames\<close>

lemma kzalloc_frame [frame_simps]: "kzalloc s n = (p, s') \<Longrightarrow> con s' = con s \<and> objs s' = objs s"
  by (auto elim!: kzallocE kmallocE)

lemma kzalloc_more [frame_simps]: "kzalloc s n = (p, s') \<Longrightarrow> machine.more s' = machine.more s"
  by (auto elim!: kzallocE kmallocE)

lemma kfree_frame [frame_simps]: "kfree s p = Some s' \<Longrightarrow>
    con s' = con s \<and> objs s' = (objs s)(p := None) \<and> machine.more s' = machine.more s"
  by (auto elim!: kfreeE)

text \<open>Every object lives at the start of an allocation.\<close>

definition machine_ok :: "'a machine_scheme \<Rightarrow> bool" where
  "machine_ok s \<longleftrightarrow> kheap_ok s \<and> dom (objs s) \<subseteq> dom (klive s)"

lemma machine_okD: "machine_ok s \<Longrightarrow> kheap_ok s"
  by (simp add: machine_ok_def)

lemma machine_ok_fresh: "machine_ok s \<Longrightarrow> klive s p = None \<Longrightarrow> objs s p = None"
  by (auto simp: machine_ok_def)

lemma kzalloc_machine_ok [inv_intros]: "machine_ok s \<Longrightarrow> kzalloc s n = (p, s') \<Longrightarrow> machine_ok s'"
proof -
  assume a: "machine_ok s" "kzalloc s n = (p, s')"
  then have "kheap_ok s'" by (blast intro: kz.alloc_inv machine_okD)
  moreover have "dom (klive s) \<subseteq> dom (klive s')"
    using kzalloc_null [of s n s'] kzalloc_some [of s n p s'] a by (cases "p = 0") (auto simp: machine_ok_def)
  moreover have "dom (objs s) \<subseteq> dom (klive s)" using a(1) by (simp add: machine_ok_def)
  ultimately show ?thesis using kzalloc_frame [OF a(2)] by (simp add: machine_ok_def)
qed

lemma kzalloc_obj_machine_ok [inv_intros]: "machine_ok s \<Longrightarrow> kzalloc_obj s n x = (p, s') \<Longrightarrow> machine_ok s'"
proof -
  assume a: "machine_ok s" "kzalloc_obj s n x = (p, s')"
  obtain s1 where s1: "kzalloc s n = (p, s1)" "s' = (if p = 0 then s1 else put_obj p x s1)"
    using a(2) by (auto simp: kzalloc_obj_def split: prod.splits if_splits)
  have "machine_ok s1" using a(1) s1(1) by (rule kzalloc_machine_ok)
  moreover have "p \<noteq> 0 \<Longrightarrow> p \<in> dom (klive s1)"
    using kzalloc_some [OF machine_okD [OF a(1)] s1(1)] by auto
  ultimately show ?thesis by (auto simp: s1(2) machine_ok_def)
qed

lemma kfree_machine_ok [inv_intros]:
  "machine_ok s \<Longrightarrow> klive s p = Some k \<Longrightarrow> \<exists>s'. kfree s p = Some s' \<and> machine_ok s' \<and>
     klive s' = (klive s)(p := None) \<and> kroom s' = kroom s + k"
proof -
  assume a: "machine_ok s" "klive s p = Some k"
  obtain s' where s': "kfree s p = Some s'" "kheap_ok s'" "klive s' = (klive s)(p := None)" "kroom s' = kroom s + k"
    using kfree_live [OF machine_okD [OF a(1)] a(2)] by blast
  moreover have "dom (objs s') \<subseteq> dom (klive s')"
    using a(1) kfree_frame [OF s'(1)] s'(3) by (auto simp: machine_ok_def)
  ultimately show ?thesis by (auto simp: machine_ok_def)
qed

lemma kzalloc_objE:
  assumes "kzalloc_obj s n x = (p, s')" and "p \<noteq> 0"
  obtains s1 where "kzalloc s n = (p, s1)" "s' = put_obj p x s1"
  using assms by (auto simp: kzalloc_obj_def split: prod.splits if_splits)

section \<open>Growing\<close>

text \<open>
  The frame of code that only allocates: what was in use stays in use, and only vacant
  bytes change.
\<close>

definition grows :: "'a machine_scheme \<Rightarrow> 'a machine_scheme \<Rightarrow> bool" where
  "grows s s' \<longleftrightarrow> machine_ok s' \<and> (\<forall>p k. klive s p = Some k \<longrightarrow> klive s' p = Some k) \<and>
     kvacant s' \<subseteq> kvacant s \<and> (\<forall>a. a \<notin> kvacant s \<longrightarrow> mem s' a = mem s a)"

lemma grows_refl: "machine_ok s \<Longrightarrow> grows s s"
  by (simp add: grows_def)

lemma grows_trans: "grows s s1 \<Longrightarrow> grows s1 s2 \<Longrightarrow> grows s s2"
  by (auto simp: grows_def)

lemma growsD:
  assumes "grows s s'"
  shows "machine_ok s'" and "klive s p = Some k \<Longrightarrow> klive s' p = Some k"
    and "A \<inter> kvacant s = {} \<Longrightarrow> A \<inter> kvacant s' = {}"
    and "A \<inter> kvacant s = {} \<Longrightarrow> a \<in> A \<Longrightarrow> mem s' a = mem s a"
  using assms by (auto simp: grows_def)

lemma grows_mem: "grows s s' \<Longrightarrow> (\<And>a. a \<notin> kvacant s \<Longrightarrow> m a = mem s' a) \<Longrightarrow> grows s (s'\<lparr>mem := m\<rparr>)"
  by (simp add: grows_def machine_ok_def)

lemma grows_put_obj: "grows s s' \<Longrightarrow> klive s' p \<noteq> None \<Longrightarrow> grows s (put_obj p x s')"
  by (auto simp: grows_def machine_ok_def)

lemma kzalloc_grows:
  assumes ok: "machine_ok s" and a: "kzalloc s n = (p, s')"
  shows "grows s s'"
proof (cases "p = 0")
  case True
  then have "s' = s" using kz.alloc_null [OF machine_okD [OF ok]] a by blast
  then show ?thesis using ok by (simp add: grows_refl)
next
  case False
  note k = kz.alloc_some [OF machine_okD [OF ok] a False] kz.alloc_vacant [OF machine_okD [OF ok] a False]
    kz.alloc_zero [OF machine_okD [OF ok] a False]
  have "a \<notin> addrs p (unat n)" if "a \<notin> kvacant s" for a
    using that k(2) addrs_mono [OF blocks_for_enough, of p n] by blast
  then show ?thesis using kzalloc_machine_ok [OF ok a] k by (auto simp: grows_def)
qed

lemma kzalloc_obj_grows:
  assumes ok: "machine_ok s" and a: "kzalloc_obj s n x = (p, s')"
  shows "grows s s'"
proof -
  obtain s1 where s1: "kzalloc s n = (p, s1)" "s' = (if p = 0 then s1 else put_obj p x s1)"
    using a by (auto simp: kzalloc_obj_def split: prod.splits if_splits)
  note g = kzalloc_grows [OF ok s1(1)]
  have "p \<noteq> 0 \<Longrightarrow> klive s1 p \<noteq> None" using kz.alloc_some [OF machine_okD [OF ok] s1(1)] by auto
  then show ?thesis using g grows_put_obj [OF g] by (simp add: s1(2))
qed

text \<open>A small object, when there is room: a fresh block that holds it.\<close>

lemma kzalloc_obj_fits:
  assumes ok: "machine_ok s" and n: "0 < n" "n \<le> 4096" and room: "0 < kroom s"
  shows "\<exists>p s'. kzalloc_obj s n x = (p, s') \<and> p \<noteq> 0 \<and> grows s s' \<and> kroom s = kroom s' + 1 \<and>
    klive s p = None \<and> klive s' = (klive s)(p \<mapsto> 1) \<and> objs s p = None \<and> objs s' = (objs s)(p \<mapsto> x) \<and>
    con s' = con s \<and> machine.more s' = machine.more s"
proof -
  obtain p s1 where a: "kzalloc s n = (p, s1)" by fastforce
  have ok': "kheap_ok s" using ok by (rule machine_okD)
  have p: "p \<noteq> 0" using kz.alloc_one [OF ok' n room] a by simp
  have o: "kzalloc_obj s n x = (p, put_obj p x s1)" using a p by (simp add: kzalloc_obj_def)
  note k = kz.alloc_some [OF ok' a p] kz.alloc_room [OF ok' a p] kzalloc_frame [OF a] kzalloc_more [OF a]
  have "machine.more (put_obj p x s1) = machine.more s1" by (simp add: put_obj_def)
  then show ?thesis
    using o p k kzalloc_obj_grows [OF ok o] blocks_for_one [OF n] machine_ok_fresh [OF ok]
    by (intro exI [of _ p] exI [of _ "put_obj p x s1"]) simp
qed

lemma kzalloc_effect:
  assumes ok: "machine_ok s" and fits: "fst (kmalloc s n) \<noteq> 0"
  shows "\<exists>d s'. kzalloc s n = (d, s') \<and> d \<noteq> 0 \<and> grows s s' \<and> kroom s = kroom s' + blocks_for n \<and> klive s d = None \<and>
    klive s' = (klive s)(d \<mapsto> blocks_for n) \<and> objs s' = objs s \<and> machine.more s' = machine.more s \<and>
    addrs d (4096 * blocks_for n) \<subseteq> kvacant s"
proof -
  have k: "kheap_ok s" using ok by (rule machine_okD)
  obtain d s' where d: "kzalloc s n = (d, s')" by fastforce
  then have "d \<noteq> 0" using fits by (auto simp: kzalloc_def split: prod.splits if_splits)
  then show ?thesis
    using d kzalloc_some [OF k d] kzalloc_room [OF k d] kzalloc_vacant [OF k d] kzalloc_frame [OF d] kzalloc_more [OF d]
      kzalloc_grows [OF ok d] by simp
qed

lemma kzalloc_small:
  assumes ok: "machine_ok s" and n: "0 < n" "n \<le> 4096" and room: "0 < kroom s"
  shows "\<exists>d s'. kzalloc s (of_nat n) = (d, s') \<and> d \<noteq> 0 \<and> grows s s' \<and> kroom s = kroom s' + 1 \<and> klive s d = None \<and>
    klive s' = (klive s)(d \<mapsto> 1) \<and> objs s' = objs s \<and> machine.more s' = machine.more s \<and> addrs d 4096 \<subseteq> kvacant s"
proof -
  have un: "unat (of_nat n :: u32) = n" using n(2) by (intro unat_of_nat_u32) simp
  then have w: "0 < (of_nat n :: u32)" "(of_nat n :: u32) \<le> 4096" using n by (simp_all add: word_less_nat_alt word_le_nat_alt)
  have one: "blocks_for (of_nat n) = 1" using n un by (simp add: blocks_for_def)
  show ?thesis using kzalloc_effect [OF ok kmalloc_one [OF machine_okD [OF ok] w room]] by (simp add: one)
qed

section \<open>Initialisation\<close>

lemma table_ok_free: "(\<And>i. 0 \<le> i \<Longrightarrow> i < n \<Longrightarrow> e i = 0) \<Longrightarrow> table_ok e n"
  by (auto simp: table_ok_def)

lemma kheap_init_heap:
  "kheap_ok (kheap_init s)" "kroom (kheap_init s) = 25600" "klive (kheap_init s) = (\<lambda>p. None)"
proof -
  have hp: "start_address (g_kernel_heap (kheap_init s)) = 0x01000000"
    "table_total (table (g_kernel_heap (kheap_init s))) = 25600"
    "\<And>i. 0 \<le> i \<Longrightarrow> i < 25600 \<Longrightarrow> entries (table (g_kernel_heap (kheap_init s))) i = 0"
    by (simp_all add: kheap_init_def KERNEL_HEAP_SIZE_BYTES_def KERNEL_HEAP_START_ADDRESS_def heap_consts
      heap_create_def heap_validate_alignment_def heap_validate_table_def Let_def)
  show "kheap_ok (kheap_init s)"
    using hp table_ok_free [of 25600] by (simp add: kheap_ok_def heap_ok_def heap_blocks_def heap_consts)
  have "{i :: int. 0 \<le> i \<and> i < 25600 \<and> entries (table (g_kernel_heap (kheap_init s))) i = 0} = {0..<25600}"
    using hp(3) by auto
  then show "kroom (kheap_init s) = 25600"
    by (simp add: kroom_def free_room_def heap_blocks_def hp(2))
  show "klive (kheap_init s) = (\<lambda>p. None)"
  proof (rule ext)
    fix p
    have "allocation (g_kernel_heap (kheap_init s)) i = None" for i
      using hp(3) [of i] by (simp add: allocation_def heap_blocks_def hp(2))
    then show "klive (kheap_init s) p = None" by (simp add: klive_def live_def Let_def)
  qed
qed

end
