(* ===== verification/Paging.thy ===== *)
theory Paging
  imports KHeap
begin

text \<open>
  The page tables of \<open>memory/paging.c\<close>. A \<open>struct paging_4GB_chunk\<close> is the 32-bit word at
  its address, the page directory and the page tables are arrays of 1024 words in \<open>mem\<close>.
  \<open>make_new_4GB_virtual_memory_address_space\<close> does not test what \<open>kzalloc\<close> returns; on NULL
  its writes go to address 0, which is memory of this machine. The \<open>int\<close> \<open>offset\<close> is kept as
  a wrapping 32-bit word.
\<close>

section \<open>Data and constants\<close>

definition PAGING_ACCESS_FROM_ALL :: u8 where "PAGING_ACCESS_FROM_ALL = 0b00000100"
definition PAGING_IS_WRITEABLE :: u8 where "PAGING_IS_WRITEABLE = 0b00000010"
definition PAGING_IS_PRESENT :: u8 where "PAGING_IS_PRESENT = 0b00000001"
definition PAGING_TOTAL_ENTRIES_PER_TABLE :: u32 where "PAGING_TOTAL_ENTRIES_PER_TABLE = 1024"
definition PAGING_PAGE_SIZE :: u32 where "PAGING_PAGE_SIZE = 4096"

lemmas paging_consts = PAGING_ACCESS_FROM_ALL_def PAGING_IS_WRITEABLE_def PAGING_IS_PRESENT_def
  PAGING_TOTAL_ENTRIES_PER_TABLE_def PAGING_PAGE_SIZE_def

text \<open>The two static pointers of \<open>paging.c\<close> and the register that \<open>paging_load_directory\<close> sets.\<close>

record vm =
  kernel_directory :: u32
  current_directory :: u32
  cr3 :: u32

text \<open>Element \<open>i\<close> of an array of 32-bit words.\<close>

abbreviation cell :: "u32 \<Rightarrow> nat \<Rightarrow> u32" where
  "cell p i \<equiv> p + 4 * word_of_nat i"

section \<open>Operations\<close>

definition paging_check_address_is_aligned :: "u32 \<Rightarrow> bool" where
  "paging_check_address_is_aligned addr \<longleftrightarrow> addr mod PAGING_PAGE_SIZE = 0"

definition fill_page_table :: "u32 \<Rightarrow> u32 \<Rightarrow> u8 \<Rightarrow> memory \<Rightarrow> memory" where
  "fill_page_table entry offset flags m =
     fold (\<lambda>j m. store32 (cell entry j) ((offset + of_nat j * PAGING_PAGE_SIZE) OR ucast flags) m) [0..<1024] m"

definition make_page_table :: "u32 \<Rightarrow> u8 \<Rightarrow> nat \<Rightarrow> u32 \<times> 'a machine_scheme \<Rightarrow> u32 \<times> 'a machine_scheme" where
  "make_page_table directory flags i = (\<lambda>(offset, s).
     let (entry, s) = kzalloc s (4 * PAGING_TOTAL_ENTRIES_PER_TABLE);
         s = s\<lparr>mem := fill_page_table entry offset flags (mem s)\<rparr>;
         offset = offset + PAGING_TOTAL_ENTRIES_PER_TABLE * PAGING_PAGE_SIZE;
         s = s\<lparr>mem := store32 (cell directory i) (entry OR ucast flags OR ucast PAGING_IS_WRITEABLE) (mem s)\<rparr>
     in (offset, s))"

definition make_new_4GB_virtual_memory_address_space ::
    "'a machine_scheme \<Rightarrow> u8 \<Rightarrow> u32 \<times> 'a machine_scheme" where
  "make_new_4GB_virtual_memory_address_space s flags =
     (let (directory, s) = kzalloc s (4 * PAGING_TOTAL_ENTRIES_PER_TABLE);
          (offset, s) = fold (make_page_table directory flags) [0..<1024] (0, s);
          (chunk_4GB, s) = kzalloc s 4;
          s = s\<lparr>mem := store32 chunk_4GB directory (mem s)\<rparr>
      in (chunk_4GB, s))"

definition switch_to_page :: "memory \<Rightarrow> u32 \<Rightarrow> vm \<Rightarrow> vm" where
  "switch_to_page m directory v = v\<lparr>cr3 := load32 m directory, current_directory := load32 m directory\<rparr>"

definition switch_to_kernel_page :: "memory \<Rightarrow> vm \<Rightarrow> vm" where
  "switch_to_kernel_page m v = switch_to_page m (kernel_directory v) v"

definition paging_install_kernel_page :: "u32 \<Rightarrow> vm \<Rightarrow> vm" where
  "paging_install_kernel_page kernel_page v =
     (if kernel_directory v = 0 then v\<lparr>kernel_directory := kernel_page\<rparr> else v)"

text \<open>The result code, and the two indexes as they are after the call.\<close>

definition paging_get_indexes :: "u32 \<Rightarrow> u32 \<Rightarrow> u32 \<Rightarrow> int \<times> u32 \<times> u32" where
  "paging_get_indexes virtual_address directory_index table_index =
     (if \<not> paging_check_address_is_aligned virtual_address
      then (- EINVAL, directory_index, table_index)
      else (0, virtual_address div (PAGING_TOTAL_ENTRIES_PER_TABLE * PAGING_PAGE_SIZE),
        virtual_address mod (PAGING_TOTAL_ENTRIES_PER_TABLE * PAGING_PAGE_SIZE) div PAGING_PAGE_SIZE))"

definition paging_set_entry_for_virtual_address :: "memory \<Rightarrow> u32 \<Rightarrow> u32 \<Rightarrow> u32 \<Rightarrow> int \<times> memory" where
  "paging_set_entry_for_virtual_address m page virtual_address val =
     (if \<not> paging_check_address_is_aligned virtual_address then (- EINVAL, m)
      else
        let (res, directory_index, table_index) = paging_get_indexes virtual_address 0 0
        in if res < 0 then (res, m)
           else
             let entry = load32 m (load32 m page + 4 * directory_index);
                 table = entry AND 0xfffff000
             in (0, store32 (table + 4 * table_index) val m))"

definition release_4GB_virtual_memory_address_space :: "'a machine_scheme \<Rightarrow> u32 \<Rightarrow> 'a machine_scheme option" where
  "release_4GB_virtual_memory_address_space s page = do {
     s \<leftarrow> fold (\<lambda>i r. do {
         s \<leftarrow> r;
         let entry = load32 (mem s) (cell (load32 (mem s) page) i);
         let table = entry AND 0xFFFFF000;
         kfree s table }) [0..<1024] (Some s);
     s \<leftarrow> kfree s (load32 (mem s) page);
     kfree s page }"

definition paging_map_page :: "memory \<Rightarrow> u32 \<Rightarrow> u32 \<Rightarrow> u32 \<Rightarrow> u32 \<Rightarrow> int \<times> memory" where
  "paging_map_page m page virt phys flags =
     (if virt mod PAGING_PAGE_SIZE \<noteq> 0 \<or> phys mod PAGING_PAGE_SIZE \<noteq> 0 then (- EINVAL, m)
      else paging_set_entry_for_virtual_address m page virt (phys OR flags))"

text \<open>\<open>n\<close> iterations are left; \<open>res\<close> is the result so far. The loop stops at the first page that it mapped.\<close>

fun map_range_loop :: "nat \<Rightarrow> u32 \<Rightarrow> u32 \<Rightarrow> u32 \<Rightarrow> u32 \<Rightarrow> int \<Rightarrow> memory \<Rightarrow> int \<times> memory" where
  "map_range_loop 0 page virt phys flags res m = (res, m)"
| "map_range_loop (Suc n) page virt phys flags res m =
     (let (res, m) = paging_map_page m page virt phys flags
      in if res = 0 then (res, m)
         else map_range_loop n page (virt + PAGING_PAGE_SIZE) (phys + PAGING_PAGE_SIZE) flags res m)"

definition paging_map_memory_by_range :: "memory \<Rightarrow> u32 \<Rightarrow> u32 \<Rightarrow> u32 \<Rightarrow> u32 \<Rightarrow> u32 \<Rightarrow> int \<times> memory" where
  "paging_map_memory_by_range m page virt phys total_pages flags =
     map_range_loop (unat total_pages) page virt phys flags 0 m"

definition paging_map_virtual_memory :: "memory \<Rightarrow> u32 \<Rightarrow> u32 \<Rightarrow> u32 \<Rightarrow> u32 \<Rightarrow> u32 \<Rightarrow> int \<times> memory" where
  "paging_map_virtual_memory m page virt phys phys_end flags =
     (if virt mod PAGING_PAGE_SIZE \<noteq> 0 then (- EINVAL, m)
      else if phys mod PAGING_PAGE_SIZE \<noteq> 0 then (- EINVAL, m)
      else if phys_end mod PAGING_PAGE_SIZE \<noteq> 0 then (- EINVAL, m)
      else if phys_end < phys then (- EINVAL, m)
      else
        let total_bytes = phys_end - phys;
            total_pages = total_bytes div PAGING_PAGE_SIZE
        in paging_map_memory_by_range m page virt phys total_pages flags)"

definition paging_align_address :: "u32 \<Rightarrow> u32" where
  "paging_align_address ptr =
     (let unaligned_addresses_size = ptr mod PAGING_PAGE_SIZE
      in if unaligned_addresses_size > 0 then ptr + PAGING_PAGE_SIZE - unaligned_addresses_size else ptr)"

definition paging_get_entry_of_address :: "memory \<Rightarrow> u32 \<Rightarrow> u32 \<Rightarrow> u32" where
  "paging_get_entry_of_address m page virt =
     (let (_, dir_index, table_index) = paging_get_indexes virt 0 0;
          entry = load32 m (load32 m page + 4 * dir_index);
          table = entry AND 0xFFFFF000
      in load32 m (table + 4 * table_index))"

end
