(* ===== verification/Paging_Correct.thy ===== *)
theory Paging_Correct
  imports Paging
begin

text \<open>
  Correctness of the page tables: the invariant of an address space (its 1026 blocks are
  allocations of their own), the identity mapping of a new one, the effect of mapping one
  page on the translation of every page, and that releasing an address space gives back
  exactly its blocks.
\<close>

section \<open>Arrays of words\<close>

lemma unat_4_times: "i < 1024 \<Longrightarrow> unat (4 * word_of_nat i :: u32) = 4 * i"
proof -
  assume "i < 1024"
  then have "unat (of_nat (4 * i) :: u32) = 4 * i" by (intro unat_of_nat_u32) simp
  then show ?thesis by simp
qed

lemma cell_offset:
  assumes "i < 1024" and "a \<in> addrs (cell p i) 4"
  shows "4 * i \<le> unat (a - p) \<and> unat (a - p) < 4 * i + 4"
proof -
  let ?d = "a - cell p i"
  have d: "unat ?d < 4" using assms(2) by (simp add: addrs_def)
  have "a - p = ?d + 4 * word_of_nat i" by simp
  then have "unat (a - p) = (unat ?d + 4 * i) mod 2 ^ 32"
    using unat_4_times [OF assms(1)] by (simp only: unat_word_ariths(1)) simp
  also have "\<dots> = unat ?d + 4 * i" using d assms(1) by (intro mod_less) simp
  finally show ?thesis using d by simp
qed

lemma cell_addrs: "i < n \<Longrightarrow> n \<le> 1024 \<Longrightarrow> addrs (cell p i) 4 \<subseteq> addrs p (4 * n)"
proof
  fix a assume "i < n" "n \<le> 1024" "a \<in> addrs (cell p i) 4"
  then have "unat (a - p) < 4 * i + 4" "4 * i + 4 \<le> 4 * n" using cell_offset [of i a p] by auto
  then have "unat (a - p) < 4 * n" by linarith
  then show "a \<in> addrs p (4 * n)" by (simp add: addrs_def)
qed

lemma cells_apart:
  assumes "i < 1024" and "j < 1024" and "i \<noteq> j"
  shows "addrs (cell p i) 4 \<inter> addrs (cell p j) 4 = {}"
proof -
  have False if "a \<in> addrs (cell p i) 4" "a \<in> addrs (cell p j) 4" for a
  proof -
    let ?u = "unat (a - p)"
    have "4 * i \<le> ?u" "?u < 4 * i + 4" "4 * j \<le> ?u" "?u < 4 * j + 4"
      using cell_offset [OF assms(1) that(1)] cell_offset [OF assms(2) that(2)] by blast+
    then show False using assms(3) by presburger
  qed
  then show ?thesis by blast
qed

lemma load_cell_store_cell:
  assumes "i < 1024" and "j < 1024"
  shows "load32 (store32 (cell p i) v m) (cell p j) = (if i = j then v else load32 m (cell p j))"
  using load32_store32_disjoint [OF cells_apart [OF assms]] by (cases "i = j") simp_all

lemma load_cell_cong: "i < 1024 \<Longrightarrow> (\<And>a. a \<in> addrs p 4096 \<Longrightarrow> m a = m' a) \<Longrightarrow> load32 m (cell p i) = load32 m' (cell p i)"
  using cell_addrs [of i 1024 p] by (intro load32_cong) auto

lemma store_cell_outside: "i < 1024 \<Longrightarrow> a \<notin> addrs p 4096 \<Longrightarrow> store32 (cell p i) v m a = m a"
  using cell_addrs [of i 1024 p] by (intro store32_apply_other) auto

text \<open>A loop that stores \<open>f j\<close> in element \<open>j\<close>, for the first \<open>n\<close> elements.\<close>

lemma fold_store_cells:
  assumes "n \<le> 1024"
  shows "j < n \<Longrightarrow> load32 (fold (\<lambda>j m. store32 (cell p j) (f j) m) [0..<n] m) (cell p j) = f j"
    and "a \<notin> addrs p 4096 \<Longrightarrow> fold (\<lambda>j m. store32 (cell p j) (f j) m) [0..<n] m a = m a"
  using assms
proof (induction n)
  case (Suc n)
  { case 1 then show ?case using Suc.IH(1) by (cases "j = n") (auto simp: load_cell_store_cell) }
  { case 2 then show ?case using Suc.IH(2) by (simp add: store_cell_outside) }
qed simp_all

lemma load_fill_page_table: "j < 1024 \<Longrightarrow>
    load32 (fill_page_table t offset flags m) (cell t j) = (offset + of_nat j * 4096) OR ucast flags"
  unfolding fill_page_table_def
  using fold_store_cells(1) [of 1024 j t "\<lambda>j. (offset + of_nat j * PAGING_PAGE_SIZE) OR ucast flags" m]
  by (simp add: PAGING_PAGE_SIZE_def)

lemma fill_page_table_outside: "a \<notin> addrs t 4096 \<Longrightarrow> fill_page_table t offset flags m a = m a"
  unfolding fill_page_table_def by (rule fold_store_cells(2)) simp_all

lemma page_bit: "t mod 4096 = 0 \<Longrightarrow> n < 12 \<Longrightarrow> \<not> bit t n" for t :: u32
proof
  assume "t mod 4096 = 0" "n < 12" "bit t n"
  then have "take_bit 12 t = 0" by (simp add: take_bit_eq_mod)
  then have "\<not> bit (take_bit 12 t) n" by simp
  then show False using \<open>n < 12\<close> \<open>bit t n\<close> by (simp add: bit_take_bit_iff)
qed

lemma page_mask: "(0xFFFFF000 :: u32) = NOT (mask 12)"
  by (simp add: mask_eq_exp_minus_1)

text \<open>The address of a table comes back out of its directory entry.\<close>

lemma table_of_entry:
  assumes "t mod 4096 = 0"
  shows "(t OR ucast (f :: u8) OR ucast (w :: u8)) AND 0xFFFFF000 = (t :: u32)"
proof (rule bit_word_eqI)
  fix n assume "n < LENGTH(32)"
  then show "bit ((t OR ucast f OR ucast w) AND 0xFFFFF000) n = bit t n"
    using page_bit [OF assms, of n] unfolding page_mask
    by (cases "n < 12") (auto simp: bit_simps dest: bit_imp_le_length)
qed

lemma of_nat_unat_id: "word_of_nat (unat w) = w" for w :: u32
  by simp

lemma of_nat_1024_inj:
  assumes ij: "i < 1024" "j < 1024"
  shows "word_of_nat i = (word_of_nat j :: u32) \<longleftrightarrow> i = j"
proof
  assume "word_of_nat i = (word_of_nat j :: u32)"
  then have "unat (word_of_nat i :: u32) = unat (word_of_nat j :: u32)" by (simp only:)
  moreover have "unat (word_of_nat i :: u32) = i" "unat (word_of_nat j :: u32) = j"
    using ij by (intro unat_of_nat_u32; simp)+
  ultimately show "i = j" by (simp only:)
qed simp

lemma page_decompose:
  fixes va :: u32
  assumes "va mod 4096 = 0"
  obtains i j where "i < 1024" "j < 1024" "va = word_of_nat i * 0x400000 + word_of_nat j * 4096"
    "va div 0x400000 = word_of_nat i" "va mod 0x400000 div 4096 = word_of_nat j"
proof -
  let ?v = "unat va"
  have "unat (va mod 4096) = unat (0 :: u32)" using assms by (simp only:)
  then have m: "?v mod 4096 = 0" by (simp only: unat_mod) simp
  define q where "q = ?v div 4096"
  have v: "?v = 4096 * q" using m mult_div_mod_eq [of 4096 ?v] by (simp only: q_def)
  have "?v < 4096 * 1048576" using unat_u32_less [of va] by simp
  then have q: "q < 1048576" using v by linarith
  define i j where "i = q div 1024" and "j = q mod 1024"
  have ij: "i < 1024" "j < 1024" "q = 1024 * i + j" using q by (simp_all add: i_def j_def)
  have "unat (va div 0x400000) = i"
    by (simp add: unat_div v div_mult2_eq [of _ 4096 1024, simplified] i_def)
  then have 1: "va div 0x400000 = word_of_nat i" by (metis of_nat_unat_id)
  have "unat (va mod 0x400000 div 4096) = j"
    by (simp add: unat_div unat_mod v mult_mod_right [of 4096 q 1024, simplified, symmetric] j_def)
  then have 2: "va mod 0x400000 div 4096 = word_of_nat j" by (metis of_nat_unat_id)
  have "va = word_of_nat (4096 * (1024 * i + j))"
    using v ij(3) by (metis of_nat_unat_id)
  also have "\<dots> = word_of_nat i * 0x400000 + word_of_nat j * 4096"
    by simp
  finally show thesis using that [OF ij(1,2) _ 1 2] by blast
qed

section \<open>Address spaces\<close>

definition space_dir :: "memory \<Rightarrow> u32 \<Rightarrow> u32" where
  "space_dir m page = load32 m page"

definition space_table :: "memory \<Rightarrow> u32 \<Rightarrow> nat \<Rightarrow> u32" where
  "space_table m page i = load32 m (cell (space_dir m page) i) AND 0xFFFFF000"

text \<open>The blocks of an address space: its chunk, its directory and its 1024 tables.\<close>

definition space_blocks :: "memory \<Rightarrow> u32 \<Rightarrow> u32 list" where
  "space_blocks m page = page # space_dir m page # map (space_table m page) [0..<1024]"

definition space_ok :: "'a machine_scheme \<Rightarrow> u32 \<Rightarrow> bool" where
  "space_ok s page \<longleftrightarrow> distinct (space_blocks (mem s) page) \<and>
     (\<forall>p \<in> set (space_blocks (mem s) page). klive s p = Some 1)"

lemma chunk_addrs: "addrs page 4 \<subseteq> addrs page 4096"
  by (rule addrs_mono) simp

text \<open>An address space depends on its blocks only.\<close>

lemma space_blocks_cong:
  assumes "\<And>a. a \<in> addrs page 4096 \<union> addrs (space_dir m page) 4096 \<Longrightarrow> m' a = m a"
  shows "space_dir m' page = space_dir m page" and "i < 1024 \<Longrightarrow> space_table m' page i = space_table m page i"
    and "space_blocks m' page = space_blocks m page"
proof -
  show dir: "space_dir m' page = space_dir m page"
    using assms chunk_addrs [of page] by (auto simp: space_dir_def intro!: load32_cong)
  have tab: "i < 1024 \<Longrightarrow> space_table m' page i = space_table m page i" for i
    unfolding space_table_def dir using assms by (auto intro!: arg_cong2 [where f = "(AND)"] load_cell_cong)
  then show "i < 1024 \<Longrightarrow> space_table m' page i = space_table m page i" .
  show "space_blocks m' page = space_blocks m page" by (simp add: space_blocks_def dir tab)
qed

section \<open>Translation\<close>

lemma get_entry_cell:
  assumes "va mod 4096 = 0" and "i < 1024" and "j < 1024"
    and "va div 0x400000 = word_of_nat i" and "va mod 0x400000 div 4096 = word_of_nat j"
  shows "paging_get_entry_of_address m page va = load32 m (cell (space_table m page i) j)"
  using assms by (simp add: paging_get_entry_of_address_def paging_get_indexes_def
    paging_check_address_is_aligned_def paging_consts space_table_def space_dir_def Let_def)

lemma set_entry_cell:
  assumes "va mod 4096 = 0" and "i < 1024" and "j < 1024"
    and "va div 0x400000 = word_of_nat i" and "va mod 0x400000 div 4096 = word_of_nat j"
  shows "paging_set_entry_for_virtual_address m page va v = (0, store32 (cell (space_table m page i) j) v m)"
  using assms by (simp add: paging_set_entry_for_virtual_address_def paging_get_indexes_def
    paging_check_address_is_aligned_def paging_consts space_table_def space_dir_def Let_def)

lemma space_blocks_apart:
  assumes "kheap_ok s" and "space_ok s page" and "i < 1024"
  shows "addrs (space_table (mem s) page i) 4096 \<inter> (addrs page 4096 \<union> addrs (space_dir (mem s) page) 4096) = {}"
    and "k < 1024 \<Longrightarrow> k \<noteq> i \<Longrightarrow>
      addrs (space_table (mem s) page i) 4096 \<inter> addrs (space_table (mem s) page k) 4096 = {}"
proof -
  let ?m = "mem s"
  have live: "klive s p = Some 1" if "p \<in> set (space_blocks ?m page)" for p
    using assms(2) that by (simp add: space_ok_def)
  have dist: "distinct (space_blocks ?m page)" using assms(2) by (simp add: space_ok_def)
  have apart: "addrs p 4096 \<inter> addrs q 4096 = {}" if "p \<in> set (space_blocks ?m page)" "q \<in> set (space_blocks ?m page)" "p \<noteq> q" for p q
    using klive_apart [OF assms(1) live [OF that(1)] live [OF that(2)] that(3)] by simp
  have mem: "page \<in> set (space_blocks ?m page)" "space_dir ?m page \<in> set (space_blocks ?m page)"
    "i < 1024 \<Longrightarrow> space_table ?m page i \<in> set (space_blocks ?m page)" for i
    by (simp_all add: space_blocks_def)
  have "space_table ?m page i \<in> set (map (space_table ?m page) [0..<1024])" using assms(3) by simp
  then have ne: "space_table ?m page i \<noteq> page" "space_table ?m page i \<noteq> space_dir ?m page"
    using dist unfolding space_blocks_def by (metis distinct.simps(2) list.set_intros(2))+
  show "addrs (space_table ?m page i) 4096 \<inter> (addrs page 4096 \<union> addrs (space_dir ?m page) 4096) = {}"
    using apart [OF mem(3) [OF assms(3)] mem(1) ne(1)] apart [OF mem(3) [OF assms(3)] mem(2) ne(2)] by blast
  show "addrs (space_table ?m page i) 4096 \<inter> addrs (space_table ?m page k) 4096 = {}" if "k < 1024" "k \<noteq> i"
    using dist that assms(3)
    by (intro apart mem) (auto simp: space_blocks_def distinct_map inj_on_def)
qed

text \<open>Setting one entry changes the translation of that page and of no other.\<close>

lemma set_entry_translation:
  assumes ok: "kheap_ok s" and sp: "space_ok s page" and va: "va mod 4096 = 0"
    and set: "paging_set_entry_for_virtual_address (mem s) page va v = (r, m')"
  shows "r = 0" and "space_blocks m' page = space_blocks (mem s) page"
    and "vb mod 4096 = 0 \<Longrightarrow> paging_get_entry_of_address m' page vb =
      (if vb = va then v else paging_get_entry_of_address (mem s) page vb)"
    and "(\<And>i. i < 1024 \<Longrightarrow> a \<notin> addrs (space_table (mem s) page i) 4096) \<Longrightarrow> m' a = mem s a"
proof -
  obtain i j where a: "i < 1024" "j < 1024" "va = word_of_nat i * 0x400000 + word_of_nat j * 4096"
    "va div 0x400000 = word_of_nat i" "va mod 0x400000 div 4096 = word_of_nat j"
    using va by (rule page_decompose)
  let ?t = "space_table (mem s) page"
  have r: "r = 0" "m' = store32 (cell (?t i) j) v (mem s)"
    using set set_entry_cell [OF va a(1,2,4,5), of "mem s" page v] by auto
  show "r = 0" by (rule r(1))
  show "(\<And>i. i < 1024 \<Longrightarrow> a \<notin> addrs (?t i) 4096) \<Longrightarrow> m' a = mem s a"
    using a(1,2) by (simp add: r(2) store_cell_outside)
  have outside: "b \<notin> addrs (?t i) 4096 \<Longrightarrow> m' b = mem s b" for b
    using a(2) by (simp add: r(2) store_cell_outside)
  have keep: "\<And>b. b \<in> addrs page 4096 \<union> addrs (space_dir (mem s) page) 4096 \<Longrightarrow> m' b = mem s b"
    using space_blocks_apart(1) [OF ok sp a(1)] outside by blast
  have same: "space_table m' page k = ?t k" if "k < 1024" for k
    using that keep by (intro space_blocks_cong(2)) auto
  have "space_blocks m' page = space_blocks (mem s) page"
    using keep by (intro space_blocks_cong(3)) auto
  then show "space_blocks m' page = space_blocks (mem s) page" .
  show "paging_get_entry_of_address m' page vb =
      (if vb = va then v else paging_get_entry_of_address (mem s) page vb)" if vb: "vb mod 4096 = 0"
  proof -
    obtain k l where b: "k < 1024" "l < 1024" "vb = word_of_nat k * 0x400000 + word_of_nat l * 4096"
      "vb div 0x400000 = word_of_nat k" "vb mod 0x400000 div 4096 = word_of_nat l"
      using vb by (rule page_decompose)
    have get: "paging_get_entry_of_address m page vb = load32 m (cell (space_table m page k) l)" for m
      by (rule get_entry_cell [OF vb b(1,2,4,5)])
    have eq: "vb = va \<longleftrightarrow> k = i \<and> l = j"
    proof
      assume "vb = va"
      then have "word_of_nat k = (word_of_nat i :: u32)" "word_of_nat l = (word_of_nat j :: u32)"
        using a(4,5) b(4,5) by metis+
      then show "k = i \<and> l = j" using a(1,2) b(1,2) by (simp add: of_nat_1024_inj)
    qed (simp add: a(3) b(3))
    show ?thesis
    proof (cases "k = i")
      case True
      then show ?thesis
        using load_cell_store_cell [OF a(2) b(2), of "?t i" v "mem s"]
        by (simp add: get same [OF a(1)] eq) (auto simp: r(2))
    next
      case False
      have "load32 m' (cell (?t k) l) = load32 (mem s) (cell (?t k) l)"
        using space_blocks_apart(2) [OF ok sp a(1) b(1) False] outside
        by (intro load_cell_cong [OF b(2)]) blast
      then show ?thesis using False by (simp add: get same [OF b(1)] eq)
    qed
  qed
qed

section \<open>Building an address space\<close>

lemma blocks_for_consts [simp]: "blocks_for 4096 = 1" "blocks_for 4 = 1"
  by (simp_all add: blocks_for_one)

text \<open>
  After \<open>k\<close> tables: \<open>ts\<close> are their addresses, fresh blocks of the heap of \<open>s0\<close>, linked from
  the directory \<open>dir\<close> and filled with the identity mapping of their 4 MB.
\<close>

definition tables_built :: "'a machine_scheme \<Rightarrow> u32 \<Rightarrow> u8 \<Rightarrow> u32 \<Rightarrow> 'a machine_scheme \<Rightarrow> u32 list \<Rightarrow> bool" where
  "tables_built s0 dir flags offset s ts \<longleftrightarrow>
     offset = word_of_nat (length ts) * 0x400000 \<and> kheap_ok s \<and> kroom s + length ts = kroom s0 \<and>
     distinct ts \<and> (\<forall>t \<in> set ts. klive s0 t = None \<and> addrs t 4096 \<subseteq> kvacant s0) \<and> kvacant s \<subseteq> kvacant s0 \<and>
     klive s = (\<lambda>p. if p \<in> set ts then Some 1 else klive s0 p) \<and>
     (\<forall>i < length ts. load32 (mem s) (cell dir i) = ts ! i OR ucast flags OR ucast PAGING_IS_WRITEABLE) \<and>
     (\<forall>i < length ts. \<forall>j < 1024. load32 (mem s) (cell (ts ! i) j) =
        (word_of_nat i * 0x400000 + word_of_nat j * 4096) OR ucast flags) \<and>
     (\<forall>a. a \<notin> addrs dir 4096 \<longrightarrow> (\<forall>t \<in> set ts. a \<notin> addrs t 4096) \<longrightarrow> mem s a = mem s0 a) \<and>
     con s = con s0 \<and> objs s = objs s0 \<and> machine.more s = machine.more s0"

lemma tables_built_step:
  assumes b: "tables_built s0 dir flags offset s ts" and dir: "klive s0 dir = Some 1"
    and k: "length ts < 1024" and room: "length ts < kroom s0"
    and step: "make_page_table dir flags (length ts) (offset, s) = (offset', s')"
  shows "\<exists>t. tables_built s0 dir flags offset' s' (ts @ [t])"
proof -
  let ?k = "length ts"
  have ok: "kheap_ok s" and room': "0 < kroom s" and off: "offset = word_of_nat ?k * 0x400000"
    and live: "klive s = (\<lambda>p. if p \<in> set ts then Some 1 else klive s0 p)"
    and fresh: "\<forall>t \<in> set ts. klive s0 t = None" and below: "\<forall>t \<in> set ts. addrs t 4096 \<subseteq> kvacant s0" "kvacant s \<subseteq> kvacant s0"
    using b room by (auto simp: tables_built_def simp del: of_nat_mult)
  obtain t s1 where a: "kzalloc s 4096 = (t, s1)" by fastforce
  have t: "t \<noteq> 0" using kzalloc_one [OF ok _ _ room', of 4096] a by simp
  note some = kzalloc_some [OF ok a t] and frame = kzalloc_frame [OF a] and more = kzalloc_more [OF a]
    and rm = kzalloc_room [OF ok a t] and zero = kzalloc_zero [OF ok a t]
  have vac: "addrs t 4096 \<subseteq> kvacant s" "kvacant s1 \<subseteq> kvacant s" using kzalloc_vacant [OF ok a t] by auto
  define m2 where "m2 = fill_page_table t offset flags (mem s1)"
  define m3 where "m3 = store32 (cell dir ?k) (t OR ucast flags OR ucast PAGING_IS_WRITEABLE) m2"
  have s': "offset' = offset + 0x400000" "s' = s1\<lparr>mem := m3\<rparr>"
    using step a by (simp_all add: make_page_table_def m2_def m3_def paging_consts)
  have live_t: "klive s t = None" and live1: "klive s1 = (klive s)(t \<mapsto> 1)" and ok1: "kheap_ok s1"
    using some by simp_all
  have new: "t \<noteq> dir" "t \<notin> set ts" "klive s0 t = None" "dir \<notin> set ts"
    using live_t dir fresh unfolding live by (auto split: if_splits)
  have apart_t: "addrs t 4096 \<inter> addrs q 4096 = {}" if "q = dir \<or> q \<in> set ts" for q
  proof -
    have "t \<noteq> q" using that new by auto
    moreover have "klive s q = Some 1" using that new dir by (auto simp: live)
    ultimately show ?thesis using klive_apart [OF ok1, of t 1 q 1] by (simp add: live1)
  qed
  have apart_d: "addrs q 4096 \<inter> addrs dir 4096 = {}" if "q \<in> set ts" for q
  proof -
    have "q \<noteq> dir" using that new by auto
    then show ?thesis using klive_apart [OF ok, of q 1 dir 1] that dir by (simp add: live)
  qed
  have outside: "m3 a = mem s a" if "a \<notin> addrs t 4096" "a \<notin> addrs dir 4096" for a
    using that k by (simp add: m3_def m2_def store_cell_outside fill_page_table_outside zero)
  have dir2: "m2 a = mem s a" if "a \<in> addrs dir 4096" for a
  proof -
    have "a \<notin> addrs t 4096" using that apart_t [of dir] by blast
    then show ?thesis by (simp add: m2_def fill_page_table_outside zero)
  qed
  have page: "t mod 4096 = 0" using klive_block [OF ok1, of t 1] by (simp add: live1)
  have dirs: "load32 m3 (cell dir i) = (ts @ [t]) ! i OR ucast flags OR ucast PAGING_IS_WRITEABLE"
    if "i < Suc ?k" for i
  proof (cases "i = ?k")
    case False
    then have "load32 m3 (cell dir i) = load32 m2 (cell dir i)"
      using that k by (simp add: m3_def load_cell_store_cell)
    also have "\<dots> = load32 (mem s) (cell dir i)"
      using that k dir2 by (intro load_cell_cong) auto
    finally show ?thesis using b that False by (simp add: tables_built_def nth_append)
  qed (simp add: m3_def)
  have tabs: "load32 m3 (cell ((ts @ [t]) ! i) j) = (word_of_nat i * 0x400000 + word_of_nat j * 4096) OR ucast flags"
    if "i < Suc ?k" "j < 1024" for i j
  proof (cases "i = ?k")
    case True
    have "load32 m3 (cell t j) = load32 m2 (cell t j)"
      using apart_t [of dir] k that(2) unfolding m3_def
      by (intro load_cell_cong store_cell_outside) auto
    then show ?thesis using True that(2) by (simp add: m2_def load_fill_page_table off)
  next
    case False
    then have i: "i < ?k" "ts ! i \<in> set ts" using that(1) by auto
    have "load32 m3 (cell (ts ! i) j) = load32 (mem s) (cell (ts ! i) j)"
      using apart_t [of "ts ! i"] apart_d [OF i(2)] i(2) that(2)
      by (intro load_cell_cong outside) auto
    then show ?thesis using b i that(2) by (simp add: tables_built_def nth_append)
  qed
  have "tables_built s0 dir flags offset' s' (ts @ [t])"
    unfolding tables_built_def
  proof (intro conjI allI impI ballI)
    show "offset' = word_of_nat (length (ts @ [t])) * 0x400000" by (simp add: s' off algebra_simps)
    show "kroom s' + length (ts @ [t]) = kroom s0" using b rm by (simp add: s' tables_built_def)
    show "distinct (ts @ [t])" using b new by (simp add: tables_built_def)
    show "klive s' = (\<lambda>p. if p \<in> set (ts @ [t]) then Some 1 else klive s0 p)"
      by (auto simp: s' live1 live)
    show "klive s0 p = None" if "p \<in> set (ts @ [t])" for p using that fresh new by auto
    show "addrs p 4096 \<subseteq> kvacant s0" if "p \<in> set (ts @ [t])" for p using that below vac(1) by auto
    show "kvacant s' \<subseteq> kvacant s0" using below(2) vac(2) by (simp add: s')
    fix a assume "a \<notin> addrs dir 4096" "\<forall>q \<in> set (ts @ [t]). a \<notin> addrs q 4096"
    then show "mem s' a = mem s0 a" using b outside [of a] by (simp add: s' tables_built_def)
  qed (use ok1 dirs tabs frame more b in \<open>simp_all add: s' tables_built_def\<close>)
  then show ?thesis ..
qed


lemma tables_built_fold:
  assumes dir: "klive s0 dir = Some 1" and ok: "kheap_ok s0" and "n \<le> 1024" and "n \<le> kroom s0"
  shows "\<exists>offset s ts. fold (make_page_table dir flags) [0..<n] (0, s0) = (offset, s) \<and>
    tables_built s0 dir flags offset s ts \<and> length ts = n"
  using assms(3,4)
proof (induction n)
  case 0
  show ?case using ok by (auto simp: tables_built_def intro!: exI [of _ "[]"])
next
  case (Suc n)
  then obtain offset s ts where 1: "fold (make_page_table dir flags) [0..<n] (0, s0) = (offset, s)"
    "tables_built s0 dir flags offset s ts" "length ts = n" by auto
  obtain offset' s' where 2: "make_page_table dir flags n (offset, s) = (offset', s')" by fastforce
  then obtain t where "tables_built s0 dir flags offset' s' (ts @ [t])"
    using tables_built_step [OF 1(2) dir] 1(3) Suc.prems by auto
  then show ?case using 1 2 by (auto intro!: exI [of _ "ts @ [t]"])
qed

text \<open>What a new address space is: its blocks are fresh and every page is mapped to itself.\<close>

definition new_space :: "'a machine_scheme \<Rightarrow> u8 \<Rightarrow> u32 \<Rightarrow> 'a machine_scheme \<Rightarrow> bool" where
  "new_space s flags page s' \<longleftrightarrow> page \<noteq> 0 \<and> kheap_ok s' \<and> space_ok s' page \<and>
     (\<forall>p \<in> set (space_blocks (mem s') page). klive s p = None \<and> addrs p 4096 \<subseteq> kvacant s) \<and> kvacant s' \<subseteq> kvacant s \<and>
     klive s' = (\<lambda>p. if p \<in> set (space_blocks (mem s') page) then Some 1 else klive s p) \<and>
     kroom s = kroom s' + 1026 \<and>
     (\<forall>va. va mod 4096 = 0 \<longrightarrow> paging_get_entry_of_address (mem s') page va = va OR ucast flags) \<and>
     (\<forall>i < 1024. load32 (mem s') (cell (space_dir (mem s') page) i) =
        space_table (mem s') page i OR ucast flags OR ucast PAGING_IS_WRITEABLE) \<and>
     (\<forall>a. (\<forall>p \<in> set (space_blocks (mem s') page). a \<notin> addrs p 4096) \<longrightarrow> mem s' a = mem s a) \<and>
     con s' = con s \<and> objs s' = objs s \<and> machine.more s' = machine.more s"

lemma map_nth_cong: "length ts = n \<Longrightarrow> (\<And>i. i < n \<Longrightarrow> f i = ts ! i) \<Longrightarrow> map f [0..<n] = ts"
  by (rule nth_equalityI) simp_all

lemma make_new_space:
  assumes ok: "kheap_ok s" and room: "1026 \<le> kroom s"
    and make: "make_new_4GB_virtual_memory_address_space s flags = (page, s')"
  shows "new_space s flags page s'"
proof -
  obtain dir s1 where a1: "kzalloc s 4096 = (dir, s1)" by fastforce
  have dir: "dir \<noteq> 0" using kzalloc_one [OF ok, of 4096] a1 room by simp
  note some1 = kzalloc_some [OF ok a1 dir] and rm1 = kzalloc_room [OF ok a1 dir] and zero1 = kzalloc_zero [OF ok a1 dir]
  have ok1: "kheap_ok s1" and live_dir: "klive s1 dir = Some 1" and fresh_dir: "klive s dir = None"
    using some1 by simp_all
  obtain offset s2 ts where f: "fold (make_page_table dir flags) [0..<1024] (0, s1) = (offset, s2)"
    and built: "tables_built s1 dir flags offset s2 ts" and len: "length ts = 1024"
    using tables_built_fold [OF live_dir ok1, of 1024 flags] rm1 room by auto
  have ok2: "kheap_ok s2" and rm2: "kroom s2 + 1024 = kroom s1"
    and live2: "klive s2 = (\<lambda>p. if p \<in> set ts then Some 1 else klive s1 p)"
    and dist: "distinct ts" and fresh_ts: "\<forall>t \<in> set ts. klive s1 t = None"
    and vac2: "\<forall>t \<in> set ts. addrs t 4096 \<subseteq> kvacant s1" "kvacant s2 \<subseteq> kvacant s1"
    using built len by (auto simp: tables_built_def)
  have vac1: "addrs dir 4096 \<subseteq> kvacant s" "kvacant s1 \<subseteq> kvacant s" using kzalloc_vacant [OF ok a1 dir] by auto
  obtain s3 where a3: "kzalloc s2 4 = (page, s3)"
    and s': "s' = s3\<lparr>mem := store32 page dir (mem s3)\<rparr>"
    using make a1 f by (auto simp: make_new_4GB_virtual_memory_address_space_def paging_consts split: prod.splits)
  have page: "page \<noteq> 0" using kzalloc_one [OF ok2, of 4] a3 rm1 rm2 room by auto
  note some3 = kzalloc_some [OF ok2 a3 page] and rm3 = kzalloc_room [OF ok2 a3 page] and zero3 = kzalloc_zero [OF ok2 a3 page]
  have ok3: "kheap_ok s3" and live3: "klive s3 = (klive s2)(page \<mapsto> 1)" and fresh_page: "klive s2 page = None"
    using some3 by simp_all
  have vac3: "addrs page 4096 \<subseteq> kvacant s2" "kvacant s3 \<subseteq> kvacant s2" using kzalloc_vacant [OF ok2 a3 page] by auto
  have new: "page \<noteq> dir" "page \<notin> set ts" "dir \<notin> set ts"
    using fresh_page live_dir fresh_ts by (auto simp: live2 split: if_splits)
  have apart: "addrs page 4096 \<inter> addrs q 4096 = {}" if "q = dir \<or> q \<in> set ts" for q
  proof -
    have "page \<noteq> q" using that new by auto
    moreover have "klive s2 q = Some 1" using that new live_dir by (auto simp: live2)
    ultimately show ?thesis using klive_apart [OF ok3, of page 1 q 1] by (simp add: live3)
  qed
  have keep: "mem s' a = mem s2 a" if "a \<notin> addrs page 4096" for a
  proof -
    have "a \<notin> addrs page 4" using that chunk_addrs [of page] by blast
    then show ?thesis by (simp add: s' store32_apply_other zero3)
  qed
  have sdir: "space_dir (mem s') page = dir" by (simp add: space_dir_def s')
  have dent: "load32 (mem s') (cell dir i) = ts ! i OR ucast flags OR ucast PAGING_IS_WRITEABLE" if "i < 1024" for i
  proof -
    have "load32 (mem s') (cell dir i) = load32 (mem s2) (cell dir i)"
      using apart [of dir] keep by (intro load_cell_cong [OF that]) auto
    also have "\<dots> = ts ! i OR ucast flags OR ucast PAGING_IS_WRITEABLE"
      using built that len by (simp add: tables_built_def)
    finally show ?thesis .
  qed
  have stab: "space_table (mem s') page i = ts ! i" if "i < 1024" for i
    using dent [OF that] klive_block [OF ok2, of "ts ! i" 1] that len
    by (simp add: space_table_def sdir live2 table_of_entry)
  have blocks: "space_blocks (mem s') page = page # dir # ts"
    using map_nth_cong [OF len stab] by (simp add: space_blocks_def sdir)
  have id: "paging_get_entry_of_address (mem s') page va = va OR ucast flags" if va: "va mod 4096 = 0" for va
  proof -
    obtain i j where ij: "i < 1024" "j < 1024" "va = word_of_nat i * 0x400000 + word_of_nat j * 4096"
      "va div 0x400000 = word_of_nat i" "va mod 0x400000 div 4096 = word_of_nat j"
      using va by (rule page_decompose)
    have "ts ! i \<in> set ts" using ij(1) len by simp
    then have "load32 (mem s') (cell (ts ! i) j) = load32 (mem s2) (cell (ts ! i) j)"
      using apart [of "ts ! i"] keep by (intro load_cell_cong [OF ij(2)]) auto
    also have "\<dots> = va OR ucast flags"
      using built ij(1,2) len by (simp add: tables_built_def ij(3))
    finally show ?thesis by (simp add: get_entry_cell [OF va ij(1,2,4,5)] stab [OF ij(1)])
  qed
  show ?thesis
    unfolding new_space_def blocks
  proof (intro conjI allI impI)
    show "space_ok s' page"
      using new dist live_dir unfolding space_ok_def blocks by (auto simp: s' live3 live2)
    have "klive s p = None" if "p \<in> set (page # dir # ts)" for p
      using that fresh_page fresh_dir fresh_ts some1 by (auto simp: live2 split: if_splits)
    moreover have "addrs p 4096 \<subseteq> kvacant s" if p: "p \<in> set (page # dir # ts)" for p
    proof -
      consider "p = page" | "p = dir" | "p \<in> set ts" using p by auto
      then show ?thesis
      proof cases
        case 3
        then have "addrs p 4096 \<subseteq> kvacant s1" using vac2(1) by blast
        then show ?thesis using vac1(2) by blast
      qed (use vac1 vac2(2) vac3 in blast)+
    qed
    ultimately show "\<forall>p \<in> set (page # dir # ts). klive s p = None \<and> addrs p 4096 \<subseteq> kvacant s" by blast
    show "kvacant s' \<subseteq> kvacant s" using vac1 vac2 vac3 by (simp add: s')
    show "klive s' = (\<lambda>p. if p \<in> set (page # dir # ts) then Some 1 else klive s p)"
      using some1 by (auto simp: s' live3 live2)
    show "kroom s = kroom s' + 1026" using rm1 rm2 rm3 by (simp add: s')
    show "load32 (mem s') (cell (space_dir (mem s') page) i) =
        space_table (mem s') page i OR ucast flags OR ucast PAGING_IS_WRITEABLE" if "i < 1024" for i
      using dent [OF that] stab [OF that] by (simp add: sdir)
    fix a assume "\<forall>p \<in> set (page # dir # ts). a \<notin> addrs p 4096"
    then show "mem s' a = mem s a"
      using keep [of a] built zero1 by (auto simp: tables_built_def)
  qed (use page ok3 id built kzalloc_frame [OF a1] kzalloc_frame [OF a3] kzalloc_more [OF a1] kzalloc_more [OF a3]
      in \<open>simp_all add: s' tables_built_def\<close>)
qed

section \<open>Releasing an address space\<close>

lemma fold_bind_None [simp]: "fold (\<lambda>x r. Option.bind r (f x)) xs None = None"
  by (induction xs) simp_all

lemma kfree_fold:
  assumes "kheap_ok s" and "distinct ps" and "\<forall>p \<in> set ps. klive s p = Some 1"
  shows "\<exists>s'. fold (\<lambda>p r. Option.bind r (\<lambda>s. kfree s p)) ps (Some s) = Some s' \<and> kheap_ok s' \<and>
    klive s' = (\<lambda>p. if p \<in> set ps then None else klive s p) \<and> mem s' = mem s"
proof -
  obtain s' where s': "fold (\<lambda>p r. Option.bind r (\<lambda>s. kfree s p)) ps (Some s) = Some s'"
    "kheap_ok s'" "klive s' = (\<lambda>p. if p \<in> set ps then None else klive s p)"
    using km.dealloc_list [OF assms(1,2)] assms(3) by auto
  have "fold (\<lambda>p r. Option.bind r (\<lambda>s. kfree s p)) ps (Some s) = Some s' \<Longrightarrow> mem s' = mem s" for s s'
  proof (induction ps arbitrary: s)
    case (Cons p ps)
    then obtain s1 where "kfree s p = Some s1" by (cases "kfree s p") auto
    then show ?case using Cons kfree_mem by auto
  qed simp
  then show ?thesis using s' by blast
qed

text \<open>
  The loop reads each table's address from the directory as it goes; freeing does not change
  memory, so it frees the tables of the space, then the directory, then the chunk.
\<close>

lemma release_fold:
  "fold (\<lambda>i r. do { s \<leftarrow> r; let entry = load32 (mem s) (cell (load32 (mem s) page) i);
       let table = entry AND 0xFFFFF000; kfree s table }) is (Some s) =
   fold (\<lambda>p r. Option.bind r (\<lambda>s. kfree s p)) (map (space_table (mem s) page) is) (Some s)"
proof (induction "is" arbitrary: s)
  case (Cons i "is")
  show ?case
  proof (cases "kfree s (space_table (mem s) page i)")
    case (Some a)
    then have "mem a = mem s" by (rule kfree_mem)
    then show ?thesis
      using Cons.IH [of a] Some by (simp add: space_table_def space_dir_def Let_def)
  qed (simp add: space_table_def space_dir_def Let_def)
qed simp

lemma release_space:
  assumes ok: "kheap_ok s" and sp: "space_ok s page"
  shows "\<exists>s'. release_4GB_virtual_memory_address_space s page = Some s' \<and> kheap_ok s' \<and> mem s' = mem s \<and>
    klive s' = (\<lambda>p. if p \<in> set (space_blocks (mem s) page) then None else klive s p)"
proof -
  let ?ts = "map (space_table (mem s) page) [0..<1024]" and ?dir = "space_dir (mem s) page"
  have dist: "distinct (page # ?dir # ?ts)" and live: "\<forall>p \<in> set (page # ?dir # ?ts). klive s p = Some 1"
    using sp unfolding space_ok_def space_blocks_def by blast+
  obtain s1 where 1: "fold (\<lambda>p r. Option.bind r (\<lambda>s. kfree s p)) ?ts (Some s) = Some s1" "kheap_ok s1"
    "klive s1 = (\<lambda>p. if p \<in> set ?ts then None else klive s p)" "mem s1 = mem s"
    using kfree_fold [OF ok, of ?ts] dist live by auto
  have "klive s1 ?dir = Some 1" using dist live 1(3) by auto
  then obtain s2 where 2: "kfree s1 ?dir = Some s2" "kheap_ok s2" "klive s2 = (klive s1)(?dir := None)"
    using kfree_live [OF 1(2)] by blast
  have "klive s2 page = Some 1" using dist live 1(3) 2(3) by auto
  then obtain s3 where 3: "kfree s2 page = Some s3" "kheap_ok s3" "klive s3 = (klive s2)(page := None)"
    using kfree_live [OF 2(2)] by blast
  have "mem s3 = mem s" using kfree_mem [OF 2(1)] kfree_mem [OF 3(1)] 1(4) by simp
  moreover have "release_4GB_virtual_memory_address_space s page = Some s3"
    using 1 2 3 unfolding release_4GB_virtual_memory_address_space_def release_fold
    by (simp add: space_dir_def)
  moreover have "klive s3 = (\<lambda>p. if p \<in> set (space_blocks (mem s) page) then None else klive s p)"
    unfolding space_blocks_def using 1(3) 2(3) 3(3) by auto
  ultimately show ?thesis using 3(2) by blast
qed

end
