(* ===== verification/Heap_Properties.thy ===== *)
theory Heap_Properties
  imports KHeap
begin

text \<open>
  What the kernel heap promises its callers, stated over \<open>heap.c\<close> and \<open>kheap.c\<close>, and what
  \<open>free\<close> does with a pointer into the middle of an allocation. \<open>small_machine\<close> is a machine with
  a heap of four free blocks, for the examples.
\<close>

definition small_heap :: heap where
  "small_heap = \<lparr>table = \<lparr>entries = (\<lambda>i. 0), table_total = 4\<rparr>, start_address = 0x01000000\<rparr>"

definition small_machine :: machine where
  "small_machine = \<lparr>mem = (\<lambda>a. 7), con = \<lparr>vram = (\<lambda>a. 0), g_row = 0, g_column = 0, g_color = 15\<rparr>,
     g_kernel_heap = small_heap, objs = (\<lambda>p. None)\<rparr>"

lemma small_heap_ok: "heap_ok small_heap"
  using table_ok_free [of 4 "\<lambda>i. 0"] by (simp add: heap_ok_def heap_blocks_def small_heap_def heap_consts)

lemma small_machine_ok [simp]: "machine_ok small_machine" "kheap_ok small_machine"
  using small_heap_ok by (simp_all add: machine_ok_def kheap_ok_def small_machine_def)

lemma small_room [simp]: "kroom small_machine = 4"
proof -
  have "{i :: int. 0 \<le> i \<and> i < 4 \<and> True} = {0..<4}" by auto
  then show ?thesis
    by (simp add: kroom_def free_room_def heap_blocks_def small_machine_def small_heap_def)
qed

text \<open>
  C8. A block that \<open>kmalloc\<close> returns is page aligned, large enough, was not in
  use, and overlaps no allocation in use; the heap stays well formed and every other
  allocation stays as it was.
\<close>

lemma kmalloc_fresh_block:
  assumes "kheap_ok s" and "kmalloc s n = (p, s')" and "p \<noteq> 0"
  shows "kheap_ok s' \<and> p mod 4096 = 0 \<and> unat n \<le> 4096 * blocks_for n \<and>
    klive s p = None \<and> klive s' = (klive s)(p \<mapsto> blocks_for n) \<and>
    (\<forall>q l. klive s q = Some l \<longrightarrow> addrs p (unat n) \<inter> addrs q (4096 * l) = {})"
proof -
  have some: "kheap_ok s'" "klive s p = None" "klive s' = (klive s)(p \<mapsto> blocks_for n)"
    using km.alloc_some [OF assms] by auto
  have "addrs p (unat n) \<inter> addrs q (4096 * l) = {}" if "klive s q = Some l" for q l
    using km.alloc_fresh [OF assms that] addrs_mono [OF blocks_for_enough, of p n] by blast
  then show ?thesis
    using some klive_block [of s' p "blocks_for n"] blocks_for_enough by simp
qed

lemma kmalloc_fresh_block_witness:
  "\<exists>p s'. kmalloc small_machine 4096 = (p, s') \<and> p \<noteq> 0 \<and> klive s' p = Some 1"
proof -
  obtain p s' where m: "kmalloc small_machine 4096 = (p, s')" by fastforce
  have p: "p \<noteq> 0" using km.alloc_one [of small_machine 4096] m by simp
  show ?thesis using kmalloc_fresh_block [OF _ m p] m p by (auto simp: blocks_for_one)
qed


text \<open>
  C17. \<open>malloc\<close> returns the least window of free blocks that holds the request,
  and NULL with the heap unchanged exactly when no window does.
\<close>

lemma malloc_first_fit:
  assumes "heap_ok hp" and "0 < n" and "unat n \<le> 2 ^ 32 - 4096" and "malloc hp n = (p, hp')"
  shows "if \<exists>i. heap_window hp i (int (blocks_for n))
    then \<exists>i. p = block_address hp i \<and> p \<noteq> 0 \<and> heap_window hp i (int (blocks_for n)) \<and>
      (\<forall>j < i. \<not> heap_window hp j (int (blocks_for n)))
    else p = 0 \<and> hp' = hp"
proof -
  let ?k = "align_value_to_upper n div HEAP_BLOCK_SIZE_BYTES"
  have "unat ?k = blocks_for n" using total_blocks_for [of n] assms(3) by simp
  then have k: "uint ?k = int (blocks_for n)" by (simp only: uint_nat)
  have "1 \<le> unat n" using assms(2) by (simp add: word_less_nat_alt)
  then have "1 \<le> blocks_for n" by (simp add: blocks_for_def)
  then have pos: "?k \<noteq> 0" using k by force
  show ?thesis
    using assms(1)
  proof (cases rule: malloc_blocks_cases [of _ ?k])
    case full
    then show ?thesis using pos k assms(4) by (auto simp: malloc_def Let_def)
  next
    case (fit i)
    then have "block_address hp i \<noteq> 0"
      using block_address_nonzero [OF assms(1), of i] by (auto simp: free_window_def)
    then show ?thesis using fit assms(4) k by (auto simp: malloc_def Let_def)
  qed
qed

lemma small_window: "heap_window small_heap 0 1" "heap_window small_heap 0 2"
  by (simp_all add: free_window_def heap_blocks_def small_heap_def)

lemma malloc_first_fit_witness:
  "fst (malloc small_heap 5000) = 0x01000000"
proof -
  obtain p hp' where m: "malloc small_heap 5000 = (p, hp')" by fastforce
  have b: "blocks_for 5000 = 2" by (simp add: blocks_for_def)
  have "\<exists>i. p = block_address small_heap i \<and> heap_window small_heap i 2 \<and>
      (\<forall>j < i. \<not> heap_window small_heap j 2)"
    using malloc_first_fit [OF small_heap_ok _ _ m] small_window(2) unfolding b by (auto split: if_splits)
  then obtain i where i: "p = block_address small_heap i" "heap_window small_heap i 2"
    "\<forall>j < i. \<not> heap_window small_heap j 2" by blast
  have "0 \<le> i" using i(2) by (simp add: free_window_def)
  moreover have "\<not> 0 < i" using i(3) small_window(2) by blast
  ultimately have "i = 0" by simp
  then show ?thesis using m i(1) by (simp add: block_address_def small_heap_def)
qed

text \<open>
  C2. Freeing what \<open>kmalloc\<close> just returned succeeds and gives back the same
  allocations, the same number of free blocks, the same objects and the same memory.
\<close>

lemma kmalloc_kfree_restores:
  assumes "machine_ok s" and "kmalloc s n = (p, s1)" and "p \<noteq> 0"
  shows "\<exists>s2. kfree s1 p = Some s2 \<and> kheap_ok s2 \<and> klive s2 = klive s \<and> kroom s2 = kroom s \<and>
    objs s2 = objs s \<and> mem s2 = mem s"
proof -
  have ok: "kheap_ok s" using assms(1) by (rule machine_okD)
  note some = km.alloc_some [OF ok assms(2,3)] and room = km.alloc_room [OF ok assms(2,3)]
  obtain s2 where s2: "kfree s1 p = Some s2" "kheap_ok s2" "klive s2 = (klive s1)(p := None)"
      "kroom s2 = kroom s1 + blocks_for n"
    using km.dealloc_live [of s1 p "blocks_for n"] some by auto
  have s1: "mem s1 = mem s" "objs s1 = objs s" using assms(2) by (auto elim!: kmallocE)
  have "objs s p = None" using machine_ok_fresh [OF assms(1)] some by blast
  then show ?thesis using s2 some room kfree_frame [OF s2(1)] kfree_mem [OF s2(1)] s1 by auto
qed

lemma kmalloc_kfree_restores_witness:
  "\<exists>p s1 s2. kmalloc small_machine 100 = (p, s1) \<and> kfree s1 p = Some s2 \<and> kroom s2 = 4"
proof -
  obtain p s1 where m: "kmalloc small_machine 100 = (p, s1)" by fastforce
  have p: "p \<noteq> 0" using km.alloc_one [of small_machine 100] m by simp
  show ?thesis using kmalloc_kfree_restores [OF _ m p] m by auto
qed

text \<open>
  C32. The bytes that \<open>kzalloc\<close> returns are zero; every other byte, and every
  byte of another allocation, is as before.
\<close>

lemma kzalloc_zeroed:
  assumes "kheap_ok s" and "kzalloc s n = (p, s')" and "p \<noteq> 0"
  shows "bytes_at (mem s') p (unat n) = replicate (unat n) 0 \<and>
    (\<forall>a. a \<notin> addrs p (unat n) \<longrightarrow> mem s' a = mem s a) \<and>
    (\<forall>q l a. klive s q = Some l \<and> a \<in> addrs q (4096 * l) \<longrightarrow> mem s' a = mem s a)"
proof -
  note zero = kz.alloc_zero [OF assms]
  have "bytes_at (mem s') p (unat n) = replicate (unat n) 0"
    by (rule nth_equalityI) (simp_all add: zero in_addrs_offset less_imp_le)
  moreover have "\<forall>a. a \<notin> addrs p (unat n) \<longrightarrow> mem s' a = mem s a" by (simp add: zero)
  moreover have "\<forall>q l a. klive s q = Some l \<and> a \<in> addrs q (4096 * l) \<longrightarrow> mem s' a = mem s a"
    using kz.alloc_keeps [OF assms(1,2)] by blast
  ultimately show ?thesis by blast
qed

lemma kzalloc_zeroed_witness:
  "\<exists>p s'. kzalloc small_machine 8 = (p, s') \<and> bytes_at (mem s') p 8 = replicate 8 0"
proof -
  obtain p s' where m: "kzalloc small_machine 8 = (p, s')" by fastforce
  have p: "p \<noteq> 0" using kz.alloc_one [of small_machine 8] m by simp
  show ?thesis using kzalloc_zeroed [OF _ m p] m by auto
qed

text \<open>C33. The allocations of the kernel heap can be freed in any order, and then none is left.\<close>

lemma kfree_all:
  assumes "kheap_ok s" and "distinct ps" and "set ps = dom (klive s)"
  shows "\<exists>s'. fold (\<lambda>p r. Option.bind r (\<lambda>s. kfree s p)) ps (Some s) = Some s' \<and> kheap_ok s' \<and>
    klive s' = (\<lambda>p. None)"
  using km.dealloc_list [OF assms(1,2)] assms(3) by (fastforce simp: fun_eq_iff)

lemma kfree_all_witness:
  "\<exists>p q s s'. fold (\<lambda>p r. Option.bind r (\<lambda>s. kfree s p)) [p, q] (Some s) = Some s' \<and> p \<noteq> q \<and>
    klive s p = Some 1 \<and> klive s q = Some 1 \<and> klive (s' :: machine) = (\<lambda>p. None)"
proof -
  obtain p s1 where m: "kmalloc small_machine 100 = (p, s1)" by fastforce
  have p: "p \<noteq> 0" using km.alloc_one [of small_machine 100] m by simp
  have s1: "kheap_ok s1" "klive s1 = (klive small_machine)(p \<mapsto> 1)" "0 < kroom s1"
    using km.alloc_some [OF _ m p] km.alloc_room [OF _ m p] by (simp_all add: blocks_for_one)
  obtain q s2 where m': "kmalloc s1 100 = (q, s2)" by fastforce
  have q: "q \<noteq> 0" using km.alloc_one [of s1 100] m' s1 by simp
  have s2: "kheap_ok s2" "klive s2 = (klive s1)(q \<mapsto> 1)" "klive s1 q = None"
    using km.alloc_some [OF s1(1) m' q] by (simp_all add: blocks_for_one)
  have none: "allocation small_heap i = None" for i by (simp add: allocation_def small_heap_def)
  have empty: "klive small_machine = (\<lambda>p. None)"
    by (simp add: klive_def live_def small_machine_def fun_eq_iff none Let_def)
  have pq: "p \<noteq> q" using s1(2) s2(3) by auto
  have "set [p, q] = dom (klive s2)" by (auto simp: s2(2) s1(2) empty)
  then show ?thesis using kfree_all [OF s2(1), of "[p, q]"] pq s1(2) s2(2) by fastforce
qed

text \<open>
  C34. \<open>free\<close> of a pointer into the middle of an allocation, with block 0 in use,
  frees the allocation at block 0 instead and leaves the other one in use.
\<close>

lemma free_inside_allocation:
  assumes ok: "heap_ok hp" and first: "allocation hp 0 = Some k" and other: "allocation hp b = Some l"
    and inside: "b < i" "i < b + l" and b: "0 < b"
  shows "\<exists>hp'. free hp (block_address hp i) = Some hp' \<and>
    live hp' (block_address hp 0) = None \<and> live hp' (block_address hp b) = Some (nat l)"
proof -
  let ?e = "entries (table hp)"
  have run: "is_run ?e b l" "0 \<le> b" "b + l \<le> heap_blocks hp"
    and run0: "is_run ?e 0 k" "k \<le> heap_blocks hp"
    using allocation_is_run [OF ok other] allocation_is_run [OF ok first] by auto
  have "?e i AND HEAP_BLOCK_IS_FIRST = 0"
    using is_run_nth [OF run(1), of i] inside by (simp add: run_code_cases heap_consts)
  then have search: "find_first_block ?e i j = Some 0" if "0 \<le> j" for j
    using that
  proof (induction "nat j" arbitrary: j)
    case (Suc n)
    then show ?case by (subst find_first_block.simps) simp
  qed (simp add: find_first_block.simps)
  have i: "get_block_number_from_physical_address hp (block_address hp i) = i"
    using inside run by (intro block_number_address [OF ok]) auto
  have "mark_blocks_free hp 0 = Some (with_entries hp (clear_blocks ?e 0 k))"
    using mark_blocks_free_run [OF run0(1)] run0(2) by (simp add: with_entries_def)
  moreover have "find_first_block ?e 0 0 = Some 0" by (simp add: find_first_block.simps)
  ultimately have eq: "free hp (block_address hp i) = Some (with_entries hp (clear_blocks ?e 0 k))"
    using search [of i] inside b by (simp add: free_def i mark_blocks_free_def Let_def)
  note clear = allocation_clear [OF ok first]
  have "0 < heap_blocks hp" using run inside by linarith
  then have "live (with_entries hp (clear_blocks ?e 0 k)) = (live hp)(block_address hp 0 := None)"
    using live_with_entries [OF ok clear(1) _ _ clear(2)] by simp
  moreover have "block_address hp b \<noteq> block_address hp 0"
    using block_address_inj [OF ok, of b 0] run inside b by auto
  moreover have "live hp (block_address hp b) = Some (nat l)"
    using live_block_address [OF ok, of b] run inside other by simp
  ultimately show ?thesis using eq by simp
qed


definition two_runs :: heap where
  "two_runs = \<lparr>table = \<lparr>entries = (\<lambda>i. if i = 0 then 0x41 else if i = 1 then 0xC1 else if i = 2 then 0x01 else 0),
     table_total = 4\<rparr>, start_address = 0x01000000\<rparr>"

lemma below_four: "0 \<le> i \<and> i < 4 \<longleftrightarrow> i = 0 \<or> i = 1 \<or> i = 2 \<or> i = (3 :: int)"
  by auto

lemma two_runs_ok: "heap_ok two_runs"
  by (simp add: heap_ok_def heap_blocks_def two_runs_def heap_consts table_ok_def below_four)

lemma free_inside_allocation_witness:
  "\<exists>hp'. free two_runs 0x01002000 = Some hp' \<and> live hp' 0x01000000 = None \<and> live hp' 0x01001000 = Some 2"
proof -
  have "allocation two_runs 0 = Some 1" "allocation two_runs 1 = Some 2"
    by (simp_all add: allocation_def heap_blocks_def two_runs_def heap_consts block_has_next_block_def
      run_length.simps)
  then show ?thesis
    using free_inside_allocation [OF two_runs_ok, of 1 1 2 2]
    by (simp add: block_address_def heap_consts two_runs_def)
qed

text \<open>
  After \<open>kheap_init\<close> the kernel heap is well formed, all of its 25600 blocks
  are free and nothing is allocated.
\<close>

lemma kheap_init_free:
  "kheap_ok (kheap_init s) \<and> kroom (kheap_init s) = 25600 \<and> klive (kheap_init s) = (\<lambda>p. None)"
  by (simp add: kheap_init_heap)

text \<open>
  \<open>heap_create\<close> succeeds exactly on aligned bounds with a table of matching
  size, else it is \<open>-EINVAL\<close>; a heap of at most 2 GB that it accepts is well
  formed and all free.
\<close>

lemma heap_create_result:
  "fst (heap_create hp start end t) =
     (if start mod 4096 = 0 \<and> end mod 4096 = 0 \<and> table_total t = (end - start) div 4096 then 0 else - EINVAL) \<and>
   (fst (heap_create hp start end t) = 0 \<longrightarrow> start \<noteq> 0 \<longrightarrow> start \<le> end \<longrightarrow> unat (end - start) \<le> 2 ^ 31 \<longrightarrow>
      heap_ok (snd (heap_create hp start end t)) \<and>
      free_room (snd (heap_create hp start end t)) = unat (end - start) div 4096)"
proof (cases "start mod 4096 = 0 \<and> end mod 4096 = 0 \<and> table_total t = (end - start) div 4096")
  case True
  define e where "e = (\<lambda>i. if 0 \<le> i \<and> i < uint (table_total t) then HEAP_BLOCK_TABLE_ENTRY_FREE else entries t i)"
  let ?hp = "\<lparr>table = t\<lparr>entries := e\<rparr>, start_address = start\<rparr>"
  have r: "heap_create hp start end t = (0, ?hp)"
    using True by (simp add: heap_create_def heap_validate_alignment_def heap_validate_table_def heap_consts e_def Let_def)
  have n: "heap_blocks ?hp = uint (end - start) div 4096"
    using True by (simp add: heap_blocks_def uint_div)
  have "heap_ok ?hp \<and> free_room ?hp = unat (end - start) div 4096"
    if a: "start \<noteq> 0" "start \<le> end" "unat (end - start) \<le> 2 ^ 31"
  proof -
    have "uint (end - start) = uint end - uint start" using a(2) by (simp add: uint_sub_if' word_le_def)
    moreover have "uint end < 2 ^ 32" using uint_lt2p [of "end"] by simp
    moreover have "4096 * (uint (end - start) div 4096) \<le> uint (end - start)" by simp
    ultimately have "uint start + 4096 * heap_blocks ?hp \<le> 2 ^ 32" unfolding n by linarith
    moreover have "int (unat (end - start)) \<le> int (2 ^ 31)" using a(3) by (simp only: of_nat_le_iff)
    then have "heap_blocks ?hp \<le> 2 ^ 19" unfolding n by simp
    moreover have "table_ok e (heap_blocks ?hp)"
      by (rule table_ok_free) (simp add: e_def heap_blocks_def heap_consts)
    ultimately have "heap_ok ?hp" using a(1) True by (simp add: heap_ok_def heap_consts)
    moreover have "{i. 0 \<le> i \<and> i < heap_blocks ?hp \<and> e i = 0} = {0..<heap_blocks ?hp}"
      by (auto simp: e_def heap_blocks_def heap_consts)
    then have "free_room ?hp = nat (heap_blocks ?hp)" by (simp add: free_room_def)
    then have "free_room ?hp = unat (end - start) div 4096" by (simp add: n nat_div_distrib)
    ultimately show ?thesis by blast
  qed
  then show ?thesis using True by (simp add: r)
next
  case False
  then show ?thesis
    by (auto simp: heap_create_def heap_validate_alignment_def heap_validate_table_def heap_consts errno_defs Let_def)
qed

lemma heap_create_result_witness:
  "heap_ok (snd (heap_create small_heap 0x01000000 0x01004000 (table small_heap))) \<and>
   free_room (snd (heap_create small_heap 0x01000000 0x01004000 (table small_heap))) = 4"
  using heap_create_result [of small_heap "0x01000000" "0x01004000" "table small_heap"]
  by (simp add: small_heap_def)

end
