(* ===== verification/Paging_Properties.thy ===== *)
theory Paging_Properties
  imports Paging_Correct Heap_Properties
begin

text \<open>
  What \<open>paging.c\<close> promises the tasks. \<open>boot_machine\<close> is a machine just after \<open>kheap_init\<close>, for
  the examples.
\<close>

definition boot_machine :: machine where
  "boot_machine = kheap_init small_machine"

lemma boot_machine_facts [simp]:
  "kheap_ok boot_machine" "kroom boot_machine = 25600" "klive boot_machine p = None"
  by (simp_all add: boot_machine_def kheap_init_heap)

text \<open>
  C9. With 1026 free blocks, a new address space consists of 1026 fresh blocks, maps every
  page to itself with the given flags, and changes no byte of any allocation in use.
\<close>

lemma new_space_identity:
  assumes "kheap_ok s" and "1026 \<le> kroom s"
    and "make_new_4GB_virtual_memory_address_space s flags = (page, s')"
  shows "page \<noteq> 0 \<and> kheap_ok s' \<and> space_ok s' page \<and> kroom s = kroom s' + 1026 \<and>
    (\<forall>p \<in> set (space_blocks (mem s') page). klive s p = None) \<and>
    (\<forall>va. va mod 4096 = 0 \<longrightarrow> paging_get_entry_of_address (mem s') page va = va OR ucast flags) \<and>
    (\<forall>q l a. klive s q = Some l \<and> a \<in> addrs q (4096 * l) \<longrightarrow> mem s' a = mem s a)"
proof -
  have new: "new_space s flags page s'" using assms by (rule make_new_space)
  have live': "klive s' p = Some 1" if "p \<in> set (space_blocks (mem s') page)" for p
    using new that by (simp add: new_space_def)
  have keep: "mem s' a = mem s a" if q: "klive s q = Some l" "a \<in> addrs q (4096 * l)" for q l a
  proof -
    have q': "q \<notin> set (space_blocks (mem s') page)" "klive s' q = Some l"
      using new q(1) by (auto simp: new_space_def)
    have "a \<notin> addrs p 4096" if "p \<in> set (space_blocks (mem s') page)" for p
      using klive_apart [of s' p 1 q l] live' [OF that] q' q(2) that new by (auto simp: new_space_def)
    then show ?thesis using new by (simp add: new_space_def)
  qed
  have "\<forall>q l a. klive s q = Some l \<and> a \<in> addrs q (4096 * l) \<longrightarrow> mem s' a = mem s a"
    using keep by blast
  then show ?thesis using new by (simp add: new_space_def)
qed

lemma new_space_identity_witness:
  "\<exists>page s'. make_new_4GB_virtual_memory_address_space boot_machine 5 = (page, s') \<and>
     page \<noteq> 0 \<and> paging_get_entry_of_address (mem s') page 0x400000 = 0x400005"
proof -
  obtain page s' where m: "make_new_4GB_virtual_memory_address_space boot_machine 5 = (page, s')"
    by fastforce
  show ?thesis using new_space_identity [OF _ _ m] m by simp
qed

text \<open>
  C10. \<open>paging_map_page\<close> changes the translation of the page it maps and of no
  other, keeps the address space well formed and writes to its tables only; a misaligned
  address gives \<open>-EINVAL\<close> and no change.
\<close>

lemma map_page_translation:
  assumes "kheap_ok s" and "space_ok s page"
    and "paging_map_page (mem s) page virt phys flags = (r, m')"
  shows "if virt mod 4096 = 0 \<and> phys mod 4096 = 0
    then r = 0 \<and> space_ok (s\<lparr>mem := m'\<rparr>) page \<and>
      (\<forall>va. va mod 4096 = 0 \<longrightarrow> paging_get_entry_of_address m' page va =
        (if va = virt then phys OR flags else paging_get_entry_of_address (mem s) page va)) \<and>
      (\<forall>q l a. klive s q = Some l \<and> q \<notin> set (space_blocks (mem s) page) \<and> a \<in> addrs q (4096 * l) \<longrightarrow> m' a = mem s a)
    else r = - EINVAL \<and> m' = mem s"
proof (cases "virt mod 4096 = 0 \<and> phys mod 4096 = 0")
  case True
  then have set: "paging_set_entry_for_virtual_address (mem s) page virt (phys OR flags) = (r, m')"
    using assms(3) by (simp add: paging_map_page_def paging_consts)
  note tr = set_entry_translation [OF assms(1,2) conjunct1 [OF True] set]
  have "m' a = mem s a"
    if q: "klive s q = Some l" "q \<notin> set (space_blocks (mem s) page)" "a \<in> addrs q (4096 * l)" for q l a
  proof (rule tr(4))
    fix i :: nat assume "i < 1024"
    then have t: "space_table (mem s) page i \<in> set (space_blocks (mem s) page)"
      by (simp add: space_blocks_def)
    then have "klive s (space_table (mem s) page i) = Some 1" using assms(2) unfolding space_ok_def by blast
    moreover have "space_table (mem s) page i \<noteq> q" using t q(2) by metis
    ultimately show "a \<notin> addrs (space_table (mem s) page i) 4096"
      using klive_apart [OF assms(1), of "space_table (mem s) page i" 1 q l] q(1,3) by auto
  qed
  moreover have "space_ok (s\<lparr>mem := m'\<rparr>) page" using assms(2) tr(2) by (simp add: space_ok_def)
  ultimately show ?thesis using True tr(1,3) by auto
qed (use assms(3) in \<open>auto simp: paging_map_page_def paging_consts\<close>)

lemma map_page_translation_witness:
  "\<exists>page s' m'. space_ok (s' :: machine) page \<and> paging_map_page (mem s') page 0x400000 0x5000 7 = (0, m') \<and>
     paging_get_entry_of_address m' page 0x400000 = 0x5007"
proof -
  obtain page s' where m: "make_new_4GB_virtual_memory_address_space boot_machine 5 = (page, s')"
    by fastforce
  have s': "kheap_ok s'" "space_ok s' page" using make_new_space [OF _ _ m] by (simp_all add: new_space_def)
  obtain r m' where p: "paging_map_page (mem s') page 0x400000 0x5000 7 = (r, m')" by fastforce
  have "r = 0 \<and> paging_get_entry_of_address m' page 0x400000 = 0x5007"
    using map_page_translation [OF s' p] by simp
  then show ?thesis using s' p by blast
qed

text \<open>
  C18. Releasing an address space that was just made frees exactly its blocks: the allocations
  are again those from before it was made.
\<close>

lemma new_space_release:
  assumes "kheap_ok s" and "1026 \<le> kroom s"
    and "make_new_4GB_virtual_memory_address_space s flags = (page, s1)"
  shows "\<exists>s2. release_4GB_virtual_memory_address_space s1 page = Some s2 \<and> kheap_ok s2 \<and>
    klive s2 = klive s \<and> mem s2 = mem s1"
proof -
  have new: "new_space s flags page s1" using assms by (rule make_new_space)
  then obtain s2 where s2: "release_4GB_virtual_memory_address_space s1 page = Some s2" "kheap_ok s2"
    "mem s2 = mem s1" "klive s2 = (\<lambda>p. if p \<in> set (space_blocks (mem s1) page) then None else klive s1 p)"
    using release_space [of s1 page] by (auto simp: new_space_def)
  then have "klive s2 = klive s" using new by (auto simp: new_space_def fun_eq_iff)
  then show ?thesis using s2 by blast
qed

lemma new_space_release_witness:
  "\<exists>page s1 s2. make_new_4GB_virtual_memory_address_space boot_machine 5 = (page, s1) \<and>
     release_4GB_virtual_memory_address_space s1 page = Some s2 \<and> klive s2 = klive boot_machine"
proof -
  obtain page s' where m: "make_new_4GB_virtual_memory_address_space boot_machine 5 = (page, s')"
    by fastforce
  show ?thesis using new_space_release [OF _ _ m] m by auto
qed

text \<open>
  C19. For aligned addresses and a non-empty range, \<open>paging_map_virtual_memory\<close>
  maps the first page of the range and no other, because the loop of
  \<open>paging_map_memory_by_range\<close> stops at the first page it could map.
\<close>

lemma map_virtual_memory_one_page:
  assumes "virt mod 4096 = 0" and "phys mod 4096 = 0" and "phys_end mod 4096 = 0" and "phys < phys_end"
  shows "paging_map_virtual_memory m page virt phys phys_end flags = paging_map_page m page virt phys flags"
proof -
  have "0 < unat (phys_end - phys) div 4096"
  proof (rule ccontr)
    assume "\<not> 0 < unat (phys_end - phys) div 4096"
    then have small: "unat (phys_end - phys) < 4096" by (simp add: div_eq_0_iff)
    have sub: "unat (phys_end - phys) = unat phys_end - unat phys"
      using assms(4) by (simp add: unat_sub)
    have u: "unat phys_end mod 4096 = 0" "unat phys mod 4096 = 0"
    proof -
      have "unat (phys_end mod 4096) = unat (0 :: u32)" "unat (phys mod 4096) = unat (0 :: u32)"
        using assms by (simp_all only:)
      then show "unat phys_end mod 4096 = 0" "unat phys mod 4096 = 0" by (simp_all only: unat_mod) simp_all
    qed
    obtain a b where ab: "unat phys_end = 4096 * a" "unat phys = 4096 * b"
      using u by (auto simp: mod_eq_0_iff_dvd elim!: dvdE)
    have "unat phys < unat phys_end" using assms(4) by (simp only: word_less_nat_alt)
    then have "b + 1 \<le> a" unfolding ab by simp
    then have "4096 * b + 4096 \<le> 4096 * a" by linarith
    then show False using small unfolding sub ab by linarith
  qed
  then obtain n where n: "unat ((phys_end - phys) div 4096) = Suc n"
    by (auto simp: unat_div gr0_conv_Suc)
  have zero: "fst (paging_map_page m page virt phys flags) = 0"
    using assms(1,2)
    by (simp add: paging_map_page_def paging_set_entry_for_virtual_address_def paging_get_indexes_def
      paging_check_address_is_aligned_def paging_consts Let_def)
  moreover have "\<not> phys_end < phys" using assms(4) by (simp add: not_less less_imp_le)
  ultimately show ?thesis
    using assms n by (cases "paging_map_page m page virt phys flags")
      (simp add: paging_map_virtual_memory_def paging_map_memory_by_range_def paging_consts)
qed

lemma map_virtual_memory_one_page_witness:
  "paging_map_virtual_memory (\<lambda>a. 0) 0x2000 0x400000 0x1000 0x9000 7 = paging_map_page (\<lambda>a. 0) 0x2000 0x400000 0x1000 7"
  by (rule map_virtual_memory_one_page) simp_all

text \<open>
  \<open>paging_align_address\<close> is the least page boundary at or above its
  argument, for arguments that do not wrap.
\<close>

lemma paging_align_address_spec:
  assumes "unat ptr \<le> 2 ^ 32 - 4096"
  shows "paging_align_address ptr mod 4096 = 0 \<and> unat ptr \<le> unat (paging_align_address ptr) \<and>
    unat (paging_align_address ptr) < unat ptr + 4096"
proof (cases "ptr mod 4096 = 0")
  case True
  then show ?thesis by (simp add: paging_align_address_def paging_consts)
next
  case False
  define r where "r = unat ptr mod 4096"
  define q where "q = unat ptr div 4096"
  have n: "unat ptr = 4096 * q + r" by (simp add: q_def r_def)
  have r: "unat (ptr mod 4096) = r" "r < 4096" by (simp_all add: unat_mod r_def)
  have "r \<noteq> 0"
  proof
    assume "r = 0"
    then have "unat (ptr mod 4096) = 0" using r(1) by simp
    then show False using False by (simp only: unat_eq_0)
  qed
  have le: "ptr mod 4096 \<le> ptr" using r n by (simp add: word_le_nat_alt)
  have q: "4096 * q + 4096 < 2 ^ 32" using assms n \<open>r \<noteq> 0\<close> by linarith
  have "0 < ptr mod 4096" using False by (simp add: word_greater_zero_iff)
  then have eq: "paging_align_address ptr = (ptr - ptr mod 4096) + 4096"
    by (simp add: paging_align_address_def paging_consts)
  have "unat (ptr - ptr mod 4096) = 4096 * q" using le r n by (simp add: unat_sub)
  then have "unat (paging_align_address ptr) = (4096 * q + 4096) mod 2 ^ 32"
    unfolding eq by (simp only: unat_word_ariths(1)) simp
  then have u: "unat (paging_align_address ptr) = 4096 * q + 4096" using q by simp
  then have "unat (paging_align_address ptr mod 4096) = 0" by (simp add: unat_mod)
  then have "paging_align_address ptr mod 4096 = 0" by (simp only: unat_eq_0)
  then show ?thesis using u n r(2) \<open>r \<noteq> 0\<close> by simp
qed

lemma paging_align_address_spec_witness:
  "paging_align_address 0x1234 mod 4096 = 0 \<and> 0x1234 \<le> unat (paging_align_address 0x1234)"
  using paging_align_address_spec [of "0x1234"] by simp

end
