(* ===== verification/Disk.thy ===== *)
theory Disk
  imports KHeap
begin

text \<open>
  The ATA driver \<open>disk/disk.c\<close> and the byte streams \<open>disk/stream.c\<close> over it. The disk
  controller is hardware: it is the parameter \<open>dev\<close>, the value that a port read gives after a
  history of port accesses that ends with that read. The bytes that the driver stores
  through its argument \<open>buf\<close> are part of its result, because its callers pass local arrays;
  \<open>disk_stream_read\<close> writes them to memory, \<open>disk_stream_fetch\<close> is the same function
  for a local destination.
\<close>

section \<open>State\<close>

datatype io_event = Outb u16 u8 | Inb u16 | Inw u16

type_synonym device = "io_event list \<Rightarrow> u16"

record disk =
  disk_type :: u32
  sector_size :: int
  disk_id :: int
  disk_fs :: u32
  fs_private_data :: u32

text \<open>
  \<open>disk_var\<close> is the global \<open>disk\<close>. The addresses that the linker and the compiler choose are
  fields of the state that nothing changes: of \<open>disk\<close>, of the global \<open>fat16_fs\<close>, and of the
  local array \<open>tmp_filename\<close> of \<open>fat16_find_item_in_directory\<close>.
\<close>

record disk_machine = machine +
  io :: "io_event list"
  disk_var :: disk
  disk_address :: u32
  fat16_fs_address :: u32
  tmp_filename :: u32

definition DISK_SECTOR_SIZE :: int where "DISK_SECTOR_SIZE = 512"
definition PHYSICAL_HARD_DISK_TYPE :: u32 where "PHYSICAL_HARD_DISK_TYPE = 0"

section \<open>Port access\<close>

definition outb :: "u16 \<Rightarrow> u8 \<Rightarrow> io_event list \<Rightarrow> io_event list" where
  "outb port val h = h @ [Outb port val]"

definition inb :: "device \<Rightarrow> u16 \<Rightarrow> io_event list \<Rightarrow> u8 \<times> io_event list" where
  "inb dev port h = (let h = h @ [Inb port] in (ucast (dev h), h))"

definition inw :: "device \<Rightarrow> u16 \<Rightarrow> io_event list \<Rightarrow> u16 \<times> io_event list" where
  "inw dev port h = (let h = h @ [Inw port] in (dev h, h))"

section \<open>The driver\<close>

definition read_command :: "int \<Rightarrow> int \<Rightarrow> io_event list \<Rightarrow> io_event list" where
  "read_command lba sectors h =
     (let h = outb 0x1F6 (word_of_int (drop_bit 24 lba OR 0b11100000)) h;
          h = outb 0x1F2 (word_of_int sectors) h;
          h = outb 0x1F3 (word_of_int (lba AND 0b11111111)) h;
          h = outb 0x1F4 (word_of_int (drop_bit 8 lba)) h;
          h = outb 0x1F5 (word_of_int (drop_bit 16 lba)) h
      in outb 0x1F7 0x20 h)"

partial_function (option) wait_ready :: "device \<Rightarrow> io_event list \<Rightarrow> io_event list option" where
  "wait_ready dev h =
     (let (byte, h) = inb dev 0x1F7 h
      in if byte AND 0x08 = 0 then wait_ready dev h else Some h)"

fun read_words :: "device \<Rightarrow> nat \<Rightarrow> io_event list \<Rightarrow> u8 list \<times> io_event list" where
  "read_words dev 0 h = ([], h)"
| "read_words dev (Suc n) h =
     (let (w, h) = inw dev 0x1F0 h; (bs, h) = read_words dev n h
      in ([ucast w, ucast (drop_bit 8 w)] @ bs, h))"

fun read_sector_loop :: "device \<Rightarrow> nat \<Rightarrow> io_event list \<Rightarrow> (u8 list \<times> io_event list) option" where
  "read_sector_loop dev 0 h = Some ([], h)"
| "read_sector_loop dev (Suc n) h = do {
     h \<leftarrow> wait_ready dev h;
     let (bs, h) = read_words dev 256 h;
     (bs', h) \<leftarrow> read_sector_loop dev n h;
     Some (bs @ bs', h) }"

definition disk_read_sectors :: "device \<Rightarrow> int \<Rightarrow> int \<Rightarrow> io_event list \<Rightarrow> (int \<times> u8 list \<times> io_event list) option" where
  "disk_read_sectors dev lba sectors h = do {
     let h = read_command lba sectors h;
     (buf, h) \<leftarrow> read_sector_loop dev (nat sectors) h;
     Some (0, buf, h) }"

text \<open>Dereferencing a \<open>struct disk *\<close>; the kernel has one disk.\<close>

definition disk_at :: "'a disk_machine_scheme \<Rightarrow> u32 \<Rightarrow> disk option" where
  "disk_at s d = (if d = disk_address s then Some (disk_var s) else None)"

definition get_disk :: "'a disk_machine_scheme \<Rightarrow> int \<Rightarrow> u32" where
  "get_disk s index = (if index \<noteq> 0 then 0 else disk_address s)"

definition disk_read_blocks :: "device \<Rightarrow> u32 \<Rightarrow> int \<Rightarrow> int \<Rightarrow> 'a disk_machine_scheme \<Rightarrow>
    (int \<times> u8 list \<times> 'a disk_machine_scheme) option" where
  "disk_read_blocks dev idisk lba sectors s =
     (if idisk \<noteq> disk_address s then Some (- EIO, [], s)
      else do {
        (res, buf, h) \<leftarrow> disk_read_sectors dev lba sectors (io s);
        Some (res, buf, s\<lparr>io := h\<rparr>) })"

section \<open>Streams\<close>

definition create_disk_stream :: "int \<Rightarrow> 'a disk_machine_scheme \<Rightarrow> (u32 \<times> 'a disk_machine_scheme) option" where
  "create_disk_stream index s =
     (let d = get_disk s index in
      if d = 0 then Some (0, s)
      else
        let (disk_streamer, s) = kzalloc_obj s 8 (Obj_stream \<lparr>pos = 0, disk = 0\<rparr>)
        in do {
          st \<leftarrow> stream_at s disk_streamer;
          let s = put_obj disk_streamer (Obj_stream (st\<lparr>pos := 0, disk := d\<rparr>)) s;
          Some (disk_streamer, s) })"

definition disk_stream_seek :: "u32 \<Rightarrow> int \<Rightarrow> 'a disk_machine_scheme \<Rightarrow> (int \<times> 'a disk_machine_scheme) option" where
  "disk_stream_seek stream position s = do {
     st \<leftarrow> stream_at s stream;
     Some (0, put_obj stream (Obj_stream (st\<lparr>pos := position\<rparr>)) s) }"

text \<open>
  The bytes copied from \<open>tmp_buf\<close>; an index outside its 512 bytes is outside the object.
\<close>

definition copy_from_tmp :: "u8 list \<Rightarrow> int \<Rightarrow> int \<Rightarrow> u8 list option" where
  "copy_from_tmp tmp_buf offset total_to_read =
     (if 0 < total_to_read \<and> (offset < 0 \<or> int (length tmp_buf) < offset + total_to_read) then None
      else Some (take (nat total_to_read) (drop (nat offset) tmp_buf)))"

partial_function (option) disk_stream_fetch :: "device \<Rightarrow> u32 \<Rightarrow> int \<Rightarrow> 'a disk_machine_scheme \<Rightarrow>
    (int \<times> u8 list \<times> 'a disk_machine_scheme) option" where
  "disk_stream_fetch dev stream n_total s = do {
     st \<leftarrow> stream_at s stream;
     let need_to_read_more_than_one_sector = (n_total > DISK_SECTOR_SIZE);
     let sector = pos st sdiv DISK_SECTOR_SIZE;
     let offset = pos st smod DISK_SECTOR_SIZE;
     (result, tmp_buf, s) \<leftarrow> disk_read_blocks dev (disk st) sector 1 s;
     if result < 0 then Some (result, [], s)
     else do {
       let total_to_read = (if need_to_read_more_than_one_sector then DISK_SECTOR_SIZE else n_total);
       bs \<leftarrow> copy_from_tmp tmp_buf offset total_to_read;
       let s = put_obj stream (Obj_stream (st\<lparr>pos := pos st + total_to_read\<rparr>)) s;
       if need_to_read_more_than_one_sector then do {
         (result, bs', s) \<leftarrow> disk_stream_fetch dev stream (n_total - total_to_read) s;
         Some (result, bs @ bs', s) }
       else Some (result, bs, s) } }"

definition disk_stream_read :: "device \<Rightarrow> u32 \<Rightarrow> u32 \<Rightarrow> int \<Rightarrow> 'a disk_machine_scheme \<Rightarrow>
    (int \<times> 'a disk_machine_scheme) option" where
  "disk_stream_read dev stream buf n_total s = do {
     (result, bs, s) \<leftarrow> disk_stream_fetch dev stream n_total s;
     Some (result, s\<lparr>mem := write_bytes buf bs (mem s)\<rparr>) }"

definition release_disk_stream :: "u32 \<Rightarrow> 'a disk_machine_scheme \<Rightarrow> 'a disk_machine_scheme option" where
  "release_disk_stream stream s = kfree s stream"

end
