(* ===== verification/Descriptors.thy ===== *)
theory Descriptors
  imports Disk
begin

text \<open>
  The processor's descriptor tables: \<open>gdt_runtime/gdt.c\<close>, \<open>interrupt/interrupt.c\<close> and the
  panic of \<open>panic/panic.c\<close>. A segment descriptor is the 8 bytes that the code writes through
  \<open>uint8_t *\<close>; the interrupt table and its register are globals of their own record, and the
  addresses of handlers and of the table come from the linker, as arguments.
\<close>

section \<open>Panic\<close>

text \<open>It prints and never returns.\<close>

partial_function (option) loop_forever :: "'a machine_scheme \<Rightarrow> 'a machine_scheme option" where
  "loop_forever s = loop_forever s"

definition arc_panic :: "u32 \<Rightarrow> 'a machine_scheme \<Rightarrow> 'a machine_scheme option" where
  "arc_panic msg s = do {
     let s = klog ''PANIC: '' s;
     s \<leftarrow> klog_at msg s;
     let s = klog ''\<newline>'' s;
     loop_forever s }"

section \<open>Segment descriptors\<close>

record structured_segment_descriptor =
  seg_base :: u32
  seg_limit :: u32
  seg_type :: u8

text \<open>
  The eight bytes of \<open>dst\<close>; \<open>None\<close> where the code calls \<open>arc_panic\<close>, which does not return.
\<close>

definition extract_structured_gdt_to_gdt :: "u8 list \<Rightarrow> structured_segment_descriptor \<Rightarrow> u8 list option" where
  "extract_structured_gdt_to_gdt dst g =
     (if seg_limit g > 0x10000 \<and> seg_limit g AND 0xFFF \<noteq> 0xFFF then None
      else
        let dst = dst[6 := 0x40];
            (limit, dst) = (if seg_limit g > 0x10000 then (drop_bit 12 (seg_limit g), dst[6 := 0xC0])
              else (seg_limit g, dst));
            dst = dst[0 := ucast (limit AND 0xFF)];
            dst = dst[1 := ucast (drop_bit 8 limit AND 0xFF)];
            dst = dst[6 := dst ! 6 OR ucast (drop_bit 16 limit AND 0x0F)];
            dst = dst[2 := ucast (seg_base g AND 0xFF)];
            dst = dst[3 := ucast (drop_bit 8 (seg_base g) AND 0xFF)];
            dst = dst[4 := ucast (drop_bit 16 (seg_base g) AND 0xFF)];
            dst = dst[7 := ucast (drop_bit 24 (seg_base g) AND 0xFF)];
            dst = dst[5 := seg_type g]
        in Some dst)"

fun extract_structured_gdt :: "u8 list list \<Rightarrow> structured_segment_descriptor list \<Rightarrow> u8 list list option" where
  "extract_structured_gdt (d # gdt) (g # gs) = do {
     d \<leftarrow> extract_structured_gdt_to_gdt d g;
     ds \<leftarrow> extract_structured_gdt gdt gs;
     Some (d # ds) }"
| "extract_structured_gdt gdt gs = Some gdt"

text \<open>How the processor reads the fields of a descriptor (the layout drawn in \<open>gdt.c\<close>).\<close>

definition descriptor_base :: "u8 list \<Rightarrow> u32" where
  "descriptor_base d = ucast (d ! 2) OR push_bit 8 (ucast (d ! 3)) OR push_bit 16 (ucast (d ! 4))
     OR push_bit 24 (ucast (d ! 7))"

definition descriptor_limit :: "u8 list \<Rightarrow> u32" where
  "descriptor_limit d =
     (let raw = ucast (d ! 0) OR push_bit 8 (ucast (d ! 1)) OR push_bit 16 (ucast (d ! 6 AND 0x0F))
      in if bit (d ! 6) 7 then push_bit 12 raw OR 0xFFF else raw)"

section \<open>Interrupt descriptors\<close>

definition TOTAL_INTERRUPTS :: nat where "TOTAL_INTERRUPTS = 512"
definition KERNEL_CODE_SELECTOR :: u16 where "KERNEL_CODE_SELECTOR = 0x08"
definition DIVIDE_BY_ZERO_INTERRUPT_NUMBER :: nat where "DIVIDE_BY_ZERO_INTERRUPT_NUMBER = 0x00"
definition SYSTEM_CALL_INTERRUPT_NUMBER :: nat where "SYSTEM_CALL_INTERRUPT_NUMBER = 0x80"

lemmas interrupt_consts = TOTAL_INTERRUPTS_def KERNEL_CODE_SELECTOR_def
  DIVIDE_BY_ZERO_INTERRUPT_NUMBER_def SYSTEM_CALL_INTERRUPT_NUMBER_def

record idt_desc =
  offset_1 :: u16
  selector :: u16
  idt_zero :: u8
  type_attributes :: u8
  offset_2 :: u16

record idtr_desc =
  idtr_limit :: u16
  idtr_base :: u32

text \<open>The two globals, and the operand of \<open>lidt\<close> in \<open>load_interrupt_descriptor_table\<close>.\<close>

record interrupt_state =
  idt_descriptors :: "idt_desc list"
  idt_register :: idtr_desc
  idtr_loaded :: "idtr_desc option"

definition set_interrupt_handler :: "nat \<Rightarrow> u32 \<Rightarrow> interrupt_state \<Rightarrow> interrupt_state" where
  "set_interrupt_handler position address t = t\<lparr>idt_descriptors := (idt_descriptors t)[position :=
     \<lparr>offset_1 = ucast (address AND 0x0000ffff), selector = KERNEL_CODE_SELECTOR, idt_zero = 0x00,
      type_attributes = 0xEE, offset_2 = ucast (drop_bit 16 address)\<rparr>]\<rparr>"

definition init_interrupt_descriptor_table :: "u32 \<Rightarrow> u32 \<Rightarrow> u32 \<Rightarrow> u32 \<Rightarrow> interrupt_state \<Rightarrow> interrupt_state" where
  "init_interrupt_descriptor_table table_address no_interrupt idt_divide_by_zero syscall_wrapper t =
     (let size_of_descriptor_table = 8 * TOTAL_INTERRUPTS;
          t = t\<lparr>idt_descriptors := replicate TOTAL_INTERRUPTS
                \<lparr>offset_1 = 0, selector = 0, idt_zero = 0, type_attributes = 0, offset_2 = 0\<rparr>\<rparr>;
          t = t\<lparr>idt_register := \<lparr>idtr_limit = of_nat (size_of_descriptor_table - 1), idtr_base = table_address\<rparr>\<rparr>;
          t = fold (\<lambda>i. set_interrupt_handler i no_interrupt) [0..<TOTAL_INTERRUPTS] t;
          t = set_interrupt_handler DIVIDE_BY_ZERO_INTERRUPT_NUMBER idt_divide_by_zero t;
          t = set_interrupt_handler SYSTEM_CALL_INTERRUPT_NUMBER syscall_wrapper t
      in t\<lparr>idtr_loaded := Some (idt_register t)\<rparr>)"

definition idt_divide_by_zero :: "'a machine_scheme \<Rightarrow> 'a machine_scheme" where
  "idt_divide_by_zero s = klog (take 14 ''Divide by Zero.'') s"

definition no_interrupt_handler :: "io_event list \<Rightarrow> io_event list" where
  "no_interrupt_handler h = outb 0x20 0x20 h"

definition init_pic :: "io_event list \<Rightarrow> io_event list" where
  "init_pic h =
     (let h = outb 0x20 0x11 h; h = outb 0xA0 0x11 h;
          h = outb 0x21 0x20 h; h = outb 0xA1 0x70 h;
          h = outb 0x21 0x04 h; h = outb 0xA1 0x02 h;
          h = outb 0x21 0x01 h; h = outb 0xA1 0x01 h;
          h = outb 0x21 0x0 h
      in outb 0xA1 0x0 h)"

text \<open>How the processor reads the handler of an entry.\<close>

definition handler_address :: "idt_desc \<Rightarrow> u32" where
  "handler_address d = ucast (offset_1 d) OR push_bit 16 (ucast (offset_2 d))"

section \<open>Lemmas\<close>

lemma low_byte: "(ucast (x AND 0xFF) :: u8) = ucast (x :: u32)"
proof (rule bit_word_eqI)
  fix n assume n: "n < LENGTH(8)"
  have "(0xFF :: u32) = mask 8" by (simp add: mask_eq_exp_minus_1)
  then have "bit (0xFF :: u32) n" using n by (simp only: bit_mask_iff) simp
  then show "bit (ucast (x AND 0xFF) :: u8) n = bit (ucast x :: u8) n" using n by (simp add: bit_simps)
qed

lemma low_half: "(ucast (x AND 0x0000ffff) :: u16) = ucast (x :: u32)"
proof (rule bit_word_eqI)
  fix n assume n: "n < LENGTH(16)"
  have "(0xffff :: u32) = mask 16" by (simp add: mask_eq_exp_minus_1)
  then have "bit (0xffff :: u32) n" using n by (simp only: bit_mask_iff) simp
  then show "bit (ucast (x AND 0x0000ffff) :: u16) n = bit (ucast x :: u16) n" using n by (simp add: bit_simps)
qed

lemma handler_of_set:
  assumes "position < length (idt_descriptors t)"
  shows "handler_address (idt_descriptors (set_interrupt_handler position address t) ! position) = address"
proof (rule bit_word_eqI)
  fix n assume "n < LENGTH(32)"
  then have "n < 16 \<or> 16 \<le> n \<and> n - 16 < 16" by simp linarith
  then show "bit (handler_address (idt_descriptors (set_interrupt_handler position address t) ! position)) n = bit address n"
    using assms unfolding set_interrupt_handler_def low_half by (auto simp: handler_address_def bit_simps)
qed

lemma set_other: "i \<noteq> position \<Longrightarrow>
    idt_descriptors (set_interrupt_handler position address t) ! i = idt_descriptors t ! i"
  by (simp add: set_interrupt_handler_def)

lemma length_set [simp]: "length (idt_descriptors (set_interrupt_handler position address t)) = length (idt_descriptors t)"
  by (simp add: set_interrupt_handler_def)

lemma fold_set_handlers:
  assumes "n \<le> length (idt_descriptors t)"
  shows "length (idt_descriptors (fold (\<lambda>i. set_interrupt_handler i a) [0..<n] t)) = length (idt_descriptors t) \<and>
    (\<forall>i < n. handler_address (idt_descriptors (fold (\<lambda>i. set_interrupt_handler i a) [0..<n] t) ! i) = a)"
  using assms
proof (induction n)
  case (Suc n)
  then show ?case using handler_of_set set_other by (auto simp: less_Suc_eq)
qed simp

lemma descriptor_base_bytes:
  "descriptor_base [l0, l1, ucast (b AND 0xFF), ucast (drop_bit 8 b AND 0xFF), ucast (drop_bit 16 b AND 0xFF),
     t, g, ucast (drop_bit 24 b AND 0xFF)] = b"
proof (rule bit_word_eqI)
  fix n assume "n < LENGTH(32)"
  then have "(n < 8 \<or> 8 \<le> n \<and> n - 8 < 8 \<or> 16 \<le> n \<and> n - 16 < 8 \<or> 24 \<le> n \<and> n - 24 < 8) \<and> n < 32"
    by simp linarith
  then show "bit (descriptor_base [l0, l1, ucast (b AND 0xFF), ucast (drop_bit 8 b AND 0xFF),
      ucast (drop_bit 16 b AND 0xFF), t, g, ucast (drop_bit 24 b AND 0xFF)]) n = bit b n"
    unfolding low_byte by (auto simp: descriptor_base_def bit_simps)
qed

end
