(* ===== verification/Descriptor_Properties.thy ===== *)
theory Descriptor_Properties
  imports Descriptors
begin

text \<open>
  The descriptor tables say what the kernel meant: the processor reads back from a segment
  descriptor the base, limit and type it was built from, and from an interrupt gate the
  address of its handler.
\<close>

lemma bits_0F: "bit (0x0F :: int) n \<longleftrightarrow> n < 4"
proof -
  have "(0x0F :: int) = mask 4" by (simp add: mask_eq_exp_minus_1)
  then show ?thesis by (simp only: bit_mask_iff) auto
qed

lemma bits_FFF: "bit (0xFFF :: int) n \<longleftrightarrow> n < 12"
proof -
  have "(0xFFF :: int) = mask 12" by (simp add: mask_eq_exp_minus_1)
  then show ?thesis by (simp only: bit_mask_iff) auto
qed

lemma raw_limit:
  assumes "\<And>n. 20 \<le> n \<Longrightarrow> \<not> bit l n" and "\<And>n. n < 4 \<Longrightarrow> \<not> bit c n"
  shows "ucast (ucast (l AND 0xFF) :: u8) OR push_bit 8 (ucast (ucast (drop_bit 8 l AND 0xFF) :: u8)) OR
    push_bit 16 (ucast ((c OR (ucast (drop_bit 16 l AND 0x0F) :: u8)) AND 0x0F)) = (l :: u32)" (is "?w = l")
proof (rule bit_word_eqI)
  fix n assume n: "n < LENGTH(32)"
  then consider "n < 8" | "8 \<le> n" "n - 8 < 8" "n < 16" | "16 \<le> n" "n - 16 < 4" "n < 20" | "20 \<le> n"
    by fastforce
  then show "bit ?w n = bit l n"
    unfolding low_byte
    by cases (use n assms in \<open>auto simp: bit_or_iff bit_and_iff bit_push_bit_iff bit_drop_bit_eq bit_unsigned_iff bits_0F\<close>)
qed

lemma bits_flags: "n < 4 \<Longrightarrow> \<not> bit (0xC0 :: u8) n" "n < 4 \<Longrightarrow> \<not> bit (0x40 :: u8) n"
proof -
  have "(0xC0 :: u8) = push_bit 6 3" "(0x40 :: u8) = push_bit 6 1" by simp_all
  then show "n < 4 \<Longrightarrow> \<not> bit (0xC0 :: u8) n" "n < 4 \<Longrightarrow> \<not> bit (0x40 :: u8) n"
    by (simp_all only: bit_push_bit_iff) simp_all
qed

lemma gdt_bytes:
  assumes "length dst = 8" and "extract_structured_gdt_to_gdt dst g = Some d"
  shows "d = (let big = seg_limit g > 0x10000; l = (if big then drop_bit 12 (seg_limit g) else seg_limit g);
      b = seg_base g; c = (if big then 0xC0 else 0x40)
    in [ucast (l AND 0xFF), ucast (drop_bit 8 l AND 0xFF), ucast (b AND 0xFF), ucast (drop_bit 8 b AND 0xFF),
        ucast (drop_bit 16 b AND 0xFF), seg_type g, c OR ucast (drop_bit 16 l AND 0x0F), ucast (drop_bit 24 b AND 0xFF)])"
proof -
  obtain a0 a1 a2 a3 a4 a5 a6 a7 where "dst = [a0, a1, a2, a3, a4, a5, a6, a7]"
    using assms(1) by (auto simp: numeral_eq_Suc length_Suc_conv)
  then show ?thesis
    using assms(2) by (simp add: extract_structured_gdt_to_gdt_def Let_def split: if_splits)
qed

text \<open>Decoding a descriptor as the processor does.\<close>

lemma gdt_decodes:
  assumes "length dst = 8" and "extract_structured_gdt_to_gdt dst g = Some d"
  shows "descriptor_base d = seg_base g \<and> descriptor_limit d = seg_limit g \<and> d ! 5 = seg_type g \<and> length d = 8"
proof (cases "seg_limit g > 0x10000")
  case True
  let ?l = "seg_limit g" and ?b = "seg_base g"
  have d: "d = [ucast (drop_bit 12 ?l AND 0xFF), ucast (drop_bit 8 (drop_bit 12 ?l) AND 0xFF), ucast (?b AND 0xFF),
      ucast (drop_bit 8 ?b AND 0xFF), ucast (drop_bit 16 ?b AND 0xFF), seg_type g,
      0xC0 OR ucast (drop_bit 16 (drop_bit 12 ?l) AND 0x0F), ucast (drop_bit 24 ?b AND 0xFF)]"
    using gdt_bytes [OF assms] True by (simp only: Let_def if_True)
  have ones: "?l AND 0xFFF = 0xFFF"
    using assms(2) True by (auto simp: extract_structured_gdt_to_gdt_def split: if_splits)
  have low: "bit ?l n" if "n < 12" for n
  proof -
    have "bit (0xFFF :: u32) n" using that by (simp add: bits_FFF)
    then have "bit (?l AND 0xFFF) n" by (simp only: ones)
    then show ?thesis by (simp only: bit_and_iff)
  qed
  have raw: "ucast (d ! 0) OR push_bit 8 (ucast (d ! 1)) OR push_bit 16 (ucast (d ! 6 AND 0x0F)) = drop_bit 12 ?l"
  proof -
    have "\<not> bit (drop_bit 12 ?l) n" if "20 \<le> n" for n
      using that bit_imp_le_length [of ?l "12 + n"] by (auto simp: bit_simps)
    from raw_limit [OF this bits_flags(1)] show ?thesis unfolding d by simp
  qed
  have seven: "bit (d ! 6) 7" unfolding d by (simp add: bit_simps)
  have "push_bit 12 (drop_bit 12 ?l) OR 0xFFF = ?l"
    by (rule bit_word_eqI) (use low in \<open>auto simp: bit_simps bits_FFF\<close>)
  then have "descriptor_limit d = ?l" using raw seven by (simp add: descriptor_limit_def Let_def)
  then show ?thesis using descriptor_base_bytes by (simp add: d)
next
  case False
  let ?l = "seg_limit g" and ?b = "seg_base g"
  have d: "d = [ucast (?l AND 0xFF), ucast (drop_bit 8 ?l AND 0xFF), ucast (?b AND 0xFF),
      ucast (drop_bit 8 ?b AND 0xFF), ucast (drop_bit 16 ?b AND 0xFF), seg_type g,
      0x40 OR ucast (drop_bit 16 ?l AND 0x0F), ucast (drop_bit 24 ?b AND 0xFF)]"
    using gdt_bytes [OF assms] False by (simp only: Let_def if_False)
  have "unat ?l \<le> 0x10000" using False by (simp add: not_less word_le_nat_alt)
  then have small: "take_bit 20 (unat ?l) = unat ?l" by (simp add: take_bit_nat_eq_self_iff)
  have high: "\<not> bit ?l n" if "20 \<le> n" for n
  proof
    assume "bit ?l n"
    then have "bit (take_bit 20 (unat ?l)) n" by (simp add: small bit_unsigned_iff)
    then show False using that by (simp add: bit_take_bit_iff)
  qed
  have raw: "ucast (d ! 0) OR push_bit 8 (ucast (d ! 1)) OR push_bit 16 (ucast (d ! 6 AND 0x0F)) = ?l"
    using raw_limit [OF high bits_flags(2)] unfolding d by simp
  have seven: "\<not> bit (d ! 6) 7" unfolding d by (simp add: bit_simps bits_0F)
  have "descriptor_limit d = ?l" using raw seven by (simp add: descriptor_limit_def Let_def)
  then show ?thesis using descriptor_base_bytes by (simp add: d)
qed

text \<open>
  C24. A segment that \<open>extract_structured_gdt_to_gdt\<close> accepts has the same base,
  limit and type when its descriptor is decoded as the processor does.
\<close>

lemma gdt_roundtrip:
  assumes "length dst = 8" and "extract_structured_gdt_to_gdt dst g = Some d"
  shows "descriptor_base d = seg_base g \<and> descriptor_limit d = seg_limit g \<and> d ! 5 = seg_type g \<and> length d = 8"
  using assms by (rule gdt_decodes)

lemma gdt_roundtrip_witness:
  "\<exists>d. extract_structured_gdt_to_gdt (replicate 8 0) \<lparr>seg_base = 0, seg_limit = 0xFFFFFFFF, seg_type = 0x9A\<rparr> = Some d \<and>
     descriptor_limit d = 0xFFFFFFFF \<and> d ! 5 = 0x9A"
proof -
  let ?g = "\<lparr>seg_base = 0, seg_limit = 0xFFFFFFFF, seg_type = 0x9A\<rparr>"
  obtain d where d: "extract_structured_gdt_to_gdt (replicate 8 0) ?g = Some d"
    by (auto simp: extract_structured_gdt_to_gdt_def Let_def)
  then show ?thesis using gdt_roundtrip [OF _ d] by auto
qed

text \<open>
  C39. After \<open>init_interrupt_descriptor_table\<close> the table register is loaded and
  every gate leads to the default handler, except number 0 and number 0x80.
\<close>

lemma idt_handlers:
  assumes "i < 512"
  shows "let t' = init_interrupt_descriptor_table a no dz sys t
    in length (idt_descriptors t') = 512 \<and>
       handler_address (idt_descriptors t' ! i) = (if i = 0x80 then sys else if i = 0 then dz else no) \<and>
       idtr_loaded t' = Some \<lparr>idtr_limit = 4095, idtr_base = a\<rparr>"
proof -
  let ?t0 = "t\<lparr>idt_descriptors := replicate 512 \<lparr>offset_1 = 0, selector = 0, idt_zero = 0, type_attributes = 0, offset_2 = 0\<rparr>,
      idt_register := \<lparr>idtr_limit = 4095, idtr_base = a\<rparr>\<rparr>"
  let ?t1 = "fold (\<lambda>i. set_interrupt_handler i no) [0..<512] ?t0"
  let ?t3 = "set_interrupt_handler 0x80 sys (set_interrupt_handler 0 dz ?t1)"
  have t': "init_interrupt_descriptor_table a no dz sys t = ?t3\<lparr>idtr_loaded := Some (idt_register ?t3)\<rparr>"
    unfolding init_interrupt_descriptor_table_def Let_def interrupt_consts by simp
  have fold: "length (idt_descriptors ?t1) = 512" "\<And>i. i < 512 \<Longrightarrow> handler_address (idt_descriptors ?t1 ! i) = no"
    using fold_set_handlers [of 512 ?t0 no] by simp_all
  have reg: "idt_register (set_interrupt_handler p h u) = idt_register u" for p h u
    by (simp add: set_interrupt_handler_def)
  have "idt_register (fold (\<lambda>i. set_interrupt_handler i no) ps u) = idt_register u" for ps u
    by (induction ps arbitrary: u) (simp_all add: reg)
  then have "idt_register ?t3 = \<lparr>idtr_limit = 4095, idtr_base = a\<rparr>" by (simp add: reg)
  moreover have "handler_address (idt_descriptors ?t3 ! i) = (if i = 0x80 then sys else if i = 0 then dz else no)"
    using fold assms handler_of_set set_other
    by (cases "i = 0x80"; cases "i = 0") simp_all
  ultimately show ?thesis using fold(1) unfolding t' Let_def by simp
qed

lemma idt_handlers_witness:
  "\<exists>t. handler_address (idt_descriptors (init_interrupt_descriptor_table 0x9000 0x1000 0x2000 0x3000 t) ! 0x80) = 0x3000"
  using idt_handlers [of "0x80" "0x9000" "0x1000" "0x2000" "0x3000"] by (auto simp: Let_def)

end
