(* ===== verification/Path_Parser.thy ===== *)
theory Path_Parser
  imports KHeap CLib_String
begin

text \<open>
  The path parser \<open>fs/path_parser.c\<close>: a path in memory becomes a linked list of \<open>struct
  path_part\<close> objects with one zero-terminated name each. The pointer that the C functions move
  through \<open>const char **\<close> is an argument and part of the result. The literal \<open>"/"\<close> is the list
  of its bytes; \<open>memcmp\<close> with it is 0 exactly when the bytes are equal (\<open>memcmp_eq_0\<close>).
\<close>

definition FILESYSTEM_MAX_PATH_LENGTH :: u32 where "FILESYSTEM_MAX_PATH_LENGTH = 100"
definition FILESYSTEM_ROOT_PATH :: "u8 list" where "FILESYSTEM_ROOT_PATH = [0x2F]"

definition path_format_is_valid :: "memory \<Rightarrow> u32 \<Rightarrow> bool" where
  "path_format_is_valid m filename \<longleftrightarrow>
     (let len = sint (strnlen m filename FILESYSTEM_MAX_PATH_LENGTH);
          root_path_length = length FILESYSTEM_ROOT_PATH
      in len \<ge> int root_path_length \<and> bytes_at m filename root_path_length = FILESYSTEM_ROOT_PATH)"

text \<open>The name that the path starts with (0 at its end) and the rest of the path.\<close>

partial_function (option) get_and_remove_prefix_path ::
    "u32 \<Rightarrow> 'a machine_scheme \<Rightarrow> (u32 \<times> u32 \<times> 'a machine_scheme) option" where
  "get_and_remove_prefix_path parent_path s = do {
     suffix_path \<leftarrow> strchr (mem s) parent_path 0x2F;
     length_of_parent_path \<leftarrow> strlen (mem s) parent_path;
     if suffix_path = 0 \<and> length_of_parent_path = 0 then Some (0, parent_path, s)
     else do {
       let suffix_path = (if suffix_path = 0 \<and> length_of_parent_path \<noteq> 0
         then parent_path + length_of_parent_path else suffix_path);
       let position = suffix_path - parent_path;
       if position = 0 then get_and_remove_prefix_path (parent_path + 1) s
       else do {
         let (path, s) = kzalloc s (position + 1);
         let m = memcpy path parent_path position (mem s);
         let m = m(path + position := 0);
         Some (path, parent_path + position, s\<lparr>mem := m\<rparr>) } } }"

definition parse_one_path_part :: "u32 \<Rightarrow> 'a machine_scheme \<Rightarrow> (u32 \<times> u32 \<times> 'a machine_scheme) option" where
  "parse_one_path_part path s = do {
     (prefix_path, path, s) \<leftarrow> get_and_remove_prefix_path path s;
     if prefix_path = 0 then Some (0, path, s)
     else do {
       let (p, s) = kzalloc_obj s 8 (Obj_part \<lparr>part = 0, next_part = 0\<rparr>);
       x \<leftarrow> part_at s p;
       let s = put_obj p (Obj_part (x\<lparr>next_part := 0, part := prefix_path\<rparr>)) s;
       Some (p, path, s) } }"

partial_function (option) free_parts :: "u32 \<Rightarrow> 'a machine_scheme \<Rightarrow> 'a machine_scheme option" where
  "free_parts p s =
     (if p = 0 then Some s
      else do {
        x \<leftarrow> part_at s p;
        s \<leftarrow> kfree s (part x);
        s \<leftarrow> kfree s p;
        free_parts (next_part x) s })"

definition free_root_path :: "u32 \<Rightarrow> 'a machine_scheme \<Rightarrow> 'a machine_scheme option" where
  "free_root_path root s = do {
     x \<leftarrow> part_at s root;
     s \<leftarrow> free_parts (next_part x) s;
     kfree s root }"

text \<open>The loop that appends the parts after the first; \<open>p\<close> is the last one so far.\<close>

partial_function (option) parse_parts :: "u32 \<Rightarrow> u32 \<Rightarrow> 'a machine_scheme \<Rightarrow> 'a machine_scheme option" where
  "parse_parts p tmp_path s =
     (if p = 0 then Some s
      else do {
        (next, tmp_path, s) \<leftarrow> parse_one_path_part tmp_path s;
        x \<leftarrow> part_at s p;
        let s = put_obj p (Obj_part (x\<lparr>next_part := next\<rparr>)) s;
        parse_parts next tmp_path s })"

definition path_parse :: "u32 \<Rightarrow> 'a machine_scheme \<Rightarrow> (u32 \<times> 'a machine_scheme) option" where
  "path_parse path s =
     (if \<not> path_format_is_valid (mem s) path then Some (0, s)
      else do {
        (root, tmp_path, s) \<leftarrow> parse_one_path_part path s;
        if root = 0 then Some (root, s)
        else do {
          (p, tmp_path, s) \<leftarrow> parse_one_path_part tmp_path s;
          x \<leftarrow> part_at s root;
          let s = put_obj root (Obj_part (x\<lparr>next_part := p\<rparr>)) s;
          s \<leftarrow> parse_parts p tmp_path s;
          Some (root, s) } })"

section \<open>The names of a path\<close>

text \<open>The abstract meaning: split at slashes, drop empty names.\<close>

function names_of :: "u8 list \<Rightarrow> u8 list list" where
  "names_of [] = []"
| "names_of (c # cs) =
     (if c = 0x2F then names_of cs
      else (c # takeWhile (\<lambda>x. x \<noteq> 0x2F) cs) # names_of (dropWhile (\<lambda>x. x \<noteq> 0x2F) cs))"
  by pat_completeness auto
termination
  by (relation "measure length") (auto simp: less_Suc_eq_le length_dropWhile_le)

end
