(* ===== verification/Path_Correct.thy ===== *)
theory Path_Correct
  imports Path_Parser
begin

text \<open>
  Correctness of the path parser: on a path in memory that no allocation can touch, the list
  of parts carries exactly the names between the slashes, each in a block of its own.
\<close>

section \<open>Names\<close>

abbreviation no_slash :: "u8 \<Rightarrow> bool" where
  "no_slash \<equiv> (\<lambda>x. x \<noteq> 0x2F)"


text \<open>A path string that allocations leave alone and that does not wrap around address 0.\<close>

definition path_str :: "'a machine_scheme \<Rightarrow> u32 \<Rightarrow> u8 list \<Rightarrow> bool" where
  "path_str s p cs \<longleftrightarrow> str_at (mem s) p cs \<and> length cs < 4096 \<and> 0 \<notin> addrs p (Suc (length cs)) \<and>
     addrs p (Suc (length cs)) \<inter> kvacant s = {}"

lemma path_str_drop:
  assumes "path_str s p cs" and "i \<le> length cs"
  shows "path_str s (p + of_nat i) (drop i cs)"
proof -
  have "addrs (p + of_nat i) (Suc (length cs) - i) \<subseteq> addrs p (Suc (length cs))"
    using assms by (intro addrs_suffix) (auto simp: path_str_def)
  moreover have "Suc (length cs) - i = Suc (length (drop i cs))" using assms(2) by simp
  ultimately show ?thesis
    using assms str_at_drop [of "mem s" p cs i] by (auto simp: path_str_def)
qed

lemma path_str_grows:
  assumes "path_str s p cs" and g: "grows s s'"
  shows "path_str s' p cs"
proof -
  have safe: "addrs p (Suc (length cs)) \<inter> kvacant s = {}" using assms(1) by (simp add: path_str_def)
  have "str_at (mem s) p cs \<longleftrightarrow> str_at (mem s') p cs"
    using assms(1) growsD(4) [OF g safe] by (intro str_at_frame) (auto simp: path_str_def)
  then show ?thesis using assms(1) growsD(3) [OF g safe] by (simp add: path_str_def)
qed

lemma strchr_path:
  assumes "path_str s p cs"
  shows "strchr (mem s) p 0x2F =
    Some (if 0x2F \<in> set cs then p + of_nat (length (takeWhile no_slash cs)) else 0)"
  using assms strchr_loop_str [of "mem s" p cs "0x2F"] by (simp add: strchr_def path_str_def)

lemma strlen_path:
  assumes "path_str s p cs"
  shows "strlen (mem s) p = Some (of_nat (length cs))" and "(of_nat (length cs) :: u32) = 0 \<longleftrightarrow> cs = []"
proof -
  show "strlen (mem s) p = Some (of_nat (length cs))" using assms by (simp add: path_str_def strlen_str)
  show "(of_nat (length cs) :: u32) = 0 \<longleftrightarrow> cs = []"
    using assms by (subst of_nat_u32_eq_0) (auto simp: path_str_def)
qed

lemma path_nonzero: "path_str s p cs \<Longrightarrow> i \<le> length cs \<Longrightarrow> p + of_nat i \<noteq> 0"
  using in_addrs_offset [of i "Suc (length cs)" p] by (auto simp: path_str_def)

section \<open>Taking a name off the path\<close>

lemma prefix_end: "path_str s p [] \<Longrightarrow> get_and_remove_prefix_path p s = Some (0, p, s)"
  using strchr_path [of s p "[]"] strlen_path [of s p "[]"]
  by (simp add: get_and_remove_prefix_path.simps [of p s])

lemma prefix_slash:
  assumes "path_str s p (0x2F # cs)"
  shows "get_and_remove_prefix_path p s = get_and_remove_prefix_path (p + 1) s"
  using strchr_path [OF assms] strlen_path [OF assms] path_nonzero [OF assms, of 0]
  by (simp add: get_and_remove_prefix_path.simps [of p s])

lemma prefix_name:
  assumes ps: "path_str s p (c # cs)" and c: "c \<noteq> 0x2F"
  defines "n \<equiv> length (takeWhile no_slash (c # cs))"
  shows "get_and_remove_prefix_path p s = (let (q, s1) = kzalloc s (of_nat n + 1) in
    Some (q, p + of_nat n, s1\<lparr>mem := (memcpy q p (of_nat n) (mem s1))(q + of_nat n := 0)\<rparr>))"
proof -
  have n: "n \<le> length (c # cs)" unfolding n_def by (rule length_takeWhile_le)
  have n0: "(of_nat n :: u32) \<noteq> 0"
    using n ps c by (subst of_nat_u32_eq_0) (auto simp: path_str_def n_def)
  define suffix where "suffix = (if 0x2F \<in> set (c # cs) then p + of_nat n else 0)"
  have all: "n = length (c # cs)" if "0x2F \<notin> set (c # cs)"
  proof -
    have "takeWhile no_slash (c # cs) = c # cs" using that by (intro takeWhile_eq_all_conv [THEN iffD2]) auto
    then show ?thesis by (simp only: n_def)
  qed
  have strchr: "strchr (mem s) p 0x2F = Some suffix" using strchr_path [OF ps] by (simp only: suffix_def n_def)
  have "(if suffix = 0 \<and> (of_nat (length (c # cs)) :: u32) \<noteq> 0 then p + of_nat (length (c # cs)) else suffix) = p + of_nat n"
    using path_nonzero [OF ps n] strlen_path(2) [OF ps] all by (auto simp: suffix_def)
  moreover have "\<not> (suffix = 0 \<and> (of_nat (length (c # cs)) :: u32) = 0)" using strlen_path(2) [OF ps] by simp
  ultimately show ?thesis
    using strchr strlen_path(1) [OF ps] n0
    by (subst get_and_remove_prefix_path.simps) (simp only: bind.bind_lunit Let_def if_False split_def simp_thms add_diff_cancel_left')
qed

text \<open>What taking a name off the path gives: a block with the name, and the rest of the path.\<close>

definition name_taken :: "'a machine_scheme \<Rightarrow> u8 list \<Rightarrow> u8 list list \<Rightarrow> u32 \<Rightarrow> u32 \<Rightarrow> 'a machine_scheme \<Rightarrow> bool" where
  "name_taken s n ns q p' s' \<longleftrightarrow> q \<noteq> 0 \<and> grows s s' \<and> kroom s = kroom s' + 1 \<and>
     klive s q = None \<and> klive s' = (klive s)(q \<mapsto> 1) \<and> objs s' = objs s \<and>
     con s' = con s \<and> machine.more s' = machine.more s \<and> length n < 4096 \<and> str_at (mem s') q n \<and>
     addrs q 4096 \<subseteq> kvacant s \<and> (\<exists>cs'. path_str s' p' cs' \<and> names_of cs' = ns)"

lemma prefix_copy:
  assumes ok: "machine_ok s" and ps: "path_str s p (c # cs)" and c: "c \<noteq> 0x2F" and room: "0 < kroom s"
  defines "n \<equiv> length (takeWhile no_slash (c # cs))"
  shows "\<exists>q s'. get_and_remove_prefix_path p s = Some (q, p + of_nat n, s') \<and>
    name_taken s (takeWhile no_slash (c # cs)) (names_of (dropWhile no_slash (c # cs))) q (p + of_nat n) s'"
proof -
  let ?name = "takeWhile no_slash (c # cs)"
  have n: "n \<le> length (c # cs)" "n < 4096" unfolding n_def
    using ps length_takeWhile_le [of no_slash "c # cs"] by (auto simp: path_str_def)
  have un: "unat (of_nat n :: u32) = n" "unat (of_nat n + 1 :: u32) = n + 1"
    using n unat_of_nat_u32 [of n] unat_of_nat_u32 [of "n + 1"] by (simp_all add: add.commute)
  obtain q s1 where a: "kzalloc s (of_nat n + 1) = (q, s1)" by fastforce
  have ok': "kheap_ok s" using ok by (rule machine_okD)
  have size: "0 < (of_nat n + 1 :: u32)" "(of_nat n + 1 :: u32) \<le> 4096"
    using un(2) n by (simp_all only: word_less_nat_alt word_le_nat_alt) simp_all
  have q: "q \<noteq> 0" using kz.alloc_one [OF ok' size room] a by simp
  note k = kz.alloc_some [OF ok' a q] kz.alloc_room [OF ok' a q] kzalloc_frame [OF a] kzalloc_more [OF a]
    kz.alloc_vacant [OF ok' a q]
  note g = kzalloc_grows [OF ok a]
  have one: "blocks_for (of_nat n + 1) = 1" by (rule blocks_for_one [OF size])
  define m where "m = (memcpy q p (of_nat n) (mem s1))(q + of_nat n := 0)"
  let ?s' = "s1\<lparr>mem := m\<rparr>"
  have get: "get_and_remove_prefix_path p s = Some (q, p + of_nat n, ?s')"
    using prefix_name [OF ps c] a by (simp add: n_def m_def)
  have block: "addrs q (n + 1) \<subseteq> kvacant s"
    using k(5) addrs_mono [of "n + 1" 4096 q] n one by auto
  have src: "addrs p (n + 1) \<inter> kvacant s = {}" "addrs p (n + 1) \<subseteq> addrs p (Suc (length (c # cs)))"
    using ps n addrs_mono [of "n + 1" "Suc (length (c # cs))" p] by (auto simp: path_str_def)
  have apart: "addrs q (unat (of_nat n :: u32)) \<inter> addrs p (unat (of_nat n :: u32)) = {}"
  proof -
    have "addrs q n \<subseteq> addrs q (n + 1)" "addrs p n \<subseteq> addrs p (n + 1)" by (rule addrs_mono; simp)+
    then show ?thesis using block src(1) unfolding un(1) by blast
  qed
  have copy: "memcpy q p (of_nat n) (mem s1) a = (if a \<in> addrs q n then mem s1 (p + (a - q)) else mem s1 a)" for a
    using memcpy_apply [OF apart] by (simp only: un(1))
  have "m a = mem s1 a" if "a \<notin> addrs q (n + 1)" for a
    using that addrs_Suc [of n q] n by (auto simp: m_def copy)
  then have grows': "grows s ?s'" using g block by (intro grows_mem) auto
  have "str_at m q ?name"
  proof (rule str_atI)
    fix i assume i: "i < length ?name"
    then have i': "i < n" "i < length (c # cs)" using n by (auto simp: n_def)
    have "q + of_nat i \<noteq> q + of_nat n"
      using i' n offset_eq_iff [of n "q + of_nat i" q] unat_of_nat_u32 [of i] by auto
    then have "m (q + of_nat i) = mem s1 (p + of_nat i)"
      using in_addrs_offset [of i n q] i' n by (simp add: m_def copy)
    also have "\<dots> = mem s (p + of_nat i)"
      using growsD(4) [OF g src(1)] in_addrs_offset [of i "n + 1" p] i' n by simp
    also have "\<dots> = (c # cs) ! i"
      using ps str_at_nth [of "mem s" p "c # cs" i] i' by (simp only: path_str_def)
    also have "\<dots> = ?name ! i" using i by (simp only: takeWhile_nth)
    finally show "m (q + of_nat i) = ?name ! i \<and> ?name ! i \<noteq> 0"
      using ps str_at_nth [of "mem s" p "c # cs" i] i i' by (simp only: path_str_def takeWhile_nth) simp
  qed (use n in \<open>simp_all add: m_def n_def\<close>)
  moreover have "path_str ?s' (p + of_nat n) (dropWhile no_slash (c # cs))"
    using path_str_grows [OF path_str_drop [OF ps n(1)] grows'] by (simp only: n_def dropWhile_eq_drop)
  ultimately have "name_taken s ?name (names_of (dropWhile no_slash (c # cs))) q (p + of_nat n) ?s'"
    using q grows' k one n(2) unfolding name_taken_def n_def by auto
  then show ?thesis using get by blast
qed

lemma prefix_names:
  assumes ok: "machine_ok s" and ps: "path_str s p cs"
  shows "names_of cs = [] \<Longrightarrow> \<exists>p'. get_and_remove_prefix_path p s = Some (0, p', s)"
    and "names_of cs = n # ns \<Longrightarrow> 0 < kroom s \<Longrightarrow>
      \<exists>q p' s'. get_and_remove_prefix_path p s = Some (q, p', s') \<and> name_taken s n ns q p' s'"
  using ps
proof (induction cs arbitrary: p)
  case Nil
  { case 1 then show ?case using prefix_end by blast }
  { case 2 then show ?case by simp }
next
  case (Cons c cs)
  have drop: "path_str s (p + 1) cs" if "path_str s p (c # cs)" for p
    using path_str_drop [OF that, of 1] by simp
  { case 1
    then have "c = 0x2F" "names_of cs = []" by (simp_all split: if_splits)
    then show ?case using 1(2) Cons.IH(1) [OF _ drop [OF 1(2)]] prefix_slash [of s p cs] by simp }
  { case 2 then show ?case
    proof (cases "c = 0x2F")
      case True
      then show ?thesis using 2 Cons.IH(2) [OF _ _ drop [OF 2(3)]] prefix_slash [of s p cs] by simp
    next
      case False
      then show ?thesis using 2(1) prefix_copy [OF ok 2(3) False 2(2)] by auto
    qed }
qed

section \<open>The list of parts\<close>

text \<open>A part at \<open>p\<close> whose name \<open>n\<close> is at \<open>q\<close>; a list of parts with its names and its blocks.\<close>

definition part_node :: "'a machine_scheme \<Rightarrow> u32 \<Rightarrow> u32 \<Rightarrow> u32 \<Rightarrow> u8 list \<Rightarrow> bool" where
  "part_node s p q nx n \<longleftrightarrow> p \<noteq> 0 \<and> objs s p = Some (Obj_part \<lparr>part = q, next_part = nx\<rparr>) \<and>
     klive s p = Some 1 \<and> klive s q = Some 1 \<and> length n < 4096 \<and> str_at (mem s) q n"

fun name_parts :: "'a machine_scheme \<Rightarrow> u32 \<Rightarrow> u8 list list \<Rightarrow> u32 list \<Rightarrow> bool" where
  "name_parts s p [] bs \<longleftrightarrow> p = 0 \<and> bs = []"
| "name_parts s p (n # ns) bs \<longleftrightarrow>
     (\<exists>q nx bs'. part_node s p q nx n \<and> name_parts s nx ns bs' \<and> bs = p # q # bs')"

lemma part_node_grows:
  assumes node: "part_node s p q nx n" and ok: "machine_ok s" and g: "grows s s'" and o: "objs s' p = objs s p"
  shows "part_node s' p q nx n"
proof -
  have q: "klive s q = Some 1" "klive s p = Some 1" "length n < 4096" "str_at (mem s) q n"
    using node by (simp_all add: part_node_def)
  have "addrs q (4096 * 1) \<inter> kvacant s = {}" by (rule kz.live_vacant [OF machine_okD [OF ok] q(1)])
  then have "mem s a = mem s' a" if "a \<in> addrs q (Suc (length n))" for a
    using that addrs_mono [of "Suc (length n)" 4096 q] q(3) growsD(4) [OF g, of "addrs q 4096"] by auto
  then have "str_at (mem s') q n"
    using q(3,4) by (intro iffD1 [OF str_at_frame [of n q "mem s" "mem s'"]]) auto
  then show ?thesis
    using node o growsD(2) [OF g q(1)] growsD(2) [OF g q(2)] by (simp add: part_node_def)
qed

lemma parse_one_end:
  assumes "machine_ok s" and "path_str s t cs" and "names_of cs = []"
  shows "\<exists>t'. parse_one_path_part t s = Some (0, t', s)"
  using prefix_names(1) [OF assms] by (auto simp: parse_one_path_part_def)

lemma parse_one_name:
  assumes ok: "machine_ok s" and ps: "path_str s t cs" and cs: "names_of cs = n # ns" and room: "2 \<le> kroom s"
  shows "\<exists>p q t' cs' s'. parse_one_path_part t s = Some (p, t', s') \<and> grows s s' \<and> kroom s = kroom s' + 2 \<and>
    klive s p = None \<and> klive s q = None \<and> p \<noteq> q \<and> klive s' = (klive s)(p \<mapsto> 1, q \<mapsto> 1) \<and>
    objs s' = (objs s)(p \<mapsto> Obj_part \<lparr>part = q, next_part = 0\<rparr>) \<and> part_node s' p q 0 n \<and>
    path_str s' t' cs' \<and> names_of cs' = ns \<and> con s' = con s \<and> machine.more s' = machine.more s \<and>
    addrs q 4096 \<subseteq> kvacant s"
proof -
  obtain q t' s1 where 1: "get_and_remove_prefix_path t s = Some (q, t', s1)" "name_taken s n ns q t' s1"
    using prefix_names(2) [OF ok ps cs] room by auto
  have g1: "grows s s1" and rm1: "kroom s = kroom s1 + 1" and live1: "klive s1 = (klive s)(q \<mapsto> 1)"
    and q: "q \<noteq> 0" "klive s q = None" "length n < 4096" "str_at (mem s1) q n"
    and o1: "objs s1 = objs s" "con s1 = con s" "machine.more s1 = machine.more s" "addrs q 4096 \<subseteq> kvacant s"
    using 1(2) by (simp_all add: name_taken_def)
  obtain cs' where cs': "path_str s1 t' cs'" "names_of cs' = ns" using 1(2) by (auto simp: name_taken_def)
  have ok1: "machine_ok s1" by (rule growsD(1) [OF g1])
  obtain p s2 where 2: "kzalloc_obj s1 8 (Obj_part \<lparr>part = 0, next_part = 0\<rparr>) = (p, s2)" "p \<noteq> 0" "grows s1 s2"
    "kroom s1 = kroom s2 + 1" "klive s1 p = None" "klive s2 = (klive s1)(p \<mapsto> 1)"
    "objs s2 = (objs s1)(p \<mapsto> Obj_part \<lparr>part = 0, next_part = 0\<rparr>)" "con s2 = con s1" "machine.more s2 = machine.more s1"
    using kzalloc_obj_fits [OF ok1, of 8] room rm1 by fastforce
  let ?s3 = "put_obj p (Obj_part \<lparr>part = q, next_part = 0\<rparr>) s2"
  have parse: "parse_one_path_part t s = Some (p, t', ?s3)"
    using 1(1) 2(1,7) q(1) by (simp add: parse_one_path_part_def part_at_def)
  have g3: "grows s1 ?s3" using 2(3,6) by (intro grows_put_obj) auto
  have pq: "p \<noteq> q" using 2(5) live1 by auto
  have vac: "addrs q (4096 * 1) \<inter> kvacant s1 = {}"
    using kz.live_vacant [OF machine_okD [OF ok1], of q 1] live1 by simp
  then have "mem s1 a = mem ?s3 a" if "a \<in> addrs q (Suc (length n))" for a
    using that addrs_mono [of "Suc (length n)" 4096 q] q(3) growsD(4) [OF g3, of "addrs q 4096"] by auto
  then have "str_at (mem ?s3) q n"
    using q(3,4) by (intro iffD1 [OF str_at_frame [of n q "mem s1" "mem ?s3"]]) auto
  then have "part_node ?s3 p q 0 n" using 2(2,6) q(3) pq live1 by (simp add: part_node_def)
  moreover have "machine.more ?s3 = machine.more s" using 2(9) o1 by (simp add: put_obj_def)
  moreover have "klive ?s3 = (klive s)(p \<mapsto> 1, q \<mapsto> 1)" using 2(6) live1 pq by auto
  moreover have "klive s p = None" using 2(5) live1 pq by (auto split: if_splits)
  ultimately show ?thesis
    using parse grows_trans [OF g1 g3] rm1 2 q(2) pq o1 path_str_grows [OF cs'(1) g3] cs'(2)
    by (intro exI [of _ p] exI [of _ q] exI [of _ t'] exI [of _ cs'] exI [of _ ?s3]) simp
qed

lemma name_parts_grows:
  assumes "name_parts s p ns bs" and "machine_ok s" and "grows s s'"
    and "\<And>r. r \<in> set bs \<Longrightarrow> objs s' r = objs s r"
  shows "name_parts s' p ns bs"
  using assms(1,4)
proof (induction ns arbitrary: p bs)
  case (Cons n ns)
  then obtain q nx bs' where 1: "part_node s p q nx n" "name_parts s nx ns bs'" "bs = p # q # bs'" by auto
  have "part_node s' p q nx n" using part_node_grows [OF 1(1) assms(2,3)] Cons.prems(2) 1(3) by simp
  moreover have "name_parts s' nx ns bs'" using Cons.IH [OF 1(2)] Cons.prems(2) 1(3) by simp
  ultimately show ?case using 1(3) by auto
qed simp

text \<open>
  What the loop does from the last part \<open>p\<close>: it appends one part for every name that is left,
  in blocks \<open>bs\<close> that were free, and changes no other object.
\<close>

definition parts_added :: "'a machine_scheme \<Rightarrow> u32 \<Rightarrow> u8 list list \<Rightarrow> u32 \<Rightarrow> u32 list \<Rightarrow> 'a machine_scheme \<Rightarrow> bool" where
  "parts_added s p ns nx bs s' \<longleftrightarrow> grows s s' \<and> name_parts s' nx ns bs \<and> distinct bs \<and>
     (\<forall>b \<in> set bs. klive s b = None) \<and> klive s' = (\<lambda>r. if r \<in> set bs then Some 1 else klive s r) \<and>
     kroom s = kroom s' + 2 * length ns \<and> (\<forall>r. r \<noteq> p \<and> r \<notin> set bs \<longrightarrow> objs s' r = objs s r) \<and>
     con s' = con s \<and> machine.more s' = machine.more s"

lemma parse_parts_spec:
  assumes "machine_ok s" and "part_node s p q 0 n" and "path_str s t cs" and "2 * length (names_of cs) \<le> kroom s"
  shows "\<exists>nx bs s'. parse_parts p t s = Some s' \<and> part_node s' p q nx n \<and> parts_added s p (names_of cs) nx bs s'"
  using assms
proof (induction "names_of cs" arbitrary: s p q n t cs)
  case Nil
  have p: "p \<noteq> 0" "objs s p = Some (Obj_part \<lparr>part = q, next_part = 0\<rparr>)" using Nil.prems(2) by (simp_all add: part_node_def)
  obtain t' where "parse_one_path_part t s = Some (0, t', s)"
    using parse_one_end [OF Nil.prems(1,3)] Nil.hyps by auto
  then have "parse_parts p t s = Some s"
    using p by (simp add: parse_parts.simps [of p] parse_parts.simps [of 0] part_at_def put_obj_same)
  then show ?case
    using Nil.prems Nil.hyps [symmetric]
    by (intro exI [of _ 0] exI [of _ "[]"] exI [of _ s]) (simp add: parts_added_def grows_refl)
next
  case (Cons n2 ns)
  have p: "p \<noteq> 0" "objs s p = Some (Obj_part \<lparr>part = q, next_part = 0\<rparr>)" "klive s p = Some 1" "klive s q = Some 1"
    using Cons.prems(2) by (simp_all add: part_node_def)
  have len: "2 + 2 * length ns \<le> kroom s" using Cons.prems(4) Cons.hyps(2) [symmetric] by simp
  obtain r q2 t' cs' s1 where 1: "parse_one_path_part t s = Some (r, t', s1)" "grows s s1" "kroom s = kroom s1 + 2"
    "klive s r = None" "klive s q2 = None" "r \<noteq> q2" "klive s1 = (klive s)(r \<mapsto> 1, q2 \<mapsto> 1)"
    "objs s1 = (objs s)(r \<mapsto> Obj_part \<lparr>part = q2, next_part = 0\<rparr>)" "part_node s1 r q2 0 n2"
    "path_str s1 t' cs'" "names_of cs' = ns" "con s1 = con s" "machine.more s1 = machine.more s"
    using parse_one_name [OF Cons.prems(1,3) Cons.hyps(2) [symmetric]] len by auto
  let ?s2 = "put_obj p (Obj_part \<lparr>part = q, next_part = r\<rparr>) s1"
  have ok1: "machine_ok s1" by (rule growsD(1) [OF 1(2)])
  have g2: "grows s1 ?s2" using growsD(2) [OF 1(2) p(3)] by (intro grows_put_obj grows_refl [OF ok1]) simp
  have ok2: "machine_ok ?s2" by (rule growsD(1) [OF g2])
  have rp: "r \<noteq> p" using 1(4) p(3) by auto
  have node2: "part_node ?s2 r q2 0 n2" using part_node_grows [OF 1(9) ok1 g2] rp by simp
  have "part_node s1 p q 0 n" using part_node_grows [OF Cons.prems(2,1) 1(2)] 1(8) rp by simp
  then have nodep: "part_node ?s2 p q r n" by (simp add: part_node_def)
  obtain nx bs s3 where 3: "parse_parts r t' ?s2 = Some s3" "part_node s3 r q2 nx n2" "parts_added ?s2 r ns nx bs s3"
    using Cons.hyps(1) [OF 1(11) [symmetric] ok2 node2 path_str_grows [OF 1(10) g2]] len 1(3,11) by auto
  have g3: "grows ?s2 s3" and bs: "\<forall>b \<in> set bs. klive s1 b = None" "distinct bs" "name_parts s3 nx ns bs"
    and live3: "klive s3 = (\<lambda>x. if x \<in> set bs then Some 1 else klive s1 x)"
    using 3(3) by (simp_all add: parts_added_def cong: if_cong)
  have fresh: "p \<notin> set bs" "r \<notin> set bs" "q2 \<notin> set bs" using bs(1) 1(6,7) p(3) rp by (auto split: if_splits)
  have "objs s3 p = objs ?s2 p" using 3(3) fresh rp by (simp add: parts_added_def)
  then have "part_node s3 p q r n" by (rule part_node_grows [OF nodep ok2 g3])
  moreover have "parse_parts p t s = Some s3"
    using p(1,2) 1(1,8) 3(1) rp by (simp add: parse_parts.simps [of p] part_at_def)
  moreover have "parts_added s p (n2 # ns) r (r # q2 # bs) s3"
    unfolding parts_added_def
  proof (intro conjI)
    show "grows s s3" by (rule grows_trans [OF 1(2) grows_trans [OF g2 g3]])
    show "name_parts s3 r (n2 # ns) (r # q2 # bs)" using 3(2) bs(3) by auto
    show "distinct (r # q2 # bs)" using bs(2) fresh 1(6) by simp
    show "\<forall>b \<in> set (r # q2 # bs). klive s b = None" using bs(1) 1(4,5,7) by (auto split: if_splits)
    show "klive s3 = (\<lambda>x. if x \<in> set (r # q2 # bs) then Some 1 else klive s x)" using live3 1(7) by auto
    show "\<forall>x. x \<noteq> p \<and> x \<notin> set (r # q2 # bs) \<longrightarrow> objs s3 x = objs s x"
      using 3(3) 1(8) by (simp add: parts_added_def)
  qed (use 3(3) 1(3,12,13) in \<open>simp_all add: parts_added_def\<close>)
  ultimately show ?case using Cons.hyps(2) by auto
qed

lemma length_names_of: "length (names_of cs) \<le> length cs"
proof (induction cs rule: names_of.induct)
  case (2 c cs)
  have "length (dropWhile no_slash cs) \<le> length cs" by (rule length_dropWhile_le)
  then show ?case using 2 by (cases "c = 0x2F") auto
qed simp

text \<open>
  \<open>path_parse\<close> on an absolute path: NULL and no change when the path has no name, else the list
  of its names in fresh blocks. A path that does not start with a slash is refused.
\<close>

lemma path_format:
  assumes "path_str s path cs"
  shows "path_format_is_valid (mem s) path \<longleftrightarrow> (\<exists>r. cs = 0x2F # r)"
proof (cases cs)
  case Nil
  then show ?thesis
    using assms strnlen_str [of "mem s" path cs] by (simp add: path_format_is_valid_def path_str_def FILESYSTEM_ROOT_PATH_def)
next
  case (Cons c r)
  have "sint (of_nat (min 100 (length cs)) :: u32) = int (min 100 (length cs))"
    by (rule sint_of_nat_u32) simp
  then show ?thesis
    using assms Cons strnlen_str [of "mem s" path cs 100]
    by (simp add: path_format_is_valid_def path_str_def FILESYSTEM_ROOT_PATH_def FILESYSTEM_MAX_PATH_LENGTH_def bytes_at_def)
qed

lemma path_parse_parts:
  "path_format_is_valid (mem s) path \<Longrightarrow> parse_one_path_part path s = Some (root, t, s1) \<Longrightarrow>
   path_parse path s = (if root = 0 then Some (0, s1) else map_option (Pair root) (parse_parts root t s1))"
  by (auto simp: path_parse_def parse_parts.simps [of root] split: Option.bind_split)

lemma path_parse_invalid:
  assumes "path_str s path cs" and "\<And>r. cs \<noteq> 0x2F # r"
  shows "path_parse path s = Some (0, s)"
  using path_format [OF assms(1)] assms(2) by (auto simp: path_parse_def)

lemma path_parse_root:
  assumes "machine_ok s" and "path_str s path (0x2F # cs)" and "names_of cs = []"
  shows "path_parse path s = Some (0, s)"
proof -
  obtain t where "parse_one_path_part path s = Some (0, t, s)"
    using parse_one_end [OF assms(1,2)] assms(3) by auto
  then show ?thesis using path_format [OF assms(2)] path_parse_parts by fastforce
qed

lemma path_parse_names:
  assumes ok: "machine_ok s" and ps: "path_str s path (0x2F # cs)" and ns: "names_of cs = n # ns"
    and room: "2 * length (n # ns) \<le> kroom s"
  shows "\<exists>root q bs s'. path_parse path s = Some (root, s') \<and> root \<noteq> 0 \<and> grows s s' \<and>
    name_parts s' root (n # ns) (root # q # bs) \<and> distinct (root # q # bs) \<and>
    (\<forall>b \<in> set (root # q # bs). klive s b = None) \<and>
    klive s' = (\<lambda>r. if r \<in> set (root # q # bs) then Some 1 else klive s r) \<and>
    (\<forall>r. r \<notin> set (root # q # bs) \<longrightarrow> objs s' r = objs s r) \<and>
    con s' = con s \<and> machine.more s' = machine.more s \<and> addrs q 4096 \<subseteq> kvacant s \<and>
    kroom s = kroom s' + 2 * length (n # ns)"
proof -
  obtain root q t cs' s1 where 1: "parse_one_path_part path s = Some (root, t, s1)" "grows s s1" "kroom s = kroom s1 + 2"
    "klive s root = None" "klive s q = None" "root \<noteq> q" "klive s1 = (klive s)(root \<mapsto> 1, q \<mapsto> 1)"
    "objs s1 = (objs s)(root \<mapsto> Obj_part \<lparr>part = q, next_part = 0\<rparr>)" "part_node s1 root q 0 n"
    "path_str s1 t cs'" "names_of cs' = ns" "con s1 = con s" "machine.more s1 = machine.more s"
    "addrs q 4096 \<subseteq> kvacant s"
    using parse_one_name [OF ok ps, of n ns] ns room by auto
  have root: "root \<noteq> 0" using 1(9) by (simp add: part_node_def)
  have ok1: "machine_ok s1" by (rule growsD(1) [OF 1(2)])
  obtain nx bs s2 where 2: "parse_parts root t s1 = Some s2" "part_node s2 root q nx n" "parts_added s1 root ns nx bs s2"
    using parse_parts_spec [OF ok1 1(9,10)] room 1(3,11) by auto
  have parse: "path_parse path s = Some (root, s2)"
    using path_format [OF ps] path_parse_parts [OF _ 1(1)] root 2(1) by simp
  have g2: "grows s1 s2" and bs: "name_parts s2 nx ns bs" "distinct bs" "\<forall>b \<in> set bs. klive s1 b = None"
    "klive s2 = (\<lambda>r. if r \<in> set bs then Some 1 else klive s1 r)"
    "\<forall>r. r \<noteq> root \<and> r \<notin> set bs \<longrightarrow> objs s2 r = objs s1 r" "con s2 = con s1" "machine.more s2 = machine.more s1"
    "kroom s1 = kroom s2 + 2 * length ns"
    using 2(3) by (simp_all add: parts_added_def)
  have fresh: "root \<notin> set bs" "q \<notin> set bs" using bs(3) 1(6,7) by auto
  show ?thesis
  proof (intro exI conjI)
    show "path_parse path s = Some (root, s2)" by (rule parse)
    show "grows s s2" by (rule grows_trans [OF 1(2) g2])
    show "name_parts s2 root (n # ns) (root # q # bs)" using 2(2) bs(1) by auto
    show "distinct (root # q # bs)" using bs(2) fresh 1(6) by simp
    show "\<forall>b \<in> set (root # q # bs). klive s b = None" using bs(3) 1(4,5,7) by (auto split: if_splits)
    show "klive s2 = (\<lambda>r. if r \<in> set (root # q # bs) then Some 1 else klive s r)"
      using bs(4) 1(7) by auto
    show "\<forall>r. r \<notin> set (root # q # bs) \<longrightarrow> objs s2 r = objs s r" using bs(5) 1(8) by simp
  qed (use root bs(6-8) 1(3,12-14) in simp_all)
qed

section \<open>Freeing the list\<close>

lemma name_parts_kfree:
  assumes "name_parts s p ns bs" and "b \<notin> set bs" and "kfree s b = Some s'" and "klive s' = (klive s)(b := None)"
  shows "name_parts s' p ns bs"
  using assms(1,2)
proof (induction ns arbitrary: p bs)
  case (Cons n ns)
  then obtain q nx bs' where 1: "part_node s p q nx n" "name_parts s nx ns bs'" "bs = p # q # bs'" by auto
  have "part_node s' p q nx n"
    using 1 Cons.prems(2) assms(4) kfree_mem [OF assms(3)] kfree_frame [OF assms(3)] by (auto simp: part_node_def)
  moreover have "name_parts s' nx ns bs'" using Cons.IH [OF 1(2)] Cons.prems(2) 1(3) by simp
  ultimately show ?case using 1(3) by auto
qed simp

lemma free_parts_spec:
  assumes "machine_ok s" and "name_parts s p ns bs" and "distinct bs"
  shows "\<exists>s'. free_parts p s = Some s' \<and> machine_ok s' \<and> klive s' = (\<lambda>r. if r \<in> set bs then None else klive s r) \<and>
    (\<forall>r. r \<notin> set bs \<longrightarrow> objs s' r = objs s r) \<and> mem s' = mem s"
  using assms
proof (induction ns arbitrary: p bs s)
  case Nil
  then show ?case by (simp add: free_parts.simps [of 0])
next
  case (Cons n ns)
  then obtain q nx bs' where 1: "part_node s p q nx n" "name_parts s nx ns bs'" "bs = p # q # bs'" by auto
  have d: "distinct bs'" "p \<noteq> q" "p \<notin> set bs'" "q \<notin> set bs'" using Cons.prems(3) 1(3) by auto
  have node: "p \<noteq> 0" "objs s p = Some (Obj_part \<lparr>part = q, next_part = nx\<rparr>)" "klive s p = Some 1" "klive s q = Some 1"
    using 1(1) by (simp_all add: part_node_def)
  obtain s1 where 2: "kfree s q = Some s1" "machine_ok s1" "klive s1 = (klive s)(q := None)"
    using kfree_machine_ok [OF Cons.prems(1) node(4)] by blast
  have "klive s1 p = Some 1" using 2(3) node(3) d by simp
  then obtain s2 where 3: "kfree s1 p = Some s2" "machine_ok s2" "klive s2 = (klive s1)(p := None)"
    using kfree_machine_ok [OF 2(2)] by blast
  have "name_parts s2 nx ns bs'"
    by (rule name_parts_kfree [OF name_parts_kfree [OF 1(2) d(4) 2(1,3)] d(3) 3(1,3)])
  from Cons.IH [OF 3(2) this d(1)] obtain s3 where 4: "free_parts nx s2 = Some s3" "machine_ok s3"
    "klive s3 = (\<lambda>r. if r \<in> set bs' then None else klive s2 r)" "\<forall>r. r \<notin> set bs' \<longrightarrow> objs s3 r = objs s2 r" "mem s3 = mem s2"
    by auto
  have "free_parts p s = Some s3"
    using node(1,2) 2(1) 3(1) 4(1) by (simp add: free_parts.simps [of p] part_at_def)
  then show ?case
    using 4 2(3) 3(3) kfree_frame [OF 2(1)] kfree_frame [OF 3(1)] kfree_mem [OF 2(1)] kfree_mem [OF 3(1)]
    by (auto simp: 1(3) fun_eq_iff)
qed

text \<open>\<open>free_root_path\<close> frees every block of the list but the one with the first name.\<close>

lemma free_root_path_spec:
  assumes ok: "machine_ok s" and parts: "name_parts s root (n # ns) (root # q # bs)" and d: "distinct (root # q # bs)"
  shows "\<exists>s'. free_root_path root s = Some s' \<and> machine_ok s' \<and>
    klive s' = (\<lambda>r. if r \<in> set (root # bs) then None else klive s r) \<and> mem s' = mem s"
proof -
  obtain nx where 1: "part_node s root q nx n" "name_parts s nx ns bs" using parts by auto
  obtain s1 where 2: "free_parts nx s = Some s1" "machine_ok s1" "klive s1 = (\<lambda>r. if r \<in> set bs then None else klive s r)"
    "mem s1 = mem s"
    using free_parts_spec [OF ok 1(2)] d by auto
  have "klive s1 root = Some 1" using 1(1) 2(3) d by (simp add: part_node_def)
  then obtain s2 where 3: "kfree s1 root = Some s2" "machine_ok s2" "klive s2 = (klive s1)(root := None)"
    using kfree_machine_ok [OF 2(2)] by blast
  have "free_root_path root s = Some s2"
    using 1(1) 2(1) 3(1) by (simp add: free_root_path_def part_at_def part_node_def)
  then show ?thesis using 2(3,4) 3 kfree_mem [OF 3(1)] by (auto simp: fun_eq_iff)
qed

end
