(* ===== verification/Path_Properties.thy ===== *)
theory Path_Properties
  imports Path_Correct Heap_Properties
begin

text \<open>
  What the path parser promises: it refines the function that splits a path at its slashes, it
  reads back the names of a path that was put together from them, and freeing its list leaves
  one block behind. \<open>path_machine\<close> holds the path \<open>"/a//bc"\<close> at address 16 and four free blocks.
\<close>

section \<open>The abstract parser\<close>

text \<open>The names of a path string; none for a path that does not start at the root.\<close>

definition path_names :: "u8 list \<Rightarrow> u8 list list" where
  "path_names cs = (case cs of c # r \<Rightarrow> if c = 0x2F then names_of r else [] | [] \<Rightarrow> [])"

text \<open>The path with given names.\<close>

definition path_of_names :: "u8 list list \<Rightarrow> u8 list" where
  "path_of_names ns = concat (map ((#) 0x2F) ns)"

lemma names_of_append_slash:
  assumes "0x2F \<notin> set n" and "n \<noteq> []"
  shows "names_of (n @ 0x2F # cs) = n # names_of cs" and "names_of n = [n]"
proof -
  obtain c r where n: "n = c # r" "c \<noteq> 0x2F" "0x2F \<notin> set r" using assms by (cases n) auto
  have w: "takeWhile no_slash (r @ 0x2F # cs) = r" "dropWhile no_slash (r @ 0x2F # cs) = 0x2F # cs"
    "takeWhile no_slash r = r" "dropWhile no_slash r = []"
    using n(3) by (auto simp: takeWhile_append takeWhile_eq_all_conv dropWhile_append dropWhile_eq_Nil_conv)
  show "names_of (n @ 0x2F # cs) = n # names_of cs" "names_of n = [n]"
    using n(2) by (simp_all only: n(1) append_Cons names_of.simps if_False w) simp
qed

lemma names_of_path:
  "\<forall>n \<in> set (n # ns). n \<noteq> [] \<and> 0x2F \<notin> set n \<Longrightarrow> names_of (n @ path_of_names ns) = n # ns"
proof (induction ns arbitrary: n)
  case Nil
  then show ?case using names_of_append_slash(2) by (simp add: path_of_names_def)
next
  case (Cons n2 ns)
  then show ?case using names_of_append_slash(1) [of n] by (simp add: path_of_names_def)
qed

lemma path_names_of_names:
  "\<forall>n \<in> set ns. n \<noteq> [] \<and> 0x2F \<notin> set n \<Longrightarrow> path_names (path_of_names ns) = ns"
  using names_of_path by (cases ns) (auto simp: path_names_def path_of_names_def)

section \<open>Parsing\<close>

text \<open>
  C7. \<open>path_parse\<close> refines the function that splits a path at its slashes and
  drops empty names: it returns the list of the names in fresh blocks, NULL for a path without
  names or without a leading slash, and leaves every other object and allocation alone.
\<close>

lemma path_parse_refines:
  assumes "machine_ok s" and "path_str s path cs" and "2 * length (path_names cs) \<le> kroom s"
  shows "\<exists>root bs s'. path_parse path s = Some (root, s') \<and> name_parts s' root (path_names cs) bs \<and>
    machine_ok s' \<and> grows s s' \<and> distinct bs \<and> (\<forall>b \<in> set bs. klive s b = None) \<and>
    klive s' = (\<lambda>r. if r \<in> set bs then Some 1 else klive s r) \<and> (\<forall>r. r \<notin> set bs \<longrightarrow> objs s' r = objs s r)"
proof (cases "path_names cs")
  case Nil
  have "path_parse path s = Some (0, s)"
  proof (cases "\<exists>r. cs = 0x2F # r")
    case True
    then show ?thesis using path_parse_root [OF assms(1)] assms(2) Nil by (auto simp: path_names_def)
  next
    case False
    then show ?thesis using path_parse_invalid [OF assms(2)] by blast
  qed
  then show ?thesis
    using assms(1) Nil by (intro exI [of _ 0] exI [of _ "[]"] exI [of _ s]) (simp add: grows_refl)
next
  case (Cons n ns)
  then obtain r where r: "cs = 0x2F # r" "names_of r = n # ns"
    by (auto simp: path_names_def split: list.splits if_splits)
  have room: "2 * length (n # ns) \<le> kroom s" using assms(3) Cons by simp
  obtain root q bs s' where p: "path_parse path s = Some (root, s')" "grows s s'"
    "name_parts s' root (n # ns) (root # q # bs)" "distinct (root # q # bs)"
    "\<forall>b \<in> set (root # q # bs). klive s b = None"
    "klive s' = (\<lambda>r. if r \<in> set (root # q # bs) then Some 1 else klive s r)"
    "\<forall>r. r \<notin> set (root # q # bs) \<longrightarrow> objs s' r = objs s r"
    using path_parse_names [OF assms(1) assms(2) [unfolded r(1)] r(2) room] by blast
  show ?thesis
    unfolding Cons using p growsD(1) [OF p(2)] by blast
qed

text \<open>An example: the machine with a path.\<close>

definition path_machine :: machine where
  "path_machine = small_machine\<lparr>mem := write_bytes 16 [0x2F, 0x61, 0x2F, 0x2F, 0x62, 0x63, 0] (\<lambda>a. 7)\<rparr>"

lemma low_not_vacant:
  assumes "unat p + n \<le> 0x01000000"
  shows "addrs p n \<inter> kvacant small_machine = {}"
  using assms by (intro below_heap) (simp add: small_machine_def small_heap_def)

lemma path_machine_ok: "machine_ok path_machine" "kroom path_machine = 4"
  by (simp_all add: path_machine_def machine_ok_def)
    (use small_machine_ok in \<open>simp add: machine_ok_def\<close>)

lemma path_machine_path: "path_str path_machine 16 [0x2F, 0x61, 0x2F, 0x2F, 0x62, 0x63]"
proof -
  have "str_at (mem path_machine) 16 [0x2F, 0x61, 0x2F, 0x2F, 0x62, 0x63]"
    by (simp add: path_machine_def write_bytes_def addrs_def)
  moreover have "addrs 16 7 \<inter> kvacant path_machine = {}" using low_not_vacant [of 16 7] by (simp add: path_machine_def)
  moreover have "0 \<notin> addrs (16 :: u32) 7" by (simp add: addrs_interval)
  moreover have "Suc (length [0x2F, 0x61, 0x2F, 0x2F, 0x62, 0x63 :: u8]) = 7" by simp
  ultimately show ?thesis unfolding path_str_def by (simp only:) simp
qed

lemma path_parse_refines_witness:
  "\<exists>root bs s'. path_parse 16 path_machine = Some (root, s') \<and> name_parts s' root [[0x61], [0x62, 0x63]] bs"
proof -
  have "path_names [0x2F, 0x61, 0x2F, 0x2F, 0x62, 0x63] = [[0x61], [0x62, 0x63]]" by (simp add: path_names_def)
  then show ?thesis
    using path_parse_refines [OF path_machine_ok(1) path_machine_path] path_machine_ok(2)
    by (simp del: name_parts.simps) blast
qed

text \<open>
  Parsing the path put together from non-empty names without slashes gives back the
  names.
\<close>

lemma path_parse_reads_names:
  assumes "machine_ok s" and "path_str s path (path_of_names ns)" and "2 * length ns \<le> kroom s"
    and "\<forall>n \<in> set ns. n \<noteq> [] \<and> 0x2F \<notin> set n"
  shows "\<exists>root bs s'. path_parse path s = Some (root, s') \<and> name_parts s' root ns bs"
proof (cases ns)
  case Nil
  then have "path_parse path s = Some (0, s)"
    using path_parse_invalid [OF assms(2)] by (simp add: path_of_names_def)
  then show ?thesis using Nil by auto
next
  case (Cons n ms)
  then obtain r where r: "path_of_names ns = 0x2F # r" by (simp add: path_of_names_def)
  have "names_of r = n # ms"
    using path_names_of_names [OF assms(4)] unfolding r by (simp add: path_names_def Cons)
  then show ?thesis
    using path_parse_names [OF assms(1) assms(2) [unfolded r], of n ms] assms(3) Cons by blast
qed

lemma path_parse_reads_names_witness:
  "\<exists>(s :: machine) root bs s'. path_parse 16 s = Some (root, s') \<and> name_parts s' root [[0x61], [0x62]] bs"
proof -
  let ?s = "small_machine\<lparr>mem := write_bytes 16 [0x2F, 0x61, 0x2F, 0x62, 0] (\<lambda>a. 7)\<rparr>"
  have ok: "machine_ok ?s" using small_machine_ok by (simp add: machine_ok_def)
  have "str_at (mem ?s) 16 [0x2F, 0x61, 0x2F, 0x62]" by (simp add: write_bytes_def addrs_def)
  moreover have "addrs 16 5 \<inter> kvacant ?s = {}" using low_not_vacant [of 16 5] by simp
  moreover have "0 \<notin> addrs (16 :: u32) 5" by (simp add: addrs_interval)
  moreover have "Suc (length [0x2F, 0x61, 0x2F, 0x62 :: u8]) = 5" by simp
  ultimately have "path_str ?s 16 [0x2F, 0x61, 0x2F, 0x62]" unfolding path_str_def by (simp only:) simp
  then have "path_str ?s 16 (path_of_names [[0x61], [0x62]])" by (simp add: path_of_names_def)
  from path_parse_reads_names [OF ok this] show ?thesis by (simp del: name_parts.simps) blast
qed

section \<open>Freeing\<close>

text \<open>
  C31. \<open>free_root_path\<close> on a parsed path frees every block of the list but one:
  the block with the first name stays allocated.
\<close>

lemma free_root_path_leaks:
  assumes "machine_ok s" and "path_str s path cs" and "path_names cs \<noteq> []"
    and "2 * length (path_names cs) \<le> kroom s"
  shows "\<exists>root q s1 s2. path_parse path s = Some (root, s1) \<and> free_root_path root s1 = Some s2 \<and> machine_ok s2 \<and>
    klive s q = None \<and> str_at (mem s2) q (hd (path_names cs)) \<and> klive s2 = (klive s)(q \<mapsto> 1)"
proof -
  obtain n ns r where ns: "path_names cs = n # ns" "cs = 0x2F # r" "names_of r = n # ns"
    using assms(3) by (auto simp: path_names_def neq_Nil_conv split: list.splits if_splits)
  obtain root q bs s1 where p: "path_parse path s = Some (root, s1)" "grows s s1"
    "name_parts s1 root (n # ns) (root # q # bs)" "distinct (root # q # bs)"
    "\<forall>b \<in> set (root # q # bs). klive s b = None"
    "klive s1 = (\<lambda>r. if r \<in> set (root # q # bs) then Some 1 else klive s r)"
    using path_parse_names [OF assms(1) assms(2) [unfolded ns(2)] ns(3) assms(4) [unfolded ns(1)]] by blast
  obtain s2 where f: "free_root_path root s1 = Some s2" "machine_ok s2"
    "klive s2 = (\<lambda>r. if r \<in> set (root # bs) then None else klive s1 r)" "mem s2 = mem s1"
    using free_root_path_spec [OF growsD(1) [OF p(2)] p(3,4)] by blast
  have "klive s2 = (klive s)(q \<mapsto> 1)" using p(4,5) by (auto simp: f(3) p(6) fun_eq_iff)
  moreover have "str_at (mem s2) q n" using p(3) by (auto simp: f(4) part_node_def)
  ultimately show ?thesis using p(1,5) f(1,2) ns(1) by auto
qed

lemma free_root_path_leaks_witness:
  "\<exists>root q s1 s2. path_parse 16 path_machine = Some (root, s1) \<and> free_root_path root s1 = Some s2 \<and>
     klive s2 = (klive path_machine)(q \<mapsto> 1) \<and> klive path_machine q = None"
proof -
  have "path_names [0x2F, 0x61, 0x2F, 0x2F, 0x62, 0x63] = [[0x61], [0x62, 0x63]]" by (simp add: path_names_def)
  then show ?thesis
    using free_root_path_leaks [OF path_machine_ok(1) path_machine_path] path_machine_ok(2) by simp blast
qed

end
