(* ===== verification/Disk_Correct.thy ===== *)
theory Disk_Correct
  imports Disk
begin

text \<open>
  Correctness of the disk path. \<open>ata_ok\<close> is what the driver relies on of an ATA controller:
  after a READ SECTORS command for one sector it reports ready after finitely many status
  reads, and its data port then gives the words of the sector that the address registers
  select. \<open>ata_disk\<close> is a controller that behaves so.
\<close>

section \<open>The controller\<close>

fun reg :: "u16 \<Rightarrow> io_event list \<Rightarrow> u8" where
  "reg p [] = 0"
| "reg p (Outb q v # h) = (if p = q then v else reg p h)"
| "reg p (e # h) = reg p h"

text \<open>The registers after a history, its last event first, and the sector address they hold.\<close>

definition command_lba :: "io_event list \<Rightarrow> int" where
  "command_lba h = uint (reg 0x1F3 (rev h)) + 2 ^ 8 * uint (reg 0x1F4 (rev h)) +
     2 ^ 16 * uint (reg 0x1F5 (rev h)) + 2 ^ 24 * uint (reg 0x1F6 (rev h) AND 0x0F)"

definition read_issued :: "io_event list \<Rightarrow> bool" where
  "read_issued h \<longleftrightarrow> (\<exists>h0. h = h0 @ [Outb 0x1F7 0x20]) \<and> reg 0x1F2 (rev h) = 1 \<and> reg 0x1F6 (rev h) AND 0xF0 = 0xE0"

definition sector_word :: "u8 list \<Rightarrow> nat \<Rightarrow> u16" where
  "sector_word bs i = ucast (bs ! (2 * i)) OR push_bit 8 (ucast (bs ! (2 * i + 1)))"

definition ata_ok :: "device \<Rightarrow> (nat \<Rightarrow> u8 list) \<Rightarrow> bool" where
  "ata_ok dev img \<longleftrightarrow> (\<forall>l. length (img l) = 512) \<and>
     (\<forall>h. read_issued h \<longrightarrow> (\<exists>k.
        (\<forall>j < k. dev (h @ replicate (Suc j) (Inb 0x1F7)) AND 0x08 = 0) \<and>
        dev (h @ replicate (Suc k) (Inb 0x1F7)) AND 0x08 \<noteq> 0 \<and>
        (\<forall>i < 256. dev (h @ replicate (Suc k) (Inb 0x1F7) @ replicate (Suc i) (Inw 0x1F0)) =
           sector_word (img (nat (command_lba h))) i)))"

definition ata_disk :: "(nat \<Rightarrow> u8 list) \<Rightarrow> device" where
  "ata_disk img h =
     (case rev h of
        Inb p # _ \<Rightarrow> 0x08
      | Inw p # _ \<Rightarrow> sector_word (img (nat (command_lba h)))
          (length (takeWhile (\<lambda>e. e = Inw p) (rev h)) - 1)
      | _ \<Rightarrow> 0)"

lemma reg_skip: "reg p (replicate n (Inb q) @ h) = reg p h" "reg p (replicate n (Inw q) @ h) = reg p h"
  by (induction n) auto

lemma ata_disk_ok:
  assumes "\<And>l. length (img l) = 512"
  shows "ata_ok (ata_disk img) img"
proof -
  have lba: "command_lba (h @ replicate k (Inb q) @ replicate n (Inw r)) = command_lba h" for h k q n r
    by (simp add: command_lba_def reg_skip)
  have "\<exists>k. (\<forall>j < k. ata_disk img (h @ replicate (Suc j) (Inb 0x1F7)) AND 0x08 = 0) \<and>
      ata_disk img (h @ replicate (Suc k) (Inb 0x1F7)) AND 0x08 \<noteq> 0 \<and>
      (\<forall>i < 256. ata_disk img (h @ replicate (Suc k) (Inb 0x1F7) @ replicate (Suc i) (Inw 0x1F0)) =
         sector_word (img (nat (command_lba h))) i)" for h
  proof (intro exI [of _ 0] conjI allI impI)
    fix i
    have r: "rev (h @ replicate (Suc 0) (Inb 0x1F7) @ replicate (Suc i) (Inw 0x1F0)) =
        Inw 0x1F0 # replicate i (Inw 0x1F0) @ Inb 0x1F7 # rev h" by (simp flip: replicate_append_same)
    have "takeWhile (\<lambda>e. e = Inw 0x1F0) (Inw 0x1F0 # replicate i (Inw 0x1F0) @ Inb 0x1F7 # rev h) =
        replicate (Suc i) (Inw 0x1F0)" by (simp add: takeWhile_append)
    then show "ata_disk img (h @ replicate (Suc 0) (Inb 0x1F7) @ replicate (Suc i) (Inw 0x1F0)) =
        sector_word (img (nat (command_lba h))) i"
      unfolding ata_disk_def r by (simp only: lba) simp
  qed (simp_all add: ata_disk_def)
  then show ?thesis using assms unfolding ata_ok_def by blast
qed

section \<open>Sector addresses\<close>

lemma uint_byte: "uint (word_of_int x :: u8) = x mod 256"
  by (simp only: uint_word_of_int) simp

text \<open>The registers that \<open>read_command\<close> sets select the sector it was asked for.\<close>

lemma read_command_lba:
  assumes "0 \<le> lba" and "lba < 2 ^ 28"
  shows "command_lba (read_command lba 1 h) = lba" and "read_issued (read_command lba 1 h)"
proof -
  have r: "rev (read_command lba 1 h) = Outb 0x1F7 0x20 # Outb 0x1F5 (word_of_int (drop_bit 16 lba)) #
      Outb 0x1F4 (word_of_int (drop_bit 8 lba)) # Outb 0x1F3 (word_of_int (lba AND 0b11111111)) #
      Outb 0x1F2 1 # Outb 0x1F6 (word_of_int (drop_bit 24 lba OR 0b11100000)) # rev h"
    by (simp add: read_command_def outb_def)
  define t where "t = lba div 2 ^ 24"
  have t: "0 \<le> t" "t < 16" using assms by (simp_all add: t_def)
  have tb: "t \<in> {0, 1, 2, 3, 4, 5, 6, 7, 8, 9, 10, 11, 12, 13, 14, 15}" using t by simp presburger
  then have top: "uint ((word_of_int (t OR 0xE0) :: u8) AND 0x0F) = t" "(word_of_int (t OR 0xE0) :: u8) AND 0xF0 = 0xE0"
    by auto
  have low: "lba AND 0xFF = lba mod 256"
    using take_bit_eq_mask [of 8 lba] by (simp add: take_bit_eq_mod mask_eq_exp_minus_1)
  have "command_lba (read_command lba 1 h) =
      lba mod 256 + 256 * (lba div 256 mod 256) + 65536 * (lba div 65536 mod 256) + 16777216 * t"
    unfolding command_lba_def r by (simp add: uint_byte drop_bit_eq_div low top [unfolded t_def, simplified] t_def)
  also have "\<dots> = lba"
  proof -
    define a b where "a = lba div 256" and "b = a div 256"
    have ab: "lba div 65536 = b" "lba div 2 ^ 24 = b div 256"
      by (simp_all add: a_def b_def div_mult2_eq [of _ 256 256, simplified] zdiv_zmult2_eq [symmetric])
    show ?thesis
      unfolding t_def ab a_def [symmetric]
      using mult_div_mod_eq [of 256 lba] mult_div_mod_eq [of 256 a] mult_div_mod_eq [of 256 b]
      unfolding a_def [symmetric] b_def [symmetric] by linarith
  qed
  finally show "command_lba (read_command lba 1 h) = lba" .
  show "read_issued (read_command lba 1 h)"
    unfolding read_issued_def r using top(2)
    by (simp add: drop_bit_eq_div t_def) (simp add: read_command_def outb_def)
qed

section \<open>One sector\<close>

lemma wait_ready_after:
  assumes "\<forall>j < k. dev (h @ replicate (Suc j) (Inb 0x1F7)) AND 0x08 = 0"
    and "dev (h @ replicate (Suc k) (Inb 0x1F7)) AND 0x08 \<noteq> 0"
  shows "wait_ready dev h = Some (h @ replicate (Suc k) (Inb 0x1F7))"
  using assms
proof (induction k arbitrary: h)
  have bit: "ucast w AND (0x08 :: u8) = 0 \<longleftrightarrow> w AND 0x08 = 0" for w :: u16
    using and_exp_eq_0_iff_not_bit [of w 3] and_exp_eq_0_iff_not_bit [of "ucast w :: u8" 3]
    by (simp add: bit_simps)
  {
    case 0
    then show ?case by (simp add: wait_ready.simps inb_def bit Let_def)
  next
    case (Suc k)
    have "dev (h @ [Inb 0x1F7]) AND 0x08 = 0" using Suc.prems(1) by (auto dest: spec [of _ 0])
    moreover have "wait_ready dev (h @ [Inb 0x1F7]) = Some ((h @ [Inb 0x1F7]) @ replicate (Suc k) (Inb 0x1F7))"
      using Suc.prems by (intro Suc.IH) (auto dest: spec [of _ "Suc _"])
    ultimately show ?case by (subst wait_ready.simps) (simp add: inb_def bit Let_def)
  }
qed

lemma read_words_bytes:
  assumes "\<forall>i < n. dev (h @ replicate (Suc i) (Inw 0x1F0)) = sector_word bs (i + k)" and "2 * (k + n) \<le> length bs"
  shows "fst (read_words dev n h) = take (2 * n) (drop (2 * k) bs)"
  using assms
proof (induction n arbitrary: h k)
  case (Suc n)
  have w: "dev (h @ [Inw 0x1F0]) = sector_word bs k" using Suc.prems(1) by (auto dest: spec [of _ 0])
  have split: "ucast (sector_word bs k) = bs ! (2 * k)" "ucast (drop_bit 8 (sector_word bs k)) = bs ! (2 * k + 1)"
    by (rule bit_word_eqI; auto simp: sector_word_def bit_simps dest: bit_imp_le_length)+
  have ih: "fst (read_words dev n (h @ [Inw 0x1F0])) = take (2 * n) (drop (2 * Suc k) bs)"
    using Suc.prems by (intro Suc.IH) (auto dest: spec [of _ "Suc _"])
  have "drop (2 * k) bs = bs ! (2 * k) # bs ! (2 * k + 1) # drop (2 * Suc k) bs"
    using Suc.prems(2) by (simp add: Cons_nth_drop_Suc)
  then show ?case
    using ih by (cases "read_words dev n (h @ [Inw 0x1F0])") (simp add: inw_def w split)
qed simp

lemma disk_read_one:
  assumes "ata_ok dev img" and "0 \<le> lba" and "lba < 2 ^ 28"
  shows "\<exists>h'. disk_read_sectors dev lba 1 h = Some (0, img (nat lba), h')"
proof -
  let ?h = "read_command lba 1 h"
  obtain k where k: "\<forall>j < k. dev (?h @ replicate (Suc j) (Inb 0x1F7)) AND 0x08 = 0"
    "dev (?h @ replicate (Suc k) (Inb 0x1F7)) AND 0x08 \<noteq> 0"
    "\<forall>i < 256. dev (?h @ replicate (Suc k) (Inb 0x1F7) @ replicate (Suc i) (Inw 0x1F0)) = sector_word (img (nat lba)) i"
    using assms(1) read_command_lba [OF assms(2,3), of h] unfolding ata_ok_def by metis
  have len: "length (img (nat lba)) = 512" using assms(1) by (simp add: ata_ok_def)
  have "fst (read_words dev 256 (?h @ replicate (Suc k) (Inb 0x1F7))) = img (nat lba)"
    using read_words_bytes [of 256 dev "?h @ replicate (Suc k) (Inb 0x1F7)" "img (nat lba)" 0] k(3) len
    by simp
  then show ?thesis
    using wait_ready_after [OF k(1,2)]
    by (cases "read_words dev 256 (?h @ replicate (Suc k) (Inb 0x1F7))") (simp add: disk_read_sectors_def)
qed

section \<open>Streams\<close>

text \<open>The \<open>n\<close> bytes of the disk from byte \<open>p\<close> on.\<close>

definition disk_bytes :: "(nat \<Rightarrow> u8 list) \<Rightarrow> nat \<Rightarrow> nat \<Rightarrow> u8 list" where
  "disk_bytes img p n = map (\<lambda>i. img ((p + i) div 512) ! ((p + i) mod 512)) [0..<n]"

lemma length_disk_bytes [simp]: "length (disk_bytes img p n) = n"
  by (simp add: disk_bytes_def)

lemma disk_bytes_append: "disk_bytes img p (m + n) = disk_bytes img p m @ disk_bytes img (p + m) n"
  by (rule nth_equalityI) (auto simp: disk_bytes_def nth_append add.assoc)

lemma disk_bytes_sector:
  assumes "length (img (p div 512)) = 512" and "p mod 512 + n \<le> 512"
  shows "disk_bytes img p n = take n (drop (p mod 512) (img (p div 512)))"
proof (rule nth_equalityI)
  fix i assume "i < length (disk_bytes img p n)"
  then have i: "p mod 512 + i < 512" "i < n" using assms(2) by auto
  have "p + i = 512 * (p div 512) + (p mod 512 + i)" by simp
  then have "(p + i) div 512 = p div 512" "(p + i) mod 512 = p mod 512 + i"
    using i(1) by (metis div_mult_self4 div_less add.right_neutral zero_neq_numeral,
      metis mod_mult_self4 mod_less)
  then show "disk_bytes img p n ! i = take n (drop (p mod 512) (img (p div 512))) ! i"
    using i assms by (simp add: disk_bytes_def)
qed (use assms in simp)

definition stream_state :: "nat \<Rightarrow> 'a disk_machine_scheme \<Rightarrow> kobj" where
  "stream_state p s = Obj_stream \<lparr>pos = int p, disk = disk_address s\<rparr>"

lemma sdiv_512: "int p sdiv 512 = int (p div 512)" "int p smod 512 = int (p mod 512)"
  by (simp_all add: signed_divide_int_def signed_modulo_int_def sgn_if zdiv_int
    minus_mult_div_eq_mod [symmetric] of_nat_mod [symmetric] zmod_int algebra_simps)

lemma fetch_one:
  assumes dev: "ata_ok dev img" and st: "objs s stream = Some (stream_state p s)"
    and p: "p < 2 ^ 31" and n: "n \<le> 512"
  shows "\<exists>h. disk_stream_fetch dev stream (int n) s =
    (if p mod 512 + n \<le> 512 \<or> n = 0
     then Some (0, disk_bytes img p n, put_obj stream (stream_state (p + n) s) (s\<lparr>io := h\<rparr>)) else None)"
proof -
  have "p div 512 < 2 ^ 28" using p by (simp add: less_mult_imp_div_less)
  then obtain h where h: "disk_read_sectors dev (int (p div 512)) 1 (io s) = Some (0, img (p div 512), h)"
    using disk_read_one [OF dev, of "int (p div 512)" "io s"] by (auto simp: nat_int)
  have len: "length (img (p div 512)) = 512" using dev by (simp add: ata_ok_def)
  have copy: "copy_from_tmp (img (p div 512)) (int (p mod 512)) (int n) =
      (if p mod 512 + n \<le> 512 \<or> n = 0 then Some (disk_bytes img p n) else None)"
  proof (cases "p mod 512 + n \<le> 512")
    case True
    then show ?thesis using len by (simp add: copy_from_tmp_def disk_bytes_sector)
  next
    case False
    then show ?thesis using len by (auto simp: copy_from_tmp_def disk_bytes_def)
  qed
  show ?thesis
    using st h copy n
    by (intro exI [of _ h])
      (simp add: disk_stream_fetch.simps [of dev stream] stream_at_def stream_state_def sdiv_512 DISK_SECTOR_SIZE_def
        disk_read_blocks_def put_obj_def Let_def)
qed

lemma put_obj_put_obj [simp]: "put_obj p y (put_obj p x s) = put_obj p y s"
  by (simp add: put_obj_def)

lemma put_obj_io: "put_obj p x (s\<lparr>io := h\<rparr>) = (put_obj p x s)\<lparr>io := h\<rparr>"
  by (simp add: put_obj_def)

lemma disk_machine_put_obj [simp]:
  "io (put_obj p x s) = io s" "disk_address (put_obj p x s) = disk_address s" "disk_var (put_obj p x s) = disk_var s"
  by (simp_all add: put_obj_def)

text \<open>A whole number of sectors is read from a sector boundary, whatever the length asked for.\<close>

lemma fetch_many:
  assumes "ata_ok dev img" and "objs s stream = Some (stream_state p s)"
    and "p mod 512 = 0" and "p + n < 2 ^ 31"
  shows "\<exists>h. disk_stream_fetch dev stream (int n) s =
    Some (0, disk_bytes img p n, put_obj stream (stream_state (p + n) s) (s\<lparr>io := h\<rparr>))"
  using assms(2-4)
proof (induction n arbitrary: p s rule: less_induct)
  case (less n)
  show ?case
  proof (cases "n \<le> 512")
    case True
    then show ?thesis using fetch_one [OF assms(1) less.prems(1), of n] less.prems(2,3) by auto
  next
    case False
    have "p div 512 < 2 ^ 28" using less.prems(3) by (simp add: less_mult_imp_div_less)
    then obtain h where h: "disk_read_sectors dev (int (p div 512)) 1 (io s) = Some (0, img (p div 512), h)"
      using disk_read_one [OF assms(1), of "int (p div 512)" "io s"] by (auto simp: nat_int)
    let ?s = "put_obj stream (stream_state (p + 512) s) (s\<lparr>io := h\<rparr>)"
    have len: "length (img (p div 512)) = 512" using assms(1) by (simp add: ata_ok_def)
    have copy: "copy_from_tmp (img (p div 512)) (int (p mod 512)) 512 = Some (disk_bytes img p 512)"
      using len less.prems(2) by (simp add: copy_from_tmp_def disk_bytes_sector)
    have "objs ?s stream = Some (stream_state (p + 512) ?s)" by (simp add: stream_state_def)
    moreover have "(p + 512) mod 512 = 0" using less.prems(2) by simp
    ultimately obtain h' where h': "disk_stream_fetch dev stream (int (n - 512)) ?s =
        Some (0, disk_bytes img (p + 512) (n - 512), put_obj stream (stream_state (p + 512 + (n - 512)) ?s) (?s\<lparr>io := h'\<rparr>))"
      using less.IH [of "n - 512" ?s "p + 512"] less.prems(3) False by auto
    have n: "n = 512 + (n - 512)" using False by simp
    have bytes: "disk_bytes img p n = disk_bytes img p 512 @ disk_bytes img (p + 512) (n - 512)"
      by (subst n) (rule disk_bytes_append)
    have step: "disk_stream_fetch dev stream (int n) s =
        (do { (result, bs', s) \<leftarrow> disk_stream_fetch dev stream (int (n - 512)) ?s;
              Some (result, disk_bytes img p 512 @ bs', s) })"
      using less.prems(1) h copy False
      by (subst disk_stream_fetch.simps)
        (simp add: stream_at_def stream_state_def sdiv_512 DISK_SECTOR_SIZE_def disk_read_blocks_def
          put_obj_def Let_def of_nat_diff)
    show ?thesis
      using n unfolding step h' bytes
      by (intro exI [of _ h']) (simp add: put_obj_def stream_state_def)
  qed
qed

text \<open>From inside a sector a read past its end runs off the buffer, whatever the length asked for.\<close>

lemma fetch_overrun:
  assumes dev: "ata_ok dev img" and st: "objs s stream = Some (stream_state p s)" and p: "p < 2 ^ 31"
    and inside: "p mod 512 \<noteq> 0" and past: "512 < p mod 512 + n"
  shows "disk_stream_fetch dev stream (int n) s = None"
proof (cases "n \<le> 512")
  case True
  then show ?thesis using fetch_one [OF dev st p True] past by (auto dest: less_imp_not_eq2)
next
  case False
  have "p div 512 < 2 ^ 28" using p by (simp add: less_mult_imp_div_less)
  then obtain h where h: "disk_read_sectors dev (int (p div 512)) 1 (io s) = Some (0, img (p div 512), h)"
    using disk_read_one [OF dev, of "int (p div 512)" "io s"] by (auto simp: nat_int)
  have "copy_from_tmp (img (p div 512)) (int (p mod 512)) 512 = None"
    using dev inside by (simp add: copy_from_tmp_def ata_ok_def)
  then show ?thesis
    using st h False
    by (subst disk_stream_fetch.simps)
      (simp add: stream_at_def stream_state_def sdiv_512 DISK_SECTOR_SIZE_def disk_read_blocks_def put_obj_def Let_def)
qed

end
