(* ===== verification/Disk_Properties.thy ===== *)
theory Disk_Properties
  imports Disk_Correct Heap_Properties
begin

text \<open>
  What the disk driver and its streams promise, for a controller that behaves as \<open>ata_ok\<close> says.
  \<open>stream_machine\<close> is a machine with one open stream at address \<open>0x2000000\<close>, and \<open>plain_image\<close> a
  disk whose sector \<open>l\<close> is filled with the byte \<open>l mod 256\<close>, for the examples.
\<close>

definition plain_image :: "nat \<Rightarrow> u8 list" where
  "plain_image l = replicate 512 (of_nat l)"

definition stream_machine :: "nat \<Rightarrow> disk_machine" where
  "stream_machine p = \<lparr>mem = (\<lambda>a. 7), con = \<lparr>vram = (\<lambda>a. 0), g_row = 0, g_column = 0, g_color = 15\<rparr>,
     g_kernel_heap = small_heap, objs = [0x2000000 \<mapsto> Obj_stream \<lparr>pos = int p, disk = 0x8000\<rparr>],
     io = [], disk_var = \<lparr>disk_type = 0, sector_size = 512, disk_id = 0, disk_fs = 0, fs_private_data = 0\<rparr>,
     disk_address = 0x8000, fat16_fs_address = 0x9000, tmp_filename = 0xA000\<rparr>"

lemma plain_disk_ok: "ata_ok (ata_disk plain_image) plain_image"
  by (rule ata_disk_ok) (simp add: plain_image_def)

lemma stream_machine_stream: "objs (stream_machine p) 0x2000000 = Some (stream_state p (stream_machine p))"
  by (simp add: stream_machine_def stream_state_def)

section \<open>Sectors\<close>

text \<open>
  The controller that decodes the port writes of a read command finds the sector number
  it was built from, for 28-bit sector numbers.
\<close>

lemma read_command_selects:
  assumes "0 \<le> lba" and "lba < 2 ^ 28"
  shows "command_lba (read_command lba 1 h) = lba \<and> read_issued (read_command lba 1 h)"
  using read_command_lba [OF assms] by blast

lemma read_command_selects_witness: "command_lba (read_command 0xABCDEF1 1 []) = 0xABCDEF1"
  using read_command_selects [of "0xABCDEF1" "[]"] by simp

text \<open>
  C20. On a controller that becomes ready, \<open>disk_read_sectors\<close> of a sector with a
  28-bit address returns, with the bytes of that sector of the disk.
\<close>

lemma disk_read_returns:
  assumes "ata_ok dev img" and "0 \<le> lba" and "lba < 2 ^ 28"
  shows "\<exists>h'. disk_read_sectors dev lba 1 h = Some (0, img (nat lba), h')"
  using assms by (rule disk_read_one)

lemma disk_read_returns_witness:
  "\<exists>h'. disk_read_sectors (ata_disk plain_image) 3 1 [] = Some (0, replicate 512 3, h')"
  using disk_read_returns [OF plain_disk_ok, of 3 "[]"] by (simp add: plain_image_def)

lemma wait_ready_forever:
  assumes "\<And>h. dev h AND 0x08 = 0"
  shows "wait_ready dev h = None"
proof -
  have bit: "ucast (dev h) AND (0x08 :: u8) = 0" for h
    using assms [of h] and_exp_eq_0_iff_not_bit [of "dev h" 3] and_exp_eq_0_iff_not_bit [of "ucast (dev h) :: u8" 3]
    by (simp add: bit_simps)
  have "d \<noteq> dev" if "wait_ready d h = Some r" for d h r
    by (rule wait_ready.raw_induct [where P = "\<lambda>d h r. d \<noteq> dev", OF _ that])
      (use bit in \<open>auto simp: inb_def Let_def split: if_splits\<close>)
  then show ?thesis by (cases "wait_ready dev h") auto
qed

text \<open>
  On a controller that never becomes ready \<open>disk_read_sectors\<close> never
  returns.
\<close>

lemma disk_never_ready:
  assumes "\<And>h. dev h AND 0x08 = 0" and "0 < sectors"
  shows "disk_read_sectors dev lba sectors h = None"
proof -
  obtain n where "nat sectors = Suc n" using assms(2) by (cases "nat sectors") auto
  then show ?thesis using wait_ready_forever [OF assms(1)] by (simp add: disk_read_sectors_def)
qed

lemma disk_never_ready_witness: "disk_read_sectors (\<lambda>h. 0x50) 0 1 [] = None"
  by (rule disk_never_ready) simp_all

section \<open>Streams\<close>

text \<open>
  C22. \<open>disk_stream_read\<close> of bytes within one sector copies the bytes of the disk
  image at the position of the stream, moves the position past them and changes nothing else.
\<close>

lemma stream_read_bytes:
  assumes "ata_ok dev img" and "objs s stream = Some (stream_state p s)"
    and "p mod 512 = 0 \<or> p mod 512 + n \<le> 512" and "p + n < 2 ^ 31"
  shows "\<exists>s'. disk_stream_read dev stream buf (int n) s = Some (0, s') \<and>
    mem s' = write_bytes buf (disk_bytes img p n) (mem s) \<and> bytes_at (mem s') buf n = disk_bytes img p n \<and>
    objs s' = (objs s)(stream \<mapsto> stream_state (p + n) s) \<and>
    con s' = con s \<and> g_kernel_heap s' = g_kernel_heap s \<and> disk_var s' = disk_var s"
proof -
  have "\<exists>h. disk_stream_fetch dev stream (int n) s =
      Some (0, disk_bytes img p n, put_obj stream (stream_state (p + n) s) (s\<lparr>io := h\<rparr>))"
  proof (cases "p mod 512 = 0")
    case True
    show ?thesis by (rule fetch_many [OF assms(1,2) True assms(4)])
  next
    case False
    then show ?thesis using fetch_one [OF assms(1,2), of n] assms(3,4) by auto
  qed
  then obtain h where h: "disk_stream_fetch dev stream (int n) s =
      Some (0, disk_bytes img p n, put_obj stream (stream_state (p + n) s) (s\<lparr>io := h\<rparr>))" by blast
  have "bytes_at (write_bytes buf (disk_bytes img p n) (mem s)) buf n = disk_bytes img p n"
    using bytes_at_write_bytes [of "disk_bytes img p n" buf "mem s"] assms(4) by simp
  then show ?thesis
    by (simp add: disk_stream_read_def h put_obj_def)
qed

lemma stream_read_bytes_witness:
  "\<exists>s'. disk_stream_read (ata_disk plain_image) 0x2000000 0x3000000 700 (stream_machine 1024) = Some (0, s') \<and>
     bytes_at (mem s') 0x3000000 700 = replicate 512 2 @ replicate 188 3"
proof -
  have b: "disk_bytes plain_image 1024 700 = replicate 512 2 @ replicate 188 3"
  proof (rule nth_equalityI)
    fix i assume "i < length (disk_bytes plain_image 1024 700)"
    then have i: "i < 700" by simp
    have "(1024 + i) div 512 = 2 + i div 512" by simp
    moreover have "i div 512 = (if i < 512 then 0 else 1)" using i by (simp add: div_nat_eqI)
    ultimately have "(1024 + i) div 512 = (if i < 512 then 2 else 3)" by simp
    then show "disk_bytes plain_image 1024 700 ! i = (replicate 512 2 @ replicate 188 3) ! i"
      using i by (simp add: disk_bytes_def plain_image_def nth_append)
  qed simp
  show ?thesis
    using stream_read_bytes [OF plain_disk_ok stream_machine_stream, of 1024 700 "0x3000000"] by (auto simp: b)
qed

text \<open>
  C35. \<open>disk_stream_read\<close> of a range that starts inside a sector and runs past
  the end of that sector, however long it is, reads past its sector buffer, where C leaves the
  behaviour undefined.
\<close>

lemma stream_read_overrun:
  assumes "ata_ok dev img" and "objs s stream = Some (stream_state p s)" and "p < 2 ^ 31"
    and "p mod 512 \<noteq> 0" and "512 < p mod 512 + n"
  shows "disk_stream_read dev stream buf (int n) s = None"
  using fetch_overrun [OF assms] by (simp add: disk_stream_read_def)

lemma stream_read_overrun_witness:
  "disk_stream_read (ata_disk plain_image) 0x2000000 0x3000000 700 (stream_machine 500) = None"
  using stream_read_overrun [OF plain_disk_ok stream_machine_stream, of 500 700] by simp

end
