(* ===== verification/Fat16_Data.thy ===== *)
theory Fat16_Data
  imports Disk CLib_String
begin

text \<open>
  The first half of \<open>fs/fat16.c\<close>: the layout of its on-disk structures, the file allocation
  table, and reading data by cluster. The boot sector header is the first 62 bytes of the
  \<open>struct fat_private_data\<close> in memory, a \<open>struct fat_directory_item\<close> is 32 bytes in memory;
  both are packed, so a field is a load at its offset. C \<open>int\<close> arithmetic that stays below
  \<open>2 ^ 31\<close> on a disk the driver supports is \<open>int\<close>; \<open>uint32_t\<close> arithmetic wraps.
\<close>

section \<open>Constants\<close>

definition FAT16_SIGNATURE :: u8 where "FAT16_SIGNATURE = 0x29"
definition FAT16_FAT_ENTRY_SIZE :: int where "FAT16_FAT_ENTRY_SIZE = 0x02"
definition FAT16_BAD_SECTOR :: int where "FAT16_BAD_SECTOR = 0xFF7"
definition FAT_ITEM_TYPE_DIRECTORY :: u32 where "FAT_ITEM_TYPE_DIRECTORY = 0"
definition FAT_ITEM_TYPE_FILE :: u32 where "FAT_ITEM_TYPE_FILE = 1"
definition FAT_FILE_READ_ONLY :: u8 where "FAT_FILE_READ_ONLY = 0x01"
definition FAT_FILE_SUBDIRECTORY :: u8 where "FAT_FILE_SUBDIRECTORY = 0x10"

lemmas fat_consts = FAT16_SIGNATURE_def FAT16_FAT_ENTRY_SIZE_def FAT16_BAD_SECTOR_def
  FAT_ITEM_TYPE_DIRECTORY_def FAT_ITEM_TYPE_FILE_def FAT_FILE_READ_ONLY_def FAT_FILE_SUBDIRECTORY_def

section \<open>Packed structures\<close>

text \<open>\<open>struct fat_h\<close> at \<open>p\<close>: the fields that the driver reads.\<close>

definition h_sectors_per_cluster :: "memory \<Rightarrow> u32 \<Rightarrow> int" where
  "h_sectors_per_cluster m p = uint (m (p + 13))"
definition h_reserved_sectors :: "memory \<Rightarrow> u32 \<Rightarrow> int" where
  "h_reserved_sectors m p = uint (load16 m (p + 14))"
definition h_fat_copies :: "memory \<Rightarrow> u32 \<Rightarrow> int" where
  "h_fat_copies m p = uint (m (p + 16))"
definition h_root_dir_entries :: "memory \<Rightarrow> u32 \<Rightarrow> int" where
  "h_root_dir_entries m p = uint (load16 m (p + 17))"
definition h_sectors_per_fat :: "memory \<Rightarrow> u32 \<Rightarrow> int" where
  "h_sectors_per_fat m p = uint (load16 m (p + 22))"
definition h_signature :: "memory \<Rightarrow> u32 \<Rightarrow> u8" where
  "h_signature m p = m (p + 38)"

definition sizeof_fat_h :: int where "sizeof_fat_h = 62"

text \<open>\<open>struct fat_directory_item\<close> at \<open>p\<close>; \<open>filename\<close> is \<open>p\<close> and \<open>ext\<close> is \<open>p + 8\<close>.\<close>

definition i_ext :: "u32 \<Rightarrow> u32" where "i_ext p = p + 8"
definition i_attribute :: "memory \<Rightarrow> u32 \<Rightarrow> u8" where "i_attribute m p = m (p + 11)"
definition i_reserved :: "memory \<Rightarrow> u32 \<Rightarrow> u8" where "i_reserved m p = m (p + 12)"
definition i_creation_time :: "memory \<Rightarrow> u32 \<Rightarrow> u16" where "i_creation_time m p = load16 m (p + 14)"
definition i_creation_date :: "memory \<Rightarrow> u32 \<Rightarrow> u16" where "i_creation_date m p = load16 m (p + 16)"
definition i_last_access :: "memory \<Rightarrow> u32 \<Rightarrow> u16" where "i_last_access m p = load16 m (p + 18)"
definition i_high_16_bits_first_cluster :: "memory \<Rightarrow> u32 \<Rightarrow> u16" where
  "i_high_16_bits_first_cluster m p = load16 m (p + 20)"
definition i_last_mod_time :: "memory \<Rightarrow> u32 \<Rightarrow> u16" where "i_last_mod_time m p = load16 m (p + 22)"
definition i_last_mod_date :: "memory \<Rightarrow> u32 \<Rightarrow> u16" where "i_last_mod_date m p = load16 m (p + 24)"
definition i_low_16_bits_first_cluster :: "memory \<Rightarrow> u32 \<Rightarrow> u16" where
  "i_low_16_bits_first_cluster m p = load16 m (p + 26)"
definition i_filesize :: "memory \<Rightarrow> u32 \<Rightarrow> u32" where "i_filesize m p = load32 m (p + 28)"

definition sizeof_item :: int where "sizeof_item = 32"

section \<open>Private data\<close>

definition fat16_init_private_data :: "u32 \<Rightarrow> u32 \<Rightarrow> 'a disk_machine_scheme \<Rightarrow> 'a disk_machine_scheme option" where
  "fat16_init_private_data d private s = do {
     _ \<leftarrow> private_at s private;
     let s = s\<lparr>mem := memset private 0 92 (mem s)\<rparr>;
     let zero = \<lparr>root_dir = \<lparr>dir_item = 0, dir_total = 0, sector_pos = 0, ending_sector_pos = 0\<rparr>,
       cluster_read_stream = 0, fat_read_stream = 0, directory_stream = 0\<rparr>;
     dk \<leftarrow> disk_at s d;
     (stream, s) \<leftarrow> create_disk_stream (disk_id dk) s;
     let zero = zero\<lparr>cluster_read_stream := stream\<rparr>;
     (stream, s) \<leftarrow> create_disk_stream (disk_id dk) s;
     let zero = zero\<lparr>fat_read_stream := stream\<rparr>;
     (stream, s) \<leftarrow> create_disk_stream (disk_id dk) s;
     let zero = zero\<lparr>directory_stream := stream\<rparr>;
     let s = put_obj private (Obj_private zero) s;
     Some (klog ''FAT16 filesystem is initializing private data with the disk.\<newline>'' s) }"

text \<open>\<open>disk->fs_private_data\<close>, dereferenced.\<close>

definition disk_private :: "'a disk_machine_scheme \<Rightarrow> u32 \<Rightarrow> (u32 \<times> fat_private_data) option" where
  "disk_private s d = do {
     dk \<leftarrow> disk_at s d;
     pr \<leftarrow> private_at s (fs_private_data dk);
     Some (fs_private_data dk, pr) }"

section \<open>The file allocation table\<close>

definition fat16_sector_to_absolute :: "disk \<Rightarrow> int \<Rightarrow> int" where
  "fat16_sector_to_absolute dk sector = sector * sector_size dk"

definition fat16_get_first_cluster :: "memory \<Rightarrow> u32 \<Rightarrow> int" where
  "fat16_get_first_cluster m item =
     uint (i_high_16_bits_first_cluster m item OR i_low_16_bits_first_cluster m item)"

definition fat16_cluster_to_sector :: "memory \<Rightarrow> u32 \<Rightarrow> fat_private_data \<Rightarrow> int \<Rightarrow> int" where
  "fat16_cluster_to_sector m private pr cluster =
     ending_sector_pos (root_dir pr) + (cluster - 2) * h_sectors_per_cluster m private"

definition fat16_get_first_fat_sector :: "memory \<Rightarrow> u32 \<Rightarrow> u32" where
  "fat16_get_first_fat_sector m private = word_of_int (h_reserved_sectors m private)"

definition fat16_get_fat_entry :: "device \<Rightarrow> u32 \<Rightarrow> int \<Rightarrow> 'a disk_machine_scheme \<Rightarrow>
    (int \<times> 'a disk_machine_scheme) option" where
  "fat16_get_fat_entry dev d cluster s = do {
     dk \<leftarrow> disk_at s d;
     (private, pr) \<leftarrow> disk_private s d;
     let stream = fat_read_stream pr;
     if stream = 0 then Some (- EIO, s)
     else do {
       let fat_table_postion = fat16_get_first_fat_sector (mem s) private * word_of_int (sector_size dk);
       (res, s) \<leftarrow> disk_stream_seek stream
         (sint (fat_table_postion * word_of_int (cluster * FAT16_FAT_ENTRY_SIZE))) s;
       if res < 0 then Some (res, s)
       else do {
         (res, result, s) \<leftarrow> disk_stream_fetch dev stream 2 s;
         if res < 0 then Some (res, s)
         else Some (uint (result ! 0) + 256 * uint (result ! 1), s) } } }"

text \<open>\<open>n\<close> steps along the chain are left.\<close>

fun follow_clusters :: "nat \<Rightarrow> device \<Rightarrow> u32 \<Rightarrow> int \<Rightarrow> 'a disk_machine_scheme \<Rightarrow>
    (int \<times> 'a disk_machine_scheme) option" where
  "follow_clusters 0 dev d cluster_to_use s = Some (cluster_to_use, s)"
| "follow_clusters (Suc n) dev d cluster_to_use s = do {
     (entry, s) \<leftarrow> fat16_get_fat_entry dev d cluster_to_use s;
     if entry = 0xFF8 \<or> entry = 0xFFF then Some (- EIO, s)
     else if entry = FAT16_BAD_SECTOR then Some (- EIO, s)
     else if entry = 0xFF0 \<or> entry = 0xFF6 then Some (- EIO, s)
     else if entry = 0x00 then Some (- EIO, s)
     else follow_clusters n dev d entry s }"

definition fat16_get_cluster_for_offset :: "device \<Rightarrow> u32 \<Rightarrow> int \<Rightarrow> int \<Rightarrow> 'a disk_machine_scheme \<Rightarrow>
    (int \<times> 'a disk_machine_scheme) option" where
  "fat16_get_cluster_for_offset dev d starting_cluster offset s = do {
     dk \<leftarrow> disk_at s d;
     (private, pr) \<leftarrow> disk_private s d;
     let size_of_cluster_bytes = h_sectors_per_cluster (mem s) private * sector_size dk;
     if size_of_cluster_bytes = 0 then None
     else do {
       let clusters_ahead = offset sdiv size_of_cluster_bytes;
       follow_clusters (nat clusters_ahead) dev d starting_cluster s } }"

partial_function (option) fat16_read_internal_from_stream ::
    "device \<Rightarrow> u32 \<Rightarrow> u32 \<Rightarrow> int \<Rightarrow> int \<Rightarrow> int \<Rightarrow> u32 \<Rightarrow> 'a disk_machine_scheme \<Rightarrow> (int \<times> 'a disk_machine_scheme) option" where
  "fat16_read_internal_from_stream dev d stream cluster offset n_total out s = do {
     dk \<leftarrow> disk_at s d;
     (private, pr) \<leftarrow> disk_private s d;
     let size_of_cluster_bytes = h_sectors_per_cluster (mem s) private * sector_size dk;
     (cluster_to_use, s) \<leftarrow> fat16_get_cluster_for_offset dev d cluster offset s;
     if cluster_to_use < 0 then Some (cluster_to_use, s)
     else do {
       let offset_from_cluster = offset smod size_of_cluster_bytes;
       let starting_sector = fat16_cluster_to_sector (mem s) private pr cluster_to_use;
       let starting_pos = starting_sector * sector_size dk + offset_from_cluster;
       let total_to_read = (if n_total > size_of_cluster_bytes then size_of_cluster_bytes else n_total);
       (res, s) \<leftarrow> disk_stream_seek stream starting_pos s;
       if res < 0 then Some (res, s)
       else do {
         (res, s) \<leftarrow> disk_stream_read dev stream out total_to_read s;
         if res < 0 then Some (res, s)
         else
           let n_total = n_total - total_to_read
           in if n_total > 0
              then fat16_read_internal_from_stream dev d stream cluster (offset + total_to_read) n_total
                     (out + word_of_int total_to_read) s
              else Some (res, s) } } }"

definition fat16_read_internal :: "device \<Rightarrow> u32 \<Rightarrow> int \<Rightarrow> int \<Rightarrow> int \<Rightarrow> u32 \<Rightarrow> 'a disk_machine_scheme \<Rightarrow>
    (int \<times> 'a disk_machine_scheme) option" where
  "fat16_read_internal dev d starting_cluster offset n_total out s = do {
     (private, pr) \<leftarrow> disk_private s d;
     let stream = cluster_read_stream pr;
     fat16_read_internal_from_stream dev d stream starting_cluster offset n_total out s }"

end
