(* ===== verification/Fat16_Directory.thy ===== *)
theory Fat16_Directory
  imports Fat16_Data Path_Parser
begin

text \<open>
  Directories in \<open>fs/fat16.c\<close>: counting and loading their items, turning a padded 8.3 name into
  a string, and finding a name. \<open>fat16_find_item_in_directory\<close> takes the \<open>struct
  fat_directory\<close> that its caller points to, because the root directory is a field of the
  private data and the others are objects. A directory item is at \<open>dir_item + 32 * i\<close>.
\<close>

section \<open>Reading directories\<close>

text \<open>The loop over the items from the position of \<open>stream\<close> on; \<open>n_total\<close> is the count so far.\<close>

partial_function (option) count_items :: "device \<Rightarrow> u32 \<Rightarrow> int \<Rightarrow> 'a disk_machine_scheme \<Rightarrow>
    (int \<times> 'a disk_machine_scheme) option" where
  "count_items dev stream n_total s = do {
     (res, item, s) \<leftarrow> disk_stream_fetch dev stream sizeof_item s;
     if res \<noteq> 0 then Some (- EIO, s)
     else if item ! 0 = 0xE5 then count_items dev stream n_total s
     else if item ! 0 = 0x00 then Some (n_total, s)
     else count_items dev stream (n_total + 1) s }"

definition fat16_get_total_items_for_directory :: "device \<Rightarrow> u32 \<Rightarrow> int \<Rightarrow> 'a disk_machine_scheme \<Rightarrow>
    (int \<times> 'a disk_machine_scheme) option" where
  "fat16_get_total_items_for_directory dev d directory_start_sector s = do {
     dk \<leftarrow> disk_at s d;
     (private, pr) \<leftarrow> disk_private s d;
     let directory_start_pos = directory_start_sector * sector_size dk;
     let stream = directory_stream pr;
     (res, s) \<leftarrow> disk_stream_seek stream directory_start_pos s;
     if res \<noteq> 0 then Some (- EIO, s)
     else count_items dev stream 0 s }"

text \<open>The result, and the state with the \<open>root_dir\<close> of \<open>private\<close> filled in.\<close>

definition fat16_get_root_directory :: "device \<Rightarrow> u32 \<Rightarrow> u32 \<Rightarrow> 'a disk_machine_scheme \<Rightarrow>
    (int \<times> 'a disk_machine_scheme) option" where
  "fat16_get_root_directory dev d private s = do {
     dk \<leftarrow> disk_at s d;
     let root_dir_sector_pos = h_fat_copies (mem s) private * h_sectors_per_fat (mem s) private
       + h_reserved_sectors (mem s) private;
     let root_dir_size = h_root_dir_entries (mem s) private * sizeof_item;
     (total_items, s) \<leftarrow> fat16_get_total_items_for_directory dev d root_dir_sector_pos s;
     let (dir, s) = kzalloc s (word_of_int root_dir_size);
     if dir = 0 then Some (- ENOMEM, s)
     else do {
       pr \<leftarrow> private_at s private;
       let stream = directory_stream pr;
       (res, s) \<leftarrow> disk_stream_seek stream (fat16_sector_to_absolute dk root_dir_sector_pos) s;
       if res \<noteq> 0 then Some (- EIO, s)
       else do {
         (res, s) \<leftarrow> disk_stream_read dev stream dir root_dir_size s;
         if res \<noteq> 0 then Some (- EIO, s)
         else do {
           let directory = \<lparr>dir_item = dir, dir_total = total_items, sector_pos = root_dir_sector_pos,
             ending_sector_pos = root_dir_sector_pos + root_dir_size sdiv sector_size dk\<rparr>;
           Some (0, put_obj private (Obj_private (pr\<lparr>root_dir := directory\<rparr>)) s) } } } }"

section \<open>Names\<close>

text \<open>\<open>n\<close> characters may still be copied; the result is the position after the last one.\<close>

fun proper_string_loop :: "nat \<Rightarrow> u32 \<Rightarrow> u32 \<Rightarrow> memory \<Rightarrow> u32 \<times> memory" where
  "proper_string_loop 0 out inp m = (out, m)"
| "proper_string_loop (Suc n) out inp m =
     (if m inp \<noteq> 0x00 \<and> m inp \<noteq> 0x20 then proper_string_loop n (out + 1) (inp + 1) (m(out := m inp))
      else (out, m))"

definition fat16_to_proper_string :: "u32 \<Rightarrow> u32 \<Rightarrow> nat \<Rightarrow> memory \<Rightarrow> u32 \<times> memory" where
  "fat16_to_proper_string out inp n m =
     (let (out, m) = proper_string_loop n out inp m in (out, m(out := 0x00)))"

definition fat16_get_full_relative_filename :: "u32 \<Rightarrow> u32 \<Rightarrow> u32 \<Rightarrow> memory \<Rightarrow> memory" where
  "fat16_get_full_relative_filename item out max_len m =
     (let m = memset out 0x00 max_len m;
          (out_tmp, m) = fat16_to_proper_string out item 8 m
      in if m (i_ext item) \<noteq> 0x00 \<and> m (i_ext item) \<noteq> 0x20
         then snd (fat16_to_proper_string (out_tmp + 1) (i_ext item) 3 (m(out_tmp := 0x2E)))
         else m)"

section \<open>Items\<close>

definition fat16_free_directory :: "u32 \<Rightarrow> 'a machine_scheme \<Rightarrow> 'a machine_scheme option" where
  "fat16_free_directory directory s =
     (if directory = 0 then Some s
      else do {
        x \<leftarrow> dir_at s directory;
        s \<leftarrow> (if dir_item x \<noteq> 0 then kfree s (dir_item x) else Some s);
        kfree s directory })"

definition fat16_load_fat_directory :: "device \<Rightarrow> u32 \<Rightarrow> u32 \<Rightarrow> 'a disk_machine_scheme \<Rightarrow>
    (u32 \<times> 'a disk_machine_scheme) option" where
  "fat16_load_fat_directory dev d item s = do {
     (private, pr) \<leftarrow> disk_private s d;
     if i_attribute (mem s) item AND FAT_FILE_SUBDIRECTORY = 0
     then do { s \<leftarrow> fat16_free_directory 0 s; Some (0, s) }
     else do {
       let (directory, s) = kzalloc_obj s 16
         (Obj_dir \<lparr>dir_item = 0, dir_total = 0, sector_pos = 0, ending_sector_pos = 0\<rparr>);
       if directory = 0 then do { s \<leftarrow> fat16_free_directory directory s; Some (directory, s) }
       else do {
         let cluster = fat16_get_first_cluster (mem s) item;
         let cluster_sector = fat16_cluster_to_sector (mem s) private pr cluster;
         (total_items, s) \<leftarrow> fat16_get_total_items_for_directory dev d cluster_sector s;
         x \<leftarrow> dir_at s directory;
         let s = put_obj directory (Obj_dir (x\<lparr>dir_total := total_items\<rparr>)) s;
         let directory_size = total_items * sizeof_item;
         let (items, s) = kzalloc s (word_of_int directory_size);
         let s = put_obj directory (Obj_dir (x\<lparr>dir_total := total_items, dir_item := items\<rparr>)) s;
         if items = 0 then do { s \<leftarrow> fat16_free_directory directory s; Some (directory, s) }
         else do {
           (res, s) \<leftarrow> fat16_read_internal dev d cluster 0x00 directory_size items s;
           s \<leftarrow> (if res < 0 then fat16_free_directory directory s else Some s);
           Some (directory, s) } } } }"

definition fat16_clone_directory_item :: "u32 \<Rightarrow> 'a machine_scheme \<Rightarrow> u32 \<times> 'a machine_scheme" where
  "fat16_clone_directory_item item s =
     (let (item_copy, s) = kzalloc s (word_of_int sizeof_item)
      in if item_copy = 0 then (item_copy, s)
         else (item_copy, s\<lparr>mem := memcpy item_copy item (word_of_int sizeof_item) (mem s)\<rparr>))"

definition fat16_make_new_fat_item_for_directory_item :: "device \<Rightarrow> u32 \<Rightarrow> u32 \<Rightarrow> 'a disk_machine_scheme \<Rightarrow>
    (u32 \<times> 'a disk_machine_scheme) option" where
  "fat16_make_new_fat_item_for_directory_item dev d item s =
     (let (f_item, s) = kzalloc_obj s 8 (Obj_item \<lparr>item_ptr = 0, item_type = 0\<rparr>) in
      if f_item = 0 then Some (0, s)
      else if i_attribute (mem s) item AND FAT_FILE_SUBDIRECTORY \<noteq> 0
      then do {
        (directory, s) \<leftarrow> fat16_load_fat_directory dev d item s;
        Some (f_item, put_obj f_item (Obj_item \<lparr>item_ptr = directory, item_type = FAT_ITEM_TYPE_DIRECTORY\<rparr>) s) }
      else
        let (copy, s) = fat16_clone_directory_item item s
        in Some (f_item, put_obj f_item (Obj_item \<lparr>item_ptr = copy, item_type = FAT_ITEM_TYPE_FILE\<rparr>) s))"

text \<open>\<open>n\<close> items are left, from number \<open>i\<close> on; \<open>item\<close> is the last match so far.\<close>

fun find_item_loop :: "nat \<Rightarrow> device \<Rightarrow> u32 \<Rightarrow> u32 \<Rightarrow> u32 \<Rightarrow> u32 \<Rightarrow> 'a disk_machine_scheme \<Rightarrow>
    (u32 \<times> 'a disk_machine_scheme) option" where
  "find_item_loop 0 dev d items name item s = Some (item, s)"
| "find_item_loop (Suc n) dev d items name item s = do {
     let s = s\<lparr>mem := fat16_get_full_relative_filename items (tmp_filename s) FILESYSTEM_MAX_PATH_LENGTH (mem s)\<rparr>;
     c \<leftarrow> strcasecmp (mem s) (tmp_filename s) name;
     if c = 0 then do {
       let s = klog ''FAT16 filesystem is found the file: '' s;
       s \<leftarrow> klog_at name s;
       let s = klog ''\<newline>'' s;
       (item, s) \<leftarrow> fat16_make_new_fat_item_for_directory_item dev d items s;
       find_item_loop n dev d (items + word_of_int sizeof_item) name item s }
     else find_item_loop n dev d (items + word_of_int sizeof_item) name item s }"

definition fat16_find_item_in_directory :: "device \<Rightarrow> u32 \<Rightarrow> fat_directory \<Rightarrow> u32 \<Rightarrow> 'a disk_machine_scheme \<Rightarrow>
    (u32 \<times> 'a disk_machine_scheme) option" where
  "fat16_find_item_in_directory dev d directory name s =
     find_item_loop (nat (dir_total directory)) dev d (dir_item directory) name 0 s"

definition fat16_fat_item_free :: "u32 \<Rightarrow> 'a machine_scheme \<Rightarrow> 'a machine_scheme option" where
  "fat16_fat_item_free item s =
     (if item = 0 then Some s
      else do {
        x \<leftarrow> item_at s item;
        s \<leftarrow> (if item_type x = FAT_ITEM_TYPE_DIRECTORY then fat16_free_directory (item_ptr x) s
               else if item_type x = FAT_ITEM_TYPE_FILE then kfree s (item_ptr x) else Some s);
        kfree s item })"

text \<open>The walk along the rest of the path; the types are compared as the code compares them.\<close>

partial_function (option) walk_path :: "device \<Rightarrow> u32 \<Rightarrow> u32 \<Rightarrow> u32 \<Rightarrow> 'a disk_machine_scheme \<Rightarrow>
    (u32 \<times> 'a disk_machine_scheme) option" where
  "walk_path dev d current_item next s =
     (if next = 0 then Some (current_item, s)
      else do {
        x \<leftarrow> item_at s current_item;
        if item_type x \<noteq> ucast FAT_FILE_SUBDIRECTORY then Some (0, s)
        else do {
          directory \<leftarrow> dir_at s (item_ptr x);
          y \<leftarrow> part_at s next;
          (tmp_item, s) \<leftarrow> fat16_find_item_in_directory dev d directory (part y) s;
          s \<leftarrow> fat16_fat_item_free current_item s;
          y \<leftarrow> part_at s next;
          walk_path dev d tmp_item (next_part y) s } })"

definition fat16_get_directory_entry :: "device \<Rightarrow> u32 \<Rightarrow> u32 \<Rightarrow> 'a disk_machine_scheme \<Rightarrow>
    (u32 \<times> 'a disk_machine_scheme) option" where
  "fat16_get_directory_entry dev d path s = do {
     let s = klog ''FAT16 filesystem is finding the file.\<newline>'' s;
     (private, pr) \<leftarrow> disk_private s d;
     x \<leftarrow> part_at s path;
     (root_item, s) \<leftarrow> fat16_find_item_in_directory dev d (root_dir pr) (part x) s;
     if root_item = 0 then Some (0, s)
     else do {
       x \<leftarrow> part_at s path;
       walk_path dev d root_item (next_part x) s } }"

end
