(* ===== verification/Fat16.thy ===== *)
theory Fat16
  imports Fat16_Directory
begin

text \<open>
  The operations of \<open>fs/fat16.c\<close> that the file layer calls: \<open>fat16_init\<close>, \<open>fat16_resolve\<close>,
  \<open>fat16_open\<close>, \<open>fat16_read\<close>, \<open>fat16_seek\<close>, \<open>fat16_stat\<close> and \<open>fat16_close\<close>. The name of the
  global \<open>fat16_fs\<close> is the ten bytes at its address; a \<open>struct file_stat\<close> is 32 bytes in memory.
\<close>

section \<open>Constants and layout (include/fs/file.h)\<close>

definition SEEK_SET :: u32 where "SEEK_SET = 0"
definition SEEK_CUR :: u32 where "SEEK_CUR = 1"
definition SEEK_END :: u32 where "SEEK_END = 2"
definition FILE_MODE_READ :: u32 where "FILE_MODE_READ = 0"
definition FILE_MODE_WRITE :: u32 where "FILE_MODE_WRITE = 1"
definition FILE_MODE_APPEND :: u32 where "FILE_MODE_APPEND = 2"
definition FILE_MODE_INVALID :: u32 where "FILE_MODE_INVALID = 3"
definition FILE_STAT_READ_ONLY :: u8 where "FILE_STAT_READ_ONLY = 0x01"

lemmas file_consts = SEEK_SET_def SEEK_CUR_def SEEK_END_def FILE_MODE_READ_def FILE_MODE_WRITE_def
  FILE_MODE_APPEND_def FILE_MODE_INVALID_def FILE_STAT_READ_ONLY_def

definition st_filename :: "u32 \<Rightarrow> u32" where "st_filename p = p + 4"
definition st_ext :: "u32 \<Rightarrow> u32" where "st_ext p = p + 12"
definition st_attribute :: "u32 \<Rightarrow> u32" where "st_attribute p = p + 15"
definition st_reserved :: "u32 \<Rightarrow> u32" where "st_reserved p = p + 16"
definition st_creation_time :: "u32 \<Rightarrow> u32" where "st_creation_time p = p + 18"
definition st_creation_date :: "u32 \<Rightarrow> u32" where "st_creation_date p = p + 20"
definition st_last_access :: "u32 \<Rightarrow> u32" where "st_last_access p = p + 22"
definition st_last_mod_time :: "u32 \<Rightarrow> u32" where "st_last_mod_time p = p + 24"
definition st_last_mod_date :: "u32 \<Rightarrow> u32" where "st_last_mod_date p = p + 26"
definition st_filesize :: "u32 \<Rightarrow> u32" where "st_filesize p = p + 28"

section \<open>Mounting\<close>

definition fat16_init :: "'a disk_machine_scheme \<Rightarrow> u32 \<times> 'a disk_machine_scheme" where
  "fat16_init s =
     (let s = klog ''Initializing FAT16 filesystem...\<newline>'' s;
          s = s\<lparr>mem := write_bytes (fat16_fs_address s) [0x46, 0x41, 0x54, 0x31, 0x36, 0x00] (mem s)\<rparr>
      in (fat16_fs_address s, s))"

definition klog_number :: "int \<Rightarrow> 'a machine_scheme \<Rightarrow> 'a machine_scheme option" where
  "klog_number x s = do { c \<leftarrow> print_number x (con s); Some (s\<lparr>con := c\<rparr>) }"

text \<open>The part of \<open>fat16_resolve\<close> between creating the stream and its label \<open>out\<close>.\<close>

definition fat16_load_header :: "device \<Rightarrow> u32 \<Rightarrow> u32 \<Rightarrow> u32 \<Rightarrow> 'a disk_machine_scheme \<Rightarrow>
    (int \<times> 'a disk_machine_scheme) option" where
  "fat16_load_header dev d fat_private stream s =
     (if stream = 0 then Some (- ENOMEM, s)
      else do {
        (res, s) \<leftarrow> disk_stream_read dev stream fat_private sizeof_fat_h s;
        if res \<noteq> 0 then Some (- EIO, s)
        else do {
          let s = klog ''FAT16 filesystem reads headers of boot sector successfully.\<newline>'' s;
          if h_signature (mem s) fat_private \<noteq> FAT16_SIGNATURE then Some (- EIO, s)
          else do {
            (res, s) \<leftarrow> fat16_get_root_directory dev d fat_private s;
            if res \<noteq> 0 then Some (- EIO, s)
            else do {
              let s = klog ''FAT16 filesystem loaded root directory successfully with total entry: '' s;
              pr \<leftarrow> private_at s fat_private;
              s \<leftarrow> klog_number (dir_total (root_dir pr)) s;
              Some (0, klog ''.\<newline>'' s) } } } })"

definition fat16_resolve :: "device \<Rightarrow> u32 \<Rightarrow> 'a disk_machine_scheme \<Rightarrow> (int \<times> 'a disk_machine_scheme) option" where
  "fat16_resolve dev d s = do {
     dk \<leftarrow> disk_at s d;
     let s = klog ''FAT16 filesystem is trying to resolve the disk: '' s;
     s \<leftarrow> klog_number (disk_id dk) s;
     let s = klog ''.\<newline>'' s;
     let (fat_private, s) = kzalloc_obj s 92 (Obj_private
       \<lparr>root_dir = \<lparr>dir_item = 0, dir_total = 0, sector_pos = 0, ending_sector_pos = 0\<rparr>,
        cluster_read_stream = 0, fat_read_stream = 0, directory_stream = 0\<rparr>);
     s \<leftarrow> fat16_init_private_data d fat_private s;
     let s = s\<lparr>disk_var := (disk_var s)\<lparr>fs_private_data := fat_private, disk_fs := fat16_fs_address s\<rparr>\<rparr>;
     (stream, s) \<leftarrow> create_disk_stream (disk_id dk) s;
     (res, s) \<leftarrow> fat16_load_header dev d fat_private stream s;
     s \<leftarrow> (if stream \<noteq> 0 then release_disk_stream stream s else Some s);
     if res < 0 then do {
       s \<leftarrow> kfree s fat_private;
       let s = s\<lparr>disk_var := (disk_var s)\<lparr>fs_private_data := 0\<rparr>\<rparr>;
       Some (res, klog ''FAT16 filesystem is failed to resolve the disk.\<newline>'' s) }
     else Some (res, s) }"

section \<open>Opening and closing\<close>

definition fat16_open_error :: "u32 \<Rightarrow> int \<Rightarrow> 'a disk_machine_scheme \<Rightarrow> (u32 \<times> 'a disk_machine_scheme) option" where
  "fat16_open_error fat_fd error_code s = do {
     let s = klog ''FAT16 filesystem is failed to open the file.\<newline>'' s;
     s \<leftarrow> (if fat_fd \<noteq> 0 then kfree s fat_fd else Some s);
     Some (ERR_PTR error_code, s) }"

definition fat16_open :: "device \<Rightarrow> u32 \<Rightarrow> u32 \<Rightarrow> u32 \<Rightarrow> 'a disk_machine_scheme \<Rightarrow> (u32 \<times> 'a disk_machine_scheme) option" where
  "fat16_open dev d path mode s =
     (if mode \<noteq> FILE_MODE_READ then fat16_open_error 0 (- EROFS) s
      else
        let (fat_fd, s) = kzalloc_obj s 8 (Obj_ffd \<lparr>fat_fd_item = 0, fat_fd_pos = 0\<rparr>) in
        if fat_fd = 0 then fat16_open_error fat_fd (- ENOMEM) s
        else do {
          let s = klog ''FAT16 filesystem is opening the file.\<newline>'' s;
          (item, s) \<leftarrow> fat16_get_directory_entry dev d path s;
          x \<leftarrow> ffd_at s fat_fd;
          let s = put_obj fat_fd (Obj_ffd (x\<lparr>fat_fd_item := item\<rparr>)) s;
          if item = 0 then fat16_open_error fat_fd (- EIO) s
          else Some (fat_fd, put_obj fat_fd (Obj_ffd (x\<lparr>fat_fd_item := item, fat_fd_pos := 0\<rparr>)) s) })"

definition fat16_free_file_descriptor :: "u32 \<Rightarrow> 'a machine_scheme \<Rightarrow> 'a machine_scheme option" where
  "fat16_free_file_descriptor fat_desc s = do {
     x \<leftarrow> ffd_at s fat_desc;
     s \<leftarrow> fat16_fat_item_free (fat_fd_item x) s;
     kfree s fat_desc }"

definition fat16_close :: "u32 \<Rightarrow> 'a machine_scheme \<Rightarrow> (int \<times> 'a machine_scheme) option" where
  "fat16_close p s = do {
     s \<leftarrow> fat16_free_file_descriptor p s;
     Some (0, s) }"

section \<open>Reading, seeking, status\<close>

text \<open>\<open>n\<close> blocks of \<open>size\<close> bytes are left.\<close>

fun fat16_read_loop :: "nat \<Rightarrow> device \<Rightarrow> u32 \<Rightarrow> u32 \<Rightarrow> u32 \<Rightarrow> u32 \<Rightarrow> u32 \<Rightarrow> int \<Rightarrow> 'a disk_machine_scheme \<Rightarrow>
    (int \<times> 'a disk_machine_scheme) option" where
  "fat16_read_loop 0 dev d item offset size_bytes out res s = Some (res, s)"
| "fat16_read_loop (Suc n) dev d item offset size_bytes out res s = do {
     (res, s) \<leftarrow> fat16_read_internal dev d (fat16_get_first_cluster (mem s) item) (sint offset) (sint size_bytes) out s;
     if res < 0 then Some (res, s)
     else fat16_read_loop n dev d item (offset + size_bytes) size_bytes (out + size_bytes) 0 s }"

definition fat16_read :: "device \<Rightarrow> u32 \<Rightarrow> u32 \<Rightarrow> u32 \<Rightarrow> u32 \<Rightarrow> u32 \<Rightarrow> 'a disk_machine_scheme \<Rightarrow>
    (int \<times> 'a disk_machine_scheme) option" where
  "fat16_read dev d p size_bytes nmemb out s = do {
     fat_desc \<leftarrow> ffd_at s p;
     x \<leftarrow> item_at s (fat_fd_item fat_desc);
     let item = item_ptr x;
     let offset = fat_fd_pos fat_desc;
     (res, s) \<leftarrow> fat16_read_loop (unat nmemb) dev d item offset size_bytes out 0 s;
     if res < 0 then Some (res, s) else Some (sint nmemb, s) }"

definition fat16_seek :: "u32 \<Rightarrow> u32 \<Rightarrow> u32 \<Rightarrow> 'a machine_scheme \<Rightarrow> (int \<times> 'a machine_scheme) option" where
  "fat16_seek p offset seek_mode s = do {
     fat_desc \<leftarrow> ffd_at s p;
     desc_item \<leftarrow> item_at s (fat_fd_item fat_desc);
     if item_type desc_item \<noteq> FAT_ITEM_TYPE_FILE then Some (- EINVAL, s)
     else
       let item = item_ptr desc_item in
       if offset \<ge> i_filesize (mem s) item then Some (- EIO, s)
       else if seek_mode = SEEK_SET then Some (0, put_obj p (Obj_ffd (fat_desc\<lparr>fat_fd_pos := offset\<rparr>)) s)
       else if seek_mode = SEEK_CUR
       then Some (0, put_obj p (Obj_ffd (fat_desc\<lparr>fat_fd_pos := fat_fd_pos fat_desc + offset\<rparr>)) s)
       else Some (- EINVAL, s) }"

definition fat16_stat :: "u32 \<Rightarrow> u32 \<Rightarrow> 'a machine_scheme \<Rightarrow> (int \<times> 'a machine_scheme) option" where
  "fat16_stat p stat s = do {
     fat_desc \<leftarrow> ffd_at s p;
     desc_item \<leftarrow> item_at s (fat_fd_item fat_desc);
     if item_type desc_item \<noteq> FAT_ITEM_TYPE_FILE then Some (- EINVAL, s)
     else do {
       let item = item_ptr desc_item;
       m \<leftarrow> strcpy (st_filename stat) item (mem s);
       m \<leftarrow> strcpy (st_ext stat) (i_ext item) m;
       let m = (if i_attribute m item AND FAT_FILE_READ_ONLY \<noteq> 0
         then m(st_attribute stat := m (st_attribute stat) OR FILE_STAT_READ_ONLY)
         else m(st_attribute stat := 0x00));
       let m = m(st_reserved stat := i_reserved m item);
       let m = store16 (st_creation_time stat) (i_creation_time m item) m;
       let m = store16 (st_creation_date stat) (i_creation_date m item) m;
       let m = store16 (st_last_access stat) (i_last_access m item) m;
       let m = store16 (st_last_mod_time stat) (i_last_mod_time m item) m;
       let m = store16 (st_last_mod_date stat) (i_last_mod_date m item) m;
       let m = store32 (st_filesize stat) (i_filesize m item) m;
       Some (0, s\<lparr>mem := m\<rparr>) } }"

end
