(* ===== verification/Vfs.thy ===== *)
theory Vfs
  imports Fat16
begin

text \<open>
  The file layer \<open>fs/file.c\<close>: the table of filesystems, the table of file descriptors and the
  calls \<open>fopen\<close>, \<open>fread\<close>, \<open>fseek\<close>, \<open>fstat\<close>, \<open>fclose\<close>. A \<open>struct filesystem\<close> holds
  function pointers; the model takes the functions behind them as the argument \<open>fss\<close>, by the
  address of the struct, and \<open>fat16_ops\<close> is the table for \<open>fat16_fs\<close>. The string literals
  \<open>"r"\<close>, \<open>"w"\<close>, \<open>"a"\<close> are compared by their one character, as \<open>strncmp\<close> with count 1 does.
\<close>

section \<open>State\<close>

definition MAX_FILESYSTEMS :: nat where "MAX_FILESYSTEMS = 12"
definition MAX_FILE_DESCRIPTORS :: nat where "MAX_FILE_DESCRIPTORS = 512"

record fs_machine = disk_machine +
  filesystems :: "u32 list"
  file_descriptors :: "u32 list"

text \<open>The function pointers of \<open>struct filesystem\<close>; \<open>resolve\<close> is the one the code tests for NULL.\<close>

record 's filesystem =
  fs_resolve_fn :: "(u32 \<Rightarrow> 's \<Rightarrow> (int \<times> 's) option) option"
  fs_open_fn :: "u32 \<Rightarrow> u32 \<Rightarrow> u32 \<Rightarrow> 's \<Rightarrow> (u32 \<times> 's) option"
  fs_read_fn :: "u32 \<Rightarrow> u32 \<Rightarrow> u32 \<Rightarrow> u32 \<Rightarrow> u32 \<Rightarrow> 's \<Rightarrow> (int \<times> 's) option"
  fs_seek_fn :: "u32 \<Rightarrow> u32 \<Rightarrow> u32 \<Rightarrow> 's \<Rightarrow> (int \<times> 's) option"
  fs_stat_fn :: "u32 \<Rightarrow> u32 \<Rightarrow> u32 \<Rightarrow> 's \<Rightarrow> (int \<times> 's) option"
  fs_close_fn :: "u32 \<Rightarrow> 's \<Rightarrow> (int \<times> 's) option"

type_synonym 's fs_table = "u32 \<Rightarrow> 's filesystem option"

definition fat16_ops :: "device \<Rightarrow> 'a disk_machine_scheme filesystem" where
  "fat16_ops dev = \<lparr>fs_resolve_fn = Some (fat16_resolve dev), fs_open_fn = fat16_open dev,
     fs_read_fn = fat16_read dev, fs_seek_fn = fat16_seek, fs_stat_fn = (\<lambda>d. fat16_stat),
     fs_close_fn = fat16_close\<rparr>"

section \<open>Filesystems\<close>

definition fs_get_free_filesystem :: "'a fs_machine_scheme \<Rightarrow> nat option" where
  "fs_get_free_filesystem s = List.find (\<lambda>i. filesystems s ! i = 0) [0..<MAX_FILESYSTEMS]"

definition fs_insert_filesystem :: "u32 \<Rightarrow> 'a fs_machine_scheme \<Rightarrow> 'a fs_machine_scheme option" where
  "fs_insert_filesystem fs s = do {
     let s = klog ''Inserting filesystem: '' s;
     s \<leftarrow> klog_at fs s;
     let s = klog ''.\<newline>'' s;
     i \<leftarrow> fs_get_free_filesystem s;
     let s = s\<lparr>filesystems := (filesystems s)[i := fs]\<rparr>;
     let s = klog ''Inserting filesystem: '' s;
     s \<leftarrow> klog_at fs s;
     Some (klog '' successfully.\<newline>'' s) }"

definition fs_static_load :: "'a fs_machine_scheme \<Rightarrow> 'a fs_machine_scheme option" where
  "fs_static_load s = (let (fs, s) = fat16_init s in fs_insert_filesystem fs s)"

definition fs_load :: "'a fs_machine_scheme \<Rightarrow> 'a fs_machine_scheme option" where
  "fs_load s = fs_static_load (s\<lparr>filesystems := replicate MAX_FILESYSTEMS 0\<rparr>)"

definition fs_init :: "'a fs_machine_scheme \<Rightarrow> 'a fs_machine_scheme option" where
  "fs_init s = fs_load (s\<lparr>file_descriptors := replicate MAX_FILE_DESCRIPTORS 0\<rparr>)"

text \<open>The slots from \<open>fs\<close> on are left to try.\<close>

fun fs_resolve_loop :: "'a fs_machine_scheme fs_table \<Rightarrow> u32 \<Rightarrow> u32 list \<Rightarrow> 'a fs_machine_scheme \<Rightarrow>
    (u32 \<times> 'a fs_machine_scheme) option" where
  "fs_resolve_loop fss d [] s = Some (0, s)"
| "fs_resolve_loop fss d (fs # rest) s =
     (if fs = 0 then fs_resolve_loop fss d rest s
      else do {
        ops \<leftarrow> fss fs;
        case fs_resolve_fn ops of
          None \<Rightarrow> fs_resolve_loop fss d rest s
        | Some resolve \<Rightarrow> do {
            (r, s) \<leftarrow> resolve d s;
            if r = 0 then do {
              let s = klog ''The disk is resolved with filesystem: '' s;
              s \<leftarrow> klog_at fs s;
              Some (fs, klog ''.\<newline>'' s) }
            else fs_resolve_loop fss d rest s } })"

definition fs_resolve :: "'a fs_machine_scheme fs_table \<Rightarrow> u32 \<Rightarrow> 'a fs_machine_scheme \<Rightarrow>
    (u32 \<times> 'a fs_machine_scheme) option" where
  "fs_resolve fss d s = fs_resolve_loop fss d (filesystems s) s"

text \<open>\<open>disk_init\<close> of \<open>disk/disk.c\<close>, which mounts the disk.\<close>

definition disk_init :: "'a fs_machine_scheme fs_table \<Rightarrow> 'a fs_machine_scheme \<Rightarrow> 'a fs_machine_scheme option" where
  "disk_init fss s = do {
     let s = klog ''Initializing disk...\<newline>'' s;
     let s = s\<lparr>disk_var := \<lparr>disk_type = PHYSICAL_HARD_DISK_TYPE, sector_size = DISK_SECTOR_SIZE,
       disk_id = 0, disk_fs = 0, fs_private_data = 0\<rparr>\<rparr>;
     (fs, s) \<leftarrow> fs_resolve fss (disk_address s) s;
     Some (s\<lparr>disk_var := (disk_var s)\<lparr>disk_fs := fs\<rparr>\<rparr>) }"

section \<open>File descriptors\<close>

text \<open>The result code and the new descriptor.\<close>

definition make_new_file_descriptor :: "'a fs_machine_scheme \<Rightarrow> (int \<times> u32 \<times> 'a fs_machine_scheme) option" where
  "make_new_file_descriptor s =
     (case List.find (\<lambda>i. file_descriptors s ! i = 0) [0..<MAX_FILE_DESCRIPTORS] of
        None \<Rightarrow> Some (- ENOMEM, 0, s)
      | Some i \<Rightarrow>
          let (fd, s) = kzalloc_obj s 16 (Obj_fd \<lparr>fd_index = 0, fd_fs = 0, fd_disk = 0, fd_p = 0\<rparr>)
          in do {
            x \<leftarrow> fd_at s fd;
            let s = put_obj fd (Obj_fd (x\<lparr>fd_index := int i + 1\<rparr>)) s;
            Some (0, fd, s\<lparr>file_descriptors := (file_descriptors s)[i := fd]\<rparr>) })"

definition release_file_descriptor :: "u32 \<Rightarrow> 'a fs_machine_scheme \<Rightarrow> (int \<times> 'a fs_machine_scheme) option" where
  "release_file_descriptor fd s = do {
     x \<leftarrow> fd_at s fd;
     if fd_index x < 1 \<or> int MAX_FILE_DESCRIPTORS < fd_index x then None
     else do {
       s \<leftarrow> kfree (s\<lparr>file_descriptors := (file_descriptors s)[nat (fd_index x - 1) := 0]\<rparr>) fd;
       Some (0, s) } }"

definition get_file_descriptor :: "int \<Rightarrow> 'a fs_machine_scheme \<Rightarrow> u32" where
  "get_file_descriptor index s =
     (if index \<le> 0 \<or> index \<ge> int MAX_FILE_DESCRIPTORS then 0
      else file_descriptors s ! nat (index - 1))"

definition get_file_mode_by_string :: "memory \<Rightarrow> u32 \<Rightarrow> u32" where
  "get_file_mode_by_string m str =
     (if m str = 0x72 then FILE_MODE_READ
      else if m str = 0x77 then FILE_MODE_WRITE
      else if m str = 0x61 then FILE_MODE_APPEND
      else FILE_MODE_INVALID)"

section \<open>The calls\<close>

text \<open>\<open>fopen\<close> up to its label \<open>out\<close>: the value of \<open>res\<close> there.\<close>

definition fopen_res :: "'a fs_machine_scheme fs_table \<Rightarrow> u32 \<Rightarrow> u32 \<Rightarrow> 'a fs_machine_scheme \<Rightarrow>
    (int \<times> 'a fs_machine_scheme) option" where
  "fopen_res fss file_name mode_of_operation s = do {
     (root, s) \<leftarrow> path_parse file_name s;
     if root = 0 then Some (- EINVAL, s)
     else do {
       let d = get_disk s 0;
       if d = 0 then Some (- EIO, s)
       else do {
         dk \<leftarrow> disk_at s d;
         if disk_fs dk = 0 then Some (- EIO, s)
         else do {
           let mode = get_file_mode_by_string (mem s) mode_of_operation;
           if mode = FILE_MODE_INVALID then Some (- EINVAL, s)
           else do {
             let s = klog ''Trying to open: '' s;
             s \<leftarrow> klog_at file_name s;
             let s = klog '' using fs: '' s;
             s \<leftarrow> klog_at (disk_fs dk) s;
             let s = klog '' of the disk: '' s;
             s \<leftarrow> klog_number (disk_id dk) s;
             let s = klog ''\<newline>'' s;
             ops \<leftarrow> fss (disk_fs dk);
             (fd_private_data, s) \<leftarrow> fs_open_fn ops d root mode s;
             if IS_ERR fd_private_data then Some (PTR_ERR fd_private_data, s)
             else do {
               (res, fd, s) \<leftarrow> make_new_file_descriptor s;
               if res < 0 then Some (res, s)
               else do {
                 dk \<leftarrow> disk_at s d;
                 x \<leftarrow> fd_at s fd;
                 let s = put_obj fd (Obj_fd (x\<lparr>fd_fs := disk_fs dk, fd_p := fd_private_data, fd_disk := d\<rparr>)) s;
                 Some (fd_index x, s) } } } } } } }"

definition fopen :: "'a fs_machine_scheme fs_table \<Rightarrow> u32 \<Rightarrow> u32 \<Rightarrow> 'a fs_machine_scheme \<Rightarrow>
    (int \<times> 'a fs_machine_scheme) option" where
  "fopen fss file_name mode_of_operation s = do {
     (res, s) \<leftarrow> fopen_res fss file_name mode_of_operation s;
     Some (if res < 0 then 0 else res, s) }"

text \<open>The descriptor and the operations of its filesystem, for the calls below.\<close>

definition fd_ops :: "'a fs_machine_scheme fs_table \<Rightarrow> u32 \<Rightarrow> 'a fs_machine_scheme \<Rightarrow>
    (file_descriptor \<times> 'a fs_machine_scheme filesystem) option" where
  "fd_ops fss desc s = do {
     x \<leftarrow> fd_at s desc;
     ops \<leftarrow> fss (fd_fs x);
     Some (x, ops) }"

definition fread :: "'a fs_machine_scheme fs_table \<Rightarrow> int \<Rightarrow> u32 \<Rightarrow> u32 \<Rightarrow> u32 \<Rightarrow> 'a fs_machine_scheme \<Rightarrow>
    (int \<times> 'a fs_machine_scheme) option" where
  "fread fss fd ptr size_bytes nmemb s =
     (if fd < 1 \<or> size_bytes = 0 \<or> nmemb = 0 then Some (- EINVAL, s)
      else
        let desc = get_file_descriptor fd s in
        if desc = 0 then Some (- EINVAL, s)
        else do {
          (x, ops) \<leftarrow> fd_ops fss desc s;
          fs_read_fn ops (fd_disk x) (fd_p x) size_bytes nmemb ptr s })"

definition fseek :: "'a fs_machine_scheme fs_table \<Rightarrow> int \<Rightarrow> int \<Rightarrow> u32 \<Rightarrow> 'a fs_machine_scheme \<Rightarrow>
    (int \<times> 'a fs_machine_scheme) option" where
  "fseek fss fd offset whence s =
     (let desc = get_file_descriptor fd s in
      if desc = 0 then Some (- EINVAL, s)
      else do {
        (x, ops) \<leftarrow> fd_ops fss desc s;
        fs_seek_fn ops (fd_p x) (word_of_int offset) whence s })"

definition fstat :: "'a fs_machine_scheme fs_table \<Rightarrow> int \<Rightarrow> u32 \<Rightarrow> 'a fs_machine_scheme \<Rightarrow>
    (int \<times> 'a fs_machine_scheme) option" where
  "fstat fss fd stat s =
     (let desc = get_file_descriptor fd s in
      if desc = 0 then Some (- EINVAL, s)
      else do {
        (x, ops) \<leftarrow> fd_ops fss desc s;
        fs_stat_fn ops (fd_disk x) (fd_p x) stat s })"

definition fclose :: "'a fs_machine_scheme fs_table \<Rightarrow> int \<Rightarrow> 'a fs_machine_scheme \<Rightarrow>
    (int \<times> 'a fs_machine_scheme) option" where
  "fclose fss fd s =
     (let desc = get_file_descriptor fd s in
      if desc = 0 then Some (- EINVAL, s)
      else do {
        (x, ops) \<leftarrow> fd_ops fss desc s;
        (res, s) \<leftarrow> fs_close_fn ops (fd_p x) s;
        if res < 0 then Some (res, s)
        else do {
          (_, s) \<leftarrow> release_file_descriptor desc s;
          Some (res, s) } })"

end
