(* ===== verification/Fat16_Correct.thy ===== *)
theory Fat16_Correct
  imports Fat16 Disk_Correct
begin

text \<open>
  Correctness of the parts of the FAT16 driver: the names of directory items, the scan that
  counts them, an entry of the allocation table, and data of one cluster.
\<close>

section \<open>Names\<close>

text \<open>The text in a space-padded field, and the name of an item from its first eleven bytes.\<close>

definition field_text :: "u8 list \<Rightarrow> u8 list" where
  "field_text bs = takeWhile (\<lambda>c. c \<noteq> 0x00 \<and> c \<noteq> 0x20) bs"

definition item_name :: "u8 list \<Rightarrow> u8 list" where
  "item_name bs = (let n = field_text (take 8 bs); e = field_text (take 3 (drop 8 bs))
    in if e = [] then n else n @ [0x2E] @ e)"

lemma length_field_text: "length (field_text bs) \<le> length bs"
  by (simp add: field_text_def length_takeWhile_le)

lemma field_text_nonzero: "c \<in> set (field_text bs) \<Longrightarrow> c \<noteq> 0"
  by (auto simp: field_text_def dest: set_takeWhileD)

lemma item_name_nonzero: "c \<in> set (item_name bs) \<Longrightarrow> c \<noteq> 0"
  using field_text_nonzero [of c "take 8 bs"] field_text_nonzero [of c "take 3 (drop 8 bs)"]
  by (auto simp: item_name_def Let_def split: if_splits)

lemma length_item_name: "length (item_name bs) \<le> 12"
  using length_field_text [of "take 8 bs"] length_field_text [of "take 3 (drop 8 bs)"]
  by (auto simp: item_name_def Let_def)

lemma proper_string_loop_text:
  assumes "n < 2 ^ 32" and "addrs out n \<inter> addrs inp n = {}"
  shows "proper_string_loop n out inp m = (let t = field_text (bytes_at m inp n) in
    (out + of_nat (length t), write_bytes out t m))"
  using assms
proof (induction n arbitrary: out inp m)
  case 0
  then show ?case by (simp add: field_text_def bytes_at_def)
next
  case (Suc n)
  have heads: "addrs out (Suc n) = insert out (addrs (out + 1) n)" "addrs inp (Suc n) = insert inp (addrs (inp + 1) n)"
    using Suc.prems(1) by (simp_all add: addrs_Suc_head)
  have apart: "addrs (out + 1) n \<inter> addrs (inp + 1) n = {}" and o: "out \<notin> addrs (inp + 1) n"
    using Suc.prems(2) heads by auto
  show ?case
  proof (cases "m inp \<noteq> 0 \<and> m inp \<noteq> 0x20")
    case True
    let ?m = "m(out := m inp)" and ?t = "field_text (bytes_at m (inp + 1) n)"
    have b: "bytes_at ?m (inp + 1) n = bytes_at m (inp + 1) n"
      using o Suc.prems(1) by (intro bytes_at_cong) auto
    have l: "length ?t < 2 ^ 32"
      using length_field_text [of "bytes_at m (inp + 1) n"] Suc.prems(1) by simp
    have "proper_string_loop (Suc n) out inp m = (out + 1 + of_nat (length ?t), write_bytes (out + 1) ?t ?m)"
      using True Suc.IH [OF _ apart, of ?m, unfolded b] Suc.prems(1) by (simp add: Let_def del: fun_upd_apply)
    moreover have "field_text (bytes_at m inp (Suc n)) = m inp # ?t"
      using True by (simp add: bytes_at_Suc field_text_def)
    ultimately show ?thesis using l by (simp add: Let_def write_bytes_Cons add.assoc)
  next
    case False
    then show ?thesis by (auto simp: bytes_at_Suc field_text_def Let_def)
  qed
qed

lemma to_proper_string_text:
  assumes "n < 2 ^ 32" and "addrs out n \<inter> addrs inp n = {}"
  shows "fat16_to_proper_string out inp n m = (let t = field_text (bytes_at m inp n) in
    (out + of_nat (length t), write_bytes out (t @ [0]) m))"
  using length_field_text [of "bytes_at m inp n"] assms(1)
  by (simp add: fat16_to_proper_string_def proper_string_loop_text [OF assms] Let_def write_bytes_snoc)

lemma full_name_bytes:
  assumes apart: "addrs out 100 \<inter> addrs item 11 = {}"
  shows "fat16_get_full_relative_filename item out 100 m =
    write_bytes out (item_name (bytes_at m item 11) @ [0]) (memset out 0 100 m)"
proof -
  let ?m = "memset out 0 100 m"
  define n e where "n = field_text (bytes_at m item 8)" and "e = field_text (bytes_at m (item + 8) 3)"
  have len: "length n \<le> 8" "length e \<le> 3"
    using length_field_text [of "bytes_at m item 8"] length_field_text [of "bytes_at m (item + 8) 3"]
    by (simp_all add: n_def e_def)
  have sub: "addrs item 8 \<subseteq> addrs item 11" "addrs (item + 8) 3 \<subseteq> addrs item 11"
    using addrs_suffix [of 8 11 item] by (simp_all add: addrs_mono)
  have subo: "addrs out k \<subseteq> addrs out 100" if "k \<le> 100" for k using that by (rule addrs_mono)
  have same: "write_bytes out bs ?m a = m a" if "a \<in> addrs item 11" "length bs \<le> 100" for a bs
    using that apart subo [of "length bs"] by (auto simp: memset_apply write_bytes_def)
  have same8: "bytes_at ?m item 8 = bytes_at m item 8"
    using same [of _ "[]"] sub by (intro bytes_at_cong) auto
  have one: "fat16_to_proper_string out item 8 ?m = (out + of_nat (length n), write_bytes out (n @ [0]) ?m)"
    using to_proper_string_text [of 8 out item ?m] apart sub subo [of 8] by (simp add: Let_def n_def same8) blast
  have e: "e = [] \<longleftrightarrow> m (item + 8) = 0 \<or> m (item + 8) = 0x20"
    using bytes_at_Suc [of m "item + 8" 2] by (simp add: e_def field_text_def numeral_3_eq_3 numeral_2_eq_2)
  have "item + 8 \<in> addrs item 11" using in_addrs_offset [of 8 11 item] by simp
  then have guard: "write_bytes out (n @ [0]) ?m (i_ext item) = m (item + 8)"
    using same [of "item + 8" "n @ [0]"] len by (simp add: i_ext_def)
  define m2 where "m2 = write_bytes out (n @ [0x2E]) ?m"
  have dot: "(write_bytes out (n @ [0]) ?m)(out + of_nat (length n) := 0x2E) = m2"
    using len by (simp add: m2_def write_bytes_snoc)
  have same3: "bytes_at m2 (item + 8) 3 = bytes_at m (item + 8) 3"
    unfolding m2_def using sub len by (intro bytes_at_cong same) auto
  have o2: "addrs (out + of_nat (length n) + 1) 3 \<subseteq> addrs out 100"
    using addrs_suffix [of "length n + 1" "length n + 4" out] subo [of "length n + 4"] len by (simp add: add_ac)
  have two: "snd (fat16_to_proper_string (out + of_nat (length n) + 1) (i_ext item) 3 m2) =
      write_bytes (out + of_nat (length n) + 1) (e @ [0]) m2"
  proof -
    have "addrs (out + of_nat (length n) + 1) 3 \<inter> addrs (item + 8) 3 = {}" using apart sub(2) o2 by blast
    then show ?thesis
      using to_proper_string_text [of 3 "out + of_nat (length n) + 1" "item + 8" m2]
      by (simp add: Let_def e_def same3 i_ext_def)
  qed
  have join: "write_bytes (out + of_nat (length n) + 1) (e @ [0]) m2 = write_bytes out ((n @ [0x2E]) @ e @ [0]) ?m"
    unfolding m2_def using write_bytes_append [of "n @ [0x2E]" "e @ [0]" out ?m] len by (simp add: add_ac)
  have "bytes_at m item 11 = bytes_at m item 8 @ bytes_at m (item + 8) 3"
    using bytes_at_append [of m item 8 3] by simp
  then have name: "item_name (bytes_at m item 11) = (if e = [] then n else n @ [0x2E] @ e)"
    by (simp add: item_name_def n_def e_def)
  show ?thesis
    unfolding fat16_get_full_relative_filename_def Let_def one prod.case guard dot two join name
    using e by auto
qed

lemma full_name_str:
  assumes "addrs out 100 \<inter> addrs item 11 = {}"
  shows "str_at (fat16_get_full_relative_filename item out 100 m) out (item_name (bytes_at m item 11))"
    and "a \<notin> addrs out 100 \<Longrightarrow> fat16_get_full_relative_filename item out 100 m a = m a"
proof -
  let ?t = "item_name (bytes_at m item 11)"
  have t: "length ?t \<le> 12" by (rule length_item_name)
  show "str_at (fat16_get_full_relative_filename item out 100 m) out ?t"
    unfolding full_name_bytes [OF assms]
    using t by (intro str_at_write_bytes) (auto dest: item_name_nonzero)
  show "fat16_get_full_relative_filename item out 100 m a = m a" if "a \<notin> addrs out 100"
    using that t addrs_mono [of "length (?t @ [0])" 100 out]
    by (auto simp: full_name_bytes [OF assms] memset_apply write_bytes_def)
qed

section \<open>Counting the items of a directory\<close>

definition disk_byte :: "(nat \<Rightarrow> u8 list) \<Rightarrow> nat \<Rightarrow> u8" where
  "disk_byte img a = img (a div 512) ! (a mod 512)"

lemma disk_bytes_nth: "i < n \<Longrightarrow> disk_bytes img p n ! i = disk_byte img (p + i)"
  by (simp add: disk_bytes_def disk_byte_def)

text \<open>The number of items in use among \<open>k\<close> directory entries from byte \<open>p\<close> of the disk on.\<close>

definition used_items :: "(nat \<Rightarrow> u8 list) \<Rightarrow> nat \<Rightarrow> nat \<Rightarrow> int" where
  "used_items img p k = int (length (filter (\<lambda>i. disk_byte img (p + 32 * i) \<noteq> 0xE5) [0..<k]))"

lemma used_items_Suc:
  "used_items img p (Suc k) = (if disk_byte img p = 0xE5 then 0 else 1) + used_items img (p + 32) k"
proof -
  have "[0..<Suc k] = 0 # map Suc [0..<k]" by (simp add: upt_conv_Cons map_Suc_upt del: upt_Suc)
  moreover have "length (filter (\<lambda>i. disk_byte img (p + 32 * i) \<noteq> 0xE5) (map Suc [0..<k])) =
      length (filter (\<lambda>i. disk_byte img (p + 32 + 32 * i) \<noteq> 0xE5) [0..<k])"
    by (simp add: filter_map o_def add.assoc)
  ultimately show ?thesis by (simp add: used_items_def del: upt_Suc)
qed

lemma entry_in_sector: "p mod 32 = 0 \<Longrightarrow> p mod 512 + 32 \<le> 512" for p :: nat
proof -
  assume "p mod 32 = 0"
  then have "p mod 512 mod 32 = 0" by (simp add: mod_mod_cancel)
  then obtain k where k: "p mod 512 = 32 * k" by (auto simp: mod_eq_0_iff_dvd)
  moreover have "p mod 512 < 512" by simp
  ultimately have "k < 16" by linarith
  then show ?thesis by (simp add: k)
qed

lemma count_items_used:
  assumes "ata_ok dev img" and "objs s stream = Some (stream_state p s)" and "p mod 32 = 0" and "p + 32 * Suc k < 2 ^ 31"
    and "\<And>i. i < k \<Longrightarrow> disk_byte img (p + 32 * i) \<noteq> 0" and "disk_byte img (p + 32 * k) = 0"
  shows "\<exists>h. count_items dev stream n s =
    Some (n + used_items img p k, put_obj stream (stream_state (p + 32 * Suc k) s) (s\<lparr>io := h\<rparr>))"
  using assms(2-6)
proof (induction k arbitrary: p s n)
  case 0
  note fit = entry_in_sector [OF 0(2)]
  obtain h where "disk_stream_fetch dev stream 32 s =
      Some (0, disk_bytes img p 32, put_obj stream (stream_state (p + 32) s) (s\<lparr>io := h\<rparr>))"
    using fetch_one [OF assms(1) 0(1), of 32] fit 0(3) by auto
  then show ?case
    using 0(5) by (intro exI [of _ h], subst count_items.simps)
      (simp add: sizeof_item_def disk_bytes_nth used_items_def)
next
  case (Suc k)
  note fit = entry_in_sector [OF Suc.prems(2)]
  obtain h where h: "disk_stream_fetch dev stream 32 s =
      Some (0, disk_bytes img p 32, put_obj stream (stream_state (p + 32) s) (s\<lparr>io := h\<rparr>))"
    using fetch_one [OF assms(1) Suc.prems(1), of 32] fit Suc.prems(3) by auto
  let ?s = "put_obj stream (stream_state (p + 32) s) (s\<lparr>io := h\<rparr>)"
  let ?n = "n + (if disk_byte img p = 0xE5 then 0 else 1)"
  have st: "objs ?s stream = Some (stream_state (p + 32) ?s)" by (simp add: stream_state_def)
  have "(p + 32) mod 32 = 0" using Suc.prems(2) by simp
  then obtain h' where h': "count_items dev stream ?n ?s =
      Some (?n + used_items img (p + 32) k, put_obj stream (stream_state (p + 32 + 32 * Suc k) ?s) (?s\<lparr>io := h'\<rparr>))"
    using Suc.IH [OF st, of ?n] Suc.prems(3-5) Suc.prems(4) [of "Suc _"] by (auto simp: add.assoc)
  have "disk_byte img p \<noteq> 0" using Suc.prems(4) [of 0] by simp
  then have "count_items dev stream n s = count_items dev stream ?n ?s"
    using h by (subst count_items.simps) (simp add: sizeof_item_def disk_bytes_nth)
  then show ?case
    unfolding h' by (intro exI [of _ h']) (simp add: used_items_Suc put_obj_def stream_state_def add.assoc)
qed

section \<open>The allocation table and the clusters\<close>

text \<open>A stream that is open on the disk.\<close>

definition stream_on :: "'a disk_machine_scheme \<Rightarrow> u32 \<Rightarrow> bool" where
  "stream_on s st \<longleftrightarrow> (\<exists>p. objs s st = Some (Obj_stream \<lparr>pos = p, disk = disk_address s\<rparr>))"

lemma seek_then:
  assumes "stream_on s st"
  shows "disk_stream_seek st (int p) s = Some (0, put_obj st (stream_state p s) s)"
  using assms by (auto simp: stream_on_def disk_stream_seek_def stream_at_def stream_state_def)

text \<open>The place on the disk that the driver reads the entry of \<open>cluster\<close> from.\<close>

definition fat_entry_pos :: "int \<Rightarrow> int \<Rightarrow> nat" where
  "fat_entry_pos reserved cluster = nat (reserved * 512 * (cluster * 2))"

lemma fat_entry_read:
  assumes "ata_ok dev img" and "disk_at s d = Some dk" and "sector_size dk = 512" and "disk_private s d = Some (private, pr)"
    and "fat_read_stream pr \<noteq> 0" and "stream_on s (fat_read_stream pr)" and "0 \<le> cluster"
    and "fat_entry_pos (h_reserved_sectors (mem s) private) cluster + 2 < 2 ^ 31"
  shows "\<exists>s'. fat16_get_fat_entry dev d cluster s =
    Some (let q = fat_entry_pos (h_reserved_sectors (mem s) private) cluster
          in uint (disk_byte img q) + 256 * uint (disk_byte img (q + 1)), s')"
proof -
  define r q where "r = h_reserved_sectors (mem s) private" and "q = fat_entry_pos r cluster"
  have r: "0 \<le> r" by (simp add: r_def h_reserved_sectors_def)
  have q1: "int q = r * 512 * (cluster * 2)" using r assms(7) by (simp add: q_def fat_entry_pos_def)
  have "q + 2 < 2 ^ 31" using assms(8) by (simp only: q_def r_def)
  then have "int q < 2147483646" by simp
  then have q: "int q = r * 512 * (cluster * 2)" "int q < 2147483646" using q1 by simp_all
  have "sint (word_of_int (r * 512 * (cluster * 2)) :: u32) = int q"
    unfolding q(1) [symmetric] of_int_of_nat_eq by (rule sint_of_nat_u32) (use q(2) in simp)
  then have pos: "sint ((word_of_int r :: u32) * word_of_int 512 * word_of_int (cluster * 2)) = int q"
    by (simp only: wi_hom_mult)
  let ?s = "put_obj (fat_read_stream pr) (stream_state q s) s"
  have st: "objs ?s (fat_read_stream pr) = Some (stream_state q ?s)" by (simp add: stream_state_def)
  have "q mod 512 = 0" using q(1) by (metis int_ops(9) mod_mult_left_eq mod_mult_self1_is_0 mult.assoc mult.commute of_nat_0_eq_iff of_nat_numeral)
  then obtain h where h: "disk_stream_fetch dev (fat_read_stream pr) 2 ?s =
      Some (0, disk_bytes img q 2, put_obj (fat_read_stream pr) (stream_state (q + 2) ?s) (?s\<lparr>io := h\<rparr>))"
    using fetch_one [OF assms(1) st, of 2] q(2) by auto
  show ?thesis
    using assms(2-5) h seek_then [OF assms(6), of q] pos
    by (simp add: fat16_get_fat_entry_def fat16_get_first_fat_sector_def FAT16_FAT_ENTRY_SIZE_def
      disk_bytes_nth Let_def q_def [symmetric] r_def [symmetric])
qed

text \<open>
  The layout of a FAT16 disk: data clusters are numbered from 2 and follow the root directory; the
  number of a file's first cluster is in the low word of its directory item.
\<close>

definition first_byte :: "memory \<Rightarrow> u32 \<Rightarrow> fat_private_data \<Rightarrow> u32 \<Rightarrow> int" where
  "first_byte m private pr item =
     (ending_sector_pos (root_dir pr) + (uint (i_low_16_bits_first_cluster m item) - 2) * h_sectors_per_cluster m private) * 512"

lemma first_byte_code:
  "i_high_16_bits_first_cluster m item = 0 \<Longrightarrow>
     fat16_cluster_to_sector m private pr (fat16_get_first_cluster m item) * 512 = first_byte m private pr item"
  by (simp add: first_byte_def fat16_cluster_to_sector_def fat16_get_first_cluster_def)

text \<open>Reading within the first cluster of a file.\<close>

lemma read_in_cluster:
  assumes dev: "ata_ok dev img" and dk: "disk_at s d = Some dk" and size: "sector_size dk = 512"
    and pr: "disk_private s d = Some (private, pr)" and st: "stream_on s (cluster_read_stream pr)"
    and cl: "0 \<le> cluster" and spc: "0 < h_sectors_per_cluster (mem s) private"
    and off: "int off + int n \<le> h_sectors_per_cluster (mem s) private * 512" "int off < h_sectors_per_cluster (mem s) private * 512"
    and start: "fat16_cluster_to_sector (mem s) private pr cluster * 512 + int off = int start"
    and sector: "start mod 512 = 0 \<or> start mod 512 + n \<le> 512" "start + n < 2 ^ 31"
  shows "\<exists>s'. fat16_read_internal dev d cluster (int off) (int n) out s = Some (0, s') \<and>
    mem s' = write_bytes out (disk_bytes img start n) (mem s) \<and>
    objs s' = (objs s)(cluster_read_stream pr \<mapsto> stream_state (start + n) s) \<and> g_kernel_heap s' = g_kernel_heap s"
proof -
  define c where "c = h_sectors_per_cluster (mem s) private * 512"
  define stream where "stream = cluster_read_stream pr"
  let ?s = "put_obj stream (stream_state start s) s"
  have c: "0 < c" "int off + int n \<le> c" "int off < c" using spc off by (simp_all add: c_def)
  have div: "int off sdiv c = 0" "int off smod c = int off"
    using c by (simp_all add: signed_divide_int_def signed_modulo_int_def sgn_if)
  have obj: "objs ?s stream = Some (stream_state start ?s)" by (simp add: stream_state_def)
  have "\<exists>h. disk_stream_fetch dev stream (int n) ?s =
      Some (0, disk_bytes img start n, put_obj stream (stream_state (start + n) ?s) (?s\<lparr>io := h\<rparr>))"
  proof (cases "start mod 512 = 0")
    case True
    show ?thesis by (rule fetch_many [OF dev obj True sector(2)])
  next
    case False
    then have "start mod 512 + n \<le> 512" using sector(1) by simp
    then show ?thesis using fetch_one [OF dev obj, of n] sector(2) by auto
  qed
  then obtain h where h: "disk_stream_fetch dev stream (int n) ?s =
      Some (0, disk_bytes img start n, put_obj stream (stream_state (start + n) ?s) (?s\<lparr>io := h\<rparr>))" by blast
  have cluster: "fat16_get_cluster_for_offset dev d cluster (int off) s = Some (cluster, s)"
    using dk pr c div size by (simp add: fat16_get_cluster_for_offset_def Let_def c_def)
  have seek: "disk_stream_seek stream (int start) s = Some (0, ?s)"
    using seek_then [OF st, of start] by (simp add: stream_def)
  have "fat16_read_internal dev d cluster (int off) (int n) out s =
      Some (0, (put_obj stream (stream_state (start + n) ?s) (?s\<lparr>io := h\<rparr>))
        \<lparr>mem := write_bytes out (disk_bytes img start n) (mem s)\<rparr>)"
    using dk pr size cl c seek h cluster div start
    by (simp add: fat16_read_internal_def fat16_read_internal_from_stream.simps [of dev d] stream_def [symmetric]
      c_def [symmetric] disk_stream_read_def Let_def)
  then show ?thesis by (simp add: stream_def stream_state_def put_obj_def)
qed

lemma read_in_cluster_overrun:
  assumes dev: "ata_ok dev img" and dk: "disk_at s d = Some dk" and size: "sector_size dk = 512"
    and pr: "disk_private s d = Some (private, pr)" and st: "stream_on s (cluster_read_stream pr)"
    and cl: "0 \<le> cluster" and off: "int off + int n \<le> h_sectors_per_cluster (mem s) private * 512" "0 < n"
    and start: "fat16_cluster_to_sector (mem s) private pr cluster * 512 + int off = int start" "start < 2 ^ 31"
    and past: "start mod 512 \<noteq> 0" "512 < start mod 512 + n"
  shows "fat16_read_internal dev d cluster (int off) (int n) out s = None"
proof -
  define c where "c = h_sectors_per_cluster (mem s) private * 512"
  define stream where "stream = cluster_read_stream pr"
  let ?s = "put_obj stream (stream_state start s) s"
  have c: "0 < c" "int off + int n \<le> c" "int off < c" using off by (simp_all add: c_def)
  have div: "int off sdiv c = 0" "int off smod c = int off"
    using c by (simp_all add: signed_divide_int_def signed_modulo_int_def sgn_if)
  have "objs ?s stream = Some (stream_state start ?s)" by (simp add: stream_state_def)
  then have fetch: "disk_stream_fetch dev stream (int n) ?s = None" using fetch_overrun [OF dev _ start(2) past] by blast
  have cluster: "fat16_get_cluster_for_offset dev d cluster (int off) s = Some (cluster, s)"
    using dk pr c div size by (simp add: fat16_get_cluster_for_offset_def Let_def c_def)
  have seek: "disk_stream_seek stream (int start) s = Some (0, ?s)"
    using seek_then [OF st, of start] by (simp add: stream_def)
  show ?thesis
    using dk pr size cl c seek fetch cluster div start(1)
    by (simp add: fat16_read_internal_def fat16_read_internal_from_stream.simps [of dev d] stream_def [symmetric]
      c_def [symmetric] disk_stream_read_def Let_def)
qed

section \<open>Reading a file\<close>

lemma read_file_overrun:
  assumes dev: "ata_ok dev img" and dk: "disk_at s d = Some dk" "sector_size dk = 512"
    and pr: "disk_private s d = Some (private, pr)" "stream_on s (cluster_read_stream pr)"
    and fd: "ffd_at s p = Some fd" "item_at s (fat_fd_item fd) = Some x"
    and pos: "fat_fd_pos fd = of_nat off" and n: "0 < n" "int off + int n \<le> h_sectors_per_cluster (mem s) private * 512"
    and high: "i_high_16_bits_first_cluster (mem s) (item_ptr x) = 0"
    and start: "first_byte (mem s) private pr (item_ptr x) + int off = int start" "start < 2 ^ 31"
    and past: "start mod 512 \<noteq> 0" "512 < start mod 512 + n"
  shows "fat16_read dev d p (of_nat n) 1 out s = None"
proof -
  have "h_sectors_per_cluster (mem s) private * 512 < 131072"
    using uint_lt2p [of "mem s (private + 13)"] by (simp add: h_sectors_per_cluster_def)
  then have "int off < 2147483648" "int n < 2147483648" using n by linarith+
  then have "off < 2 ^ 31" "n < 2 ^ 31" by simp_all
  then have sint: "sint (of_nat off :: u32) = int off" "sint (of_nat n :: u32) = int n" by (simp_all add: sint_of_nat_u32)
  have c: "0 \<le> fat16_get_first_cluster (mem s) (item_ptr x)" by (simp add: fat16_get_first_cluster_def)
  have "fat16_cluster_to_sector (mem s) private pr (fat16_get_first_cluster (mem s) (item_ptr x)) * 512 + int off = int start"
    using start(1) first_byte_code [OF high] by simp
  then have "fat16_read_internal dev d (fat16_get_first_cluster (mem s) (item_ptr x)) (int off) (int n) out s = None"
    by (rule read_in_cluster_overrun [OF dev dk pr c n(2,1) _ start(2) past])
  then show ?thesis using fd sint pos by (simp add: fat16_read_def)
qed

lemma read_file_block:
  assumes dev: "ata_ok dev img" and dk: "disk_at s d = Some dk" "sector_size dk = 512"
    and pr: "disk_private s d = Some (private, pr)" "stream_on s (cluster_read_stream pr)"
    and fd: "ffd_at s p = Some fd" "item_at s (fat_fd_item fd) = Some x"
    and spc: "0 < h_sectors_per_cluster (mem s) private"
    and pos: "fat_fd_pos fd = of_nat off" and n: "0 < n" "int off + int n \<le> h_sectors_per_cluster (mem s) private * 512"
    and high: "i_high_16_bits_first_cluster (mem s) (item_ptr x) = 0"
    and start: "first_byte (mem s) private pr (item_ptr x) + int off = int start"
      "start mod 512 = 0 \<or> start mod 512 + n \<le> 512" "start + n < 2 ^ 31"
  shows "\<exists>s'. fat16_read dev d p (of_nat n) 1 out s = Some (1, s') \<and>
    mem s' = write_bytes out (disk_bytes img start n) (mem s) \<and> ffd_at s' p = Some fd \<and>
    objs s' = (objs s)(cluster_read_stream pr \<mapsto> stream_state (start + n) s) \<and> g_kernel_heap s' = g_kernel_heap s"
proof -
  have "h_sectors_per_cluster (mem s) private * 512 < 131072"
    using uint_lt2p [of "mem s (private + 13)"] by (simp add: h_sectors_per_cluster_def)
  then have "int off < 2147483648" "int n < 2147483648" using n by linarith+
  then have small: "off < 2 ^ 31" "n < 2 ^ 31" by simp_all
  have c: "0 \<le> fat16_get_first_cluster (mem s) (item_ptr x)" by (simp add: fat16_get_first_cluster_def)
  have "int off < h_sectors_per_cluster (mem s) private * 512" using n by linarith
  then obtain s' where s': "fat16_read_internal dev d (fat16_get_first_cluster (mem s) (item_ptr x)) (int off) (int n) out s = Some (0, s')"
    "mem s' = write_bytes out (disk_bytes img start n) (mem s)"
    "objs s' = (objs s)(cluster_read_stream pr \<mapsto> stream_state (start + n) s)" "g_kernel_heap s' = g_kernel_heap s"
    using read_in_cluster [OF dev dk pr c spc n(2) _ _ start(2,3)] start(1) first_byte_code [OF high] by fastforce
  have sint: "sint (of_nat off :: u32) = int off" "sint (of_nat n :: u32) = int n" by (rule sint_of_nat_u32; rule small)+
  have "p \<noteq> cluster_read_stream pr" using fd(1) pr(2) by (auto simp: ffd_at_def stream_on_def)
  then have "ffd_at s' p = Some fd" using fd(1) by (simp add: ffd_at_def s'(3))
  then show ?thesis
    using s' fd sint pos by (simp add: fat16_read_def)
qed

section \<open>Finding a name\<close>

text \<open>What a lookup returns: nothing, or an item whose type is file or directory.\<close>

definition item_typed :: "'a machine_scheme \<Rightarrow> u32 \<Rightarrow> bool" where
  "item_typed s i \<longleftrightarrow> i = 0 \<or> (\<exists>x. item_at s i = Some x \<and> item_type x \<in> {FAT_ITEM_TYPE_DIRECTORY, FAT_ITEM_TYPE_FILE})"

lemma make_new_fat_item_typed:
  "fat16_make_new_fat_item_for_directory_item dev d item s = Some (i, s') \<Longrightarrow> item_typed s' i"
  by (auto simp: fat16_make_new_fat_item_for_directory_item_def item_typed_def item_at_def Let_def
    split: prod.split_asm if_split_asm bind_split_asm)

lemma find_item_typed:
  "find_item_loop n dev d items name item s = Some (i, s') \<Longrightarrow> item_typed s item \<Longrightarrow> item_typed s' i"
proof (induction n arbitrary: items item s)
  case (Suc n)
  let ?s = "s\<lparr>mem := fat16_get_full_relative_filename items (tmp_filename s) FILESYSTEM_MAX_PATH_LENGTH (mem s)\<rparr>"
  obtain c where c: "strcasecmp (mem ?s) (tmp_filename s) name = Some c"
    using Suc.prems(1) by (auto simp: bind_eq_Some_conv Let_def)
  show ?case
  proof (cases "c = 0")
    case True
    then show ?thesis
      using Suc.prems(1) c by (auto simp: bind_eq_Some_conv Let_def intro: Suc.IH make_new_fat_item_typed)
  next
    case False
    have "item_typed ?s item" using Suc.prems(2) by (simp add: item_typed_def item_at_def)
    then show ?thesis using Suc.prems(1) c Suc.IH False by (auto simp: Let_def)
  qed
qed simp

lemma find_item_in_directory_typed:
  "fat16_find_item_in_directory dev d dir name s = Some (i, s') \<Longrightarrow> item_typed s' i"
  unfolding fat16_find_item_in_directory_def by (erule find_item_typed) (simp add: item_typed_def)

text \<open>
  The comparison with the attribute bit 0x10 instead of the item type: a lookup never walks
  into a directory.
\<close>

lemma walk_path_stops:
  assumes "item_typed s i" and "i \<noteq> 0" and "next \<noteq> 0"
  shows "walk_path dev d i next s = Some (0, s)"
proof -
  obtain x where x: "item_at s i = Some x" "item_type x \<in> {0, 1}"
    using assms(1,2) by (auto simp: item_typed_def fat_consts)
  then show ?thesis using assms(3) by (auto simp: walk_path.simps [of dev d i] fat_consts)
qed

lemma directory_entry_single:
  assumes "fat16_get_directory_entry dev d path s = Some (i, s')" and "i \<noteq> 0"
  shows "\<exists>x. part_at s' path = Some x \<and> next_part x = 0"
proof -
  obtain pr :: fat_private_data and x :: path_part and j s1 and y :: path_part where f: "fat16_find_item_in_directory dev d (root_dir pr) (part x) (klog ''FAT16 filesystem is finding the file.\<newline>'' s) = Some (j, s1)"
    "j \<noteq> 0" "part_at s1 path = Some y" "walk_path dev d j (next_part y) s1 = Some (i, s')"
    using assms by (auto simp: fat16_get_directory_entry_def bind_eq_Some_conv Let_def split: if_split_asm)
  have t: "item_typed s1 j" by (rule find_item_in_directory_typed [OF f(1)])
  have "next_part y = 0"
  proof (rule ccontr)
    assume "next_part y \<noteq> 0"
    then show False using walk_path_stops [OF t f(2)] f(4) assms(2) by simp
  qed
  moreover have "s' = s1" using f(4) calculation by (simp add: walk_path.simps [of dev d j])
  ultimately show ?thesis using f(3) by simp
qed

end
