(* ===== verification/Fat16_Frame.thy ===== *)
theory Fat16_Frame
  imports Fat16 "HOL-Library.Sublist"
begin

text \<open>
  What the disk and FAT16 code leaves alone, once for every such fact. The locale \<open>driver_frame\<close>
  takes a preorder on states that every elementary update respects; its lemmas say that every
  operation of the streams and of the FAT16 driver respects it. Mounting also writes the
  \<open>struct disk\<close>: \<open>disk_frame\<close> adds that update. The interpretations at the end
  use it for the fields that the driver has no access to, and for the port history, which only
  grows.
\<close>

lemma bind_SomeE:
  assumes "Option.bind m f = Some y"
  obtains x where "m = Some x" "f x = Some y"
  using assms by (auto simp: bind_eq_Some_conv)

section \<open>Port accesses append to the history\<close>

lemma wait_ready_appends: "wait_ready dev h = Some h' \<Longrightarrow> prefix h h'"
proof (rule wait_ready.raw_induct [where P = "\<lambda>dev h h'. prefix h h'"])
  fix f d h h'
  assume IH: "\<And>d h h'. f d h = Some h' \<Longrightarrow> prefix h h'"
    and e: "(let (byte, h) = inb d 0x1F7 h in if byte AND 0x08 = 0 then f d h else Some h) = Some h'"
  show "prefix h h'" using e IH [of d "h @ [Inb 503]" h']
    by (auto simp: inb_def Let_def prefix_def split: if_splits)
qed

lemma read_words_appends: "read_words dev n h = (bs, h') \<Longrightarrow> prefix h h'"
proof (induction n arbitrary: h bs h')
  case (Suc n)
  then show ?case by (auto simp: inw_def Let_def prefix_def split: prod.splits) (metis append.assoc)
qed (simp add: prefix_def)

lemma read_sector_loop_appends: "read_sector_loop dev n h = Some (bs, h') \<Longrightarrow> prefix h h'"
proof (induction n arbitrary: h bs h')
  case (Suc n)
  from Suc.prems obtain h1 bs1 h2 bs2 where "wait_ready dev h = Some h1" "read_words dev 256 h1 = (bs1, h2)"
    "read_sector_loop dev n h2 = Some (bs2, h')"
    by (auto elim!: bind_SomeE split: prod.split_asm)
  then show ?case using Suc.IH wait_ready_appends read_words_appends prefix_order.trans by meson
qed (simp add: prefix_def)

lemma disk_read_sectors_appends:
  assumes "disk_read_sectors dev lba n h = Some (r, bs, h')" shows "prefix h h'"
proof -
  have "prefix h (read_command lba n h)" by (simp add: read_command_def outb_def prefix_def Let_def)
  moreover have "prefix (read_command lba n h) h'"
    using assms by (auto simp: disk_read_sectors_def bind_eq_Some_conv dest: read_sector_loop_appends)
  ultimately show ?thesis by (rule prefix_order.trans)
qed

section \<open>Frames\<close>

locale driver_frame =
  fixes R :: "'a disk_machine_scheme \<Rightarrow> 'a disk_machine_scheme \<Rightarrow> bool"
  assumes frame_refl: "R s s"
    and frame_trans: "R s s1 \<Longrightarrow> R s1 s2 \<Longrightarrow> R s s2"
    and frame_mem: "R s (s\<lparr>mem := m\<rparr>)"
    and frame_con: "R s (s\<lparr>con := c\<rparr>)"
    and frame_heap: "heap_shape hp = heap_shape (g_kernel_heap s) \<Longrightarrow> R s (s\<lparr>g_kernel_heap := hp\<rparr>)"
    and frame_objs: "R s (s\<lparr>objs := os\<rparr>)"
    and frame_io: "prefix (io s) h \<Longrightarrow> R s (s\<lparr>io := h\<rparr>)"
begin

lemmas frame_after = frame_trans [OF _ frame_mem] frame_trans [OF _ frame_con] frame_trans [OF _ frame_heap]
  frame_trans [OF _ frame_objs]

lemma frame_put_obj: "R s s1 \<Longrightarrow> R s (put_obj p x s1)"
  unfolding put_obj_def by (rule frame_after(4))

lemma frame_klog: "R s s1 \<Longrightarrow> R s (klog t s1)"
  unfolding klog_def by (rule frame_after(2))

lemmas frame_intros = frame_refl frame_after frame_put_obj frame_klog

text \<open>The same steps taken off the front of a fact.\<close>

lemma frame_before:
  "R (s\<lparr>mem := m\<rparr>) s1 \<Longrightarrow> R s s1" "R (s\<lparr>con := c\<rparr>) s1 \<Longrightarrow> R s s1" "R (s\<lparr>objs := os\<rparr>) s1 \<Longrightarrow> R s s1"
  "R (put_obj p x s) s1 \<Longrightarrow> R s s1" "R (klog t s) s1 \<Longrightarrow> R s s1"
  by (rule frame_trans, rule frame_intros, rule frame_refl, assumption)+

subsection \<open>Allocation and console\<close>

lemma klog_at_frame: "klog_at p s = Some s' \<Longrightarrow> R s s'"
  by (auto simp: klog_at_def bind_eq_Some_conv intro: frame_intros)

lemma klog_number_frame: "klog_number x s = Some s' \<Longrightarrow> R s s'"
  by (auto simp: klog_number_def bind_eq_Some_conv intro: frame_intros)

lemma kzalloc_step: "kzalloc s n = (p, s') \<Longrightarrow> R s s'"
  by (auto elim!: kzallocE kmallocE intro: frame_intros dest: malloc_shape)

lemma kzalloc_obj_frame: "kzalloc_obj s n x = (p, s') \<Longrightarrow> R s s'"
  by (auto simp: kzalloc_obj_def split: prod.splits if_splits intro: frame_intros dest: kzalloc_step)

lemma kfree_step: "kfree s p = Some s' \<Longrightarrow> R s s'"
  by (auto elim!: kfreeE intro: frame_trans [OF frame_heap frame_objs] dest: free_shape)

subsection \<open>Streams\<close>

lemma disk_read_blocks_frame: "disk_read_blocks dev d lba n s = Some (r, bs, s') \<Longrightarrow> R s s'"
  by (auto simp: disk_read_blocks_def bind_eq_Some_conv split: if_splits
      intro: frame_refl frame_io dest: disk_read_sectors_appends)

lemma create_disk_stream_frame: "create_disk_stream i s = Some (p, s') \<Longrightarrow> R s s'"
  by (auto simp: create_disk_stream_def bind_eq_Some_conv Let_def split: if_splits prod.splits
      intro: frame_intros dest: kzalloc_obj_frame)

lemma disk_stream_seek_frame: "disk_stream_seek st i s = Some (r, s') \<Longrightarrow> R s s'"
  by (auto simp: disk_stream_seek_def bind_eq_Some_conv intro: frame_intros)

lemma disk_stream_fetch_frame: "disk_stream_fetch dev st n s = Some (r, bs, s') \<Longrightarrow> R s s'"
proof -
  have "case y of (r, bs, s') \<Rightarrow> R s s'" if "disk_stream_fetch dev st n s = Some y" for dev st n s y
  proof (rule disk_stream_fetch.raw_induct [OF _ that], goal_cases)
    case (1 f dev st n s y)
    show ?case using 1(2)
      by (auto elim!: bind_SomeE simp: Let_def split: prod.split_asm if_split_asm
        intro!: frame_intros dest!: disk_read_blocks_frame 1(1) frame_before intro: frame_trans)
  qed
  then show "disk_stream_fetch dev st n s = Some (r, bs, s') \<Longrightarrow> R s s'" by blast
qed

lemma disk_stream_read_frame: "disk_stream_read dev st buf n s = Some (r, s') \<Longrightarrow> R s s'"
  by (auto simp: disk_stream_read_def elim!: bind_SomeE split: prod.split_asm
    intro!: frame_intros dest!: disk_stream_fetch_frame)

lemma release_disk_stream_frame: "release_disk_stream st s = Some s' \<Longrightarrow> R s s'"
  by (simp add: release_disk_stream_def kfree_step)

lemmas machine_frames = klog_at_frame klog_number_frame kzalloc_step kzalloc_obj_frame kfree_step
lemmas stream_frames = create_disk_stream_frame disk_stream_seek_frame disk_stream_fetch_frame
  disk_stream_read_frame release_disk_stream_frame

subsection \<open>Tables and clusters\<close>

lemma fat16_get_fat_entry_frame: "fat16_get_fat_entry dev d c s = Some (r, s') \<Longrightarrow> R s s'"
  by (auto simp: fat16_get_fat_entry_def elim!: bind_SomeE simp: Let_def split: prod.split_asm if_split_asm
    intro!: frame_intros dest!: stream_frames frame_before; meson frame_trans)

lemma follow_clusters_frame: "follow_clusters n dev d c s = Some (r, s') \<Longrightarrow> R s s'"
proof (induction n arbitrary: c s)
  case (Suc n)
  from Suc.prems show ?case
    by (auto elim!: bind_SomeE simp: Let_def split: prod.split_asm if_split_asm
      dest!: fat16_get_fat_entry_frame Suc.IH; meson frame_trans)
qed (simp add: frame_refl)

lemma fat16_get_cluster_for_offset_frame: "fat16_get_cluster_for_offset dev d c i s = Some (r, s') \<Longrightarrow> R s s'"
  by (auto simp: fat16_get_cluster_for_offset_def elim!: bind_SomeE simp: Let_def split: prod.split_asm if_split_asm
    dest!: follow_clusters_frame)

lemma fat16_read_internal_from_stream_frame:
  "fat16_read_internal_from_stream dev d st c i n out s = Some (r, s') \<Longrightarrow> R s s'"
proof -
  have "case y of (r, s') \<Rightarrow> R s s'" if "fat16_read_internal_from_stream dev d st c i n out s = Some y"
    for dev d st c i n out s y
  proof (rule fat16_read_internal_from_stream.raw_induct [OF _ that], goal_cases)
    case (1 f dev d st c i n out s y)
    show ?case using 1(2)
      by (auto elim!: bind_SomeE simp: Let_def split: prod.split_asm if_split_asm
        intro!: frame_intros dest!: fat16_get_cluster_for_offset_frame stream_frames 1(1) frame_before; meson frame_trans)
  qed
  then show "fat16_read_internal_from_stream dev d st c i n out s = Some (r, s') \<Longrightarrow> R s s'" by blast
qed

lemma fat16_read_internal_frame: "fat16_read_internal dev d c i n out s = Some (r, s') \<Longrightarrow> R s s'"
  by (auto simp: fat16_read_internal_def elim!: bind_SomeE dest!: fat16_read_internal_from_stream_frame)

subsection \<open>Directories\<close>

lemma count_items_frame: "count_items dev st n s = Some (r, s') \<Longrightarrow> R s s'"
proof -
  have "case y of (r, s') \<Rightarrow> R s s'" if "count_items dev st n s = Some y" for dev st n s y
  proof (rule count_items.raw_induct [OF _ that], goal_cases)
    case (1 f dev st n s y)
    show ?case using 1(2)
      by (auto elim!: bind_SomeE simp: Let_def split: prod.split_asm if_split_asm
        dest!: stream_frames 1(1); meson frame_trans)
  qed
  then show "count_items dev st n s = Some (r, s') \<Longrightarrow> R s s'" by blast
qed

lemma fat16_get_total_items_frame: "fat16_get_total_items_for_directory dev d i s = Some (r, s') \<Longrightarrow> R s s'"
  by (auto simp: fat16_get_total_items_for_directory_def elim!: bind_SomeE simp: Let_def split: prod.split_asm if_split_asm
    dest!: stream_frames count_items_frame; meson frame_trans)

lemma fat16_get_root_directory_frame: "fat16_get_root_directory dev d p s = Some (r, s') \<Longrightarrow> R s s'"
  by (auto simp: fat16_get_root_directory_def elim!: bind_SomeE simp: Let_def split: prod.split_asm if_split_asm
    intro!: frame_intros dest!: stream_frames machine_frames fat16_get_total_items_frame frame_before; meson frame_trans)

lemma fat16_free_directory_frame: "fat16_free_directory d s = Some s' \<Longrightarrow> R s s'"
  by (auto simp: fat16_free_directory_def elim!: bind_SomeE split: if_split_asm
    intro!: frame_refl dest!: kfree_step; meson frame_trans)

lemma fat16_load_fat_directory_frame: "fat16_load_fat_directory dev d i s = Some (r, s') \<Longrightarrow> R s s'"
  by (auto simp: fat16_load_fat_directory_def elim!: bind_SomeE simp: Let_def split: prod.split_asm if_split_asm
    intro!: frame_intros dest!: machine_frames fat16_get_total_items_frame fat16_read_internal_frame
      fat16_free_directory_frame frame_before; meson frame_trans)

lemma fat16_clone_directory_item_frame: "fat16_clone_directory_item i s = (r, s') \<Longrightarrow> R s s'"
  by (auto simp: fat16_clone_directory_item_def Let_def split: prod.split_asm if_split_asm
    intro!: frame_intros dest!: machine_frames)

lemma fat16_make_new_fat_item_frame:
  "fat16_make_new_fat_item_for_directory_item dev d i s = Some (r, s') \<Longrightarrow> R s s'"
  by (auto simp: fat16_make_new_fat_item_for_directory_item_def elim!: bind_SomeE simp: Let_def split: prod.split_asm if_split_asm
    intro!: frame_intros dest!: machine_frames fat16_load_fat_directory_frame fat16_clone_directory_item_frame
      frame_before; meson frame_trans)

lemma find_item_loop_frame: "find_item_loop n dev d items name item s = Some (r, s') \<Longrightarrow> R s s'"
proof (induction n arbitrary: items item s)
  case (Suc n)
  from Suc.prems show ?case
    by (auto elim!: bind_SomeE simp: Let_def split: prod.split_asm if_split_asm
      intro!: frame_intros dest!: machine_frames fat16_make_new_fat_item_frame Suc.IH frame_before; meson frame_trans)
qed (simp add: frame_refl)

lemma fat16_find_item_frame: "fat16_find_item_in_directory dev d dir name s = Some (r, s') \<Longrightarrow> R s s'"
  by (auto simp: fat16_find_item_in_directory_def dest: find_item_loop_frame)

lemma fat16_fat_item_free_frame: "fat16_fat_item_free i s = Some s' \<Longrightarrow> R s s'"
  by (auto simp: fat16_fat_item_free_def elim!: bind_SomeE split: if_split_asm
    intro!: frame_refl dest!: kfree_step fat16_free_directory_frame; meson frame_trans)

lemma walk_path_frame: "walk_path dev d i nx s = Some (r, s') \<Longrightarrow> R s s'"
proof -
  have "case y of (r, s') \<Rightarrow> R s s'" if "walk_path dev d i nx s = Some y" for dev d i nx s y
  proof (rule walk_path.raw_induct [OF _ that], goal_cases)
    case (1 f dev d i nx s y)
    show ?case using 1(2)
      by (auto elim!: bind_SomeE simp: Let_def split: prod.split_asm if_split_asm
        intro!: frame_refl dest!: fat16_find_item_frame fat16_fat_item_free_frame 1(1); meson frame_trans)
  qed
  then show "walk_path dev d i nx s = Some (r, s') \<Longrightarrow> R s s'" by blast
qed

lemma fat16_get_directory_entry_frame: "fat16_get_directory_entry dev d p s = Some (r, s') \<Longrightarrow> R s s'"
  by (auto simp: fat16_get_directory_entry_def elim!: bind_SomeE simp: Let_def split: prod.split_asm if_split_asm
    dest!: fat16_find_item_frame walk_path_frame frame_before; meson frame_trans)

subsection \<open>The operations\<close>

lemma fat16_init_frame: "fat16_init s = (r, s') \<Longrightarrow> R s s'"
  by (auto simp: fat16_init_def Let_def intro!: frame_intros)

lemma fat16_load_header_frame: "fat16_load_header dev d p st s = Some (r, s') \<Longrightarrow> R s s'"
  by (auto simp: fat16_load_header_def elim!: bind_SomeE simp: Let_def split: prod.split_asm if_split_asm
    intro!: frame_intros dest!: stream_frames machine_frames fat16_get_root_directory_frame frame_before; meson frame_trans)

lemma fat16_open_frame: "fat16_open dev d path mode s = Some (r, s') \<Longrightarrow> R s s'"
  by (auto simp: fat16_open_def fat16_open_error_def elim!: bind_SomeE simp: Let_def split: prod.split_asm if_split_asm
    intro!: frame_intros dest!: machine_frames fat16_get_directory_entry_frame frame_before; meson frame_trans)

lemma fat16_close_frame: "fat16_close p s = Some (r, s') \<Longrightarrow> R s s'"
  by (auto simp: fat16_close_def fat16_free_file_descriptor_def elim!: bind_SomeE
    dest!: fat16_fat_item_free_frame kfree_step; meson frame_trans)

lemma fat16_read_loop_frame: "fat16_read_loop n dev d item off sz out res s = Some (r, s') \<Longrightarrow> R s s'"
proof (induction n arbitrary: off out res s)
  case (Suc n)
  from Suc.prems show ?case
    by (auto elim!: bind_SomeE simp: Let_def split: prod.split_asm if_split_asm
      dest!: fat16_read_internal_frame Suc.IH; meson frame_trans)
qed (simp add: frame_refl)

lemma fat16_read_frame: "fat16_read dev d p sz n out s = Some (r, s') \<Longrightarrow> R s s'"
  by (auto simp: fat16_read_def elim!: bind_SomeE simp: Let_def split: prod.split_asm if_split_asm
    dest!: fat16_read_loop_frame)

lemma fat16_seek_frame: "fat16_seek p off mode s = Some (r, s') \<Longrightarrow> R s s'"
  by (auto simp: fat16_seek_def elim!: bind_SomeE simp: Let_def split: if_split_asm intro!: frame_intros)

lemma fat16_stat_frame: "fat16_stat p st s = Some (r, s') \<Longrightarrow> R s s'"
  by (auto simp: fat16_stat_def elim!: bind_SomeE simp: Let_def split: if_split_asm intro!: frame_intros)

end

text \<open>Mounting also writes the \<open>struct disk\<close>.\<close>

locale disk_frame = driver_frame +
  assumes frame_disk: "R s (s\<lparr>disk_var := dk\<rparr>)"
begin

lemma frame_before_disk: "R (s\<lparr>disk_var := dk\<rparr>) s1 \<Longrightarrow> R s s1"
  by (rule frame_trans, rule frame_disk)

lemma fat16_init_private_data_frame: "fat16_init_private_data d p s = Some s' \<Longrightarrow> R s s'"
  by (auto simp: fat16_init_private_data_def elim!: bind_SomeE simp: Let_def split: prod.split_asm if_split_asm
    intro!: frame_intros frame_trans [OF _ frame_disk] dest!: stream_frames frame_before frame_before_disk; meson frame_trans)

lemma fat16_resolve_frame: "fat16_resolve dev d s = Some (r, s') \<Longrightarrow> R s s'"
  by (auto simp: fat16_resolve_def elim!: bind_SomeE simp: Let_def split: prod.split_asm if_split_asm
    intro!: frame_intros frame_trans [OF _ frame_disk] dest!: stream_frames machine_frames fat16_init_private_data_frame fat16_load_header_frame
      frame_before frame_before_disk; meson frame_trans)

end

section \<open>What the driver cannot reach\<close>

definition same_vfs :: "'a disk_machine_scheme \<Rightarrow> 'a disk_machine_scheme \<Rightarrow> bool" where
  "same_vfs s s' \<longleftrightarrow> disk_machine.more s' = disk_machine.more s \<and> disk_address s' = disk_address s \<and>
     fat16_fs_address s' = fat16_fs_address s \<and> tmp_filename s' = tmp_filename s"

interpretation outside: disk_frame same_vfs
  by unfold_locales (auto simp: same_vfs_def)

text \<open>The heap stays where it is and as long as it is.\<close>

definition same_shape :: "'a disk_machine_scheme \<Rightarrow> 'a disk_machine_scheme \<Rightarrow> bool" where
  "same_shape s s' \<longleftrightarrow> heap_shape (g_kernel_heap s') = heap_shape (g_kernel_heap s)"

interpretation shape: disk_frame same_shape
  by unfold_locales (auto simp: same_shape_def)

definition io_grows :: "'a disk_machine_scheme \<Rightarrow> 'a disk_machine_scheme \<Rightarrow> bool" where
  "io_grows s s' \<longleftrightarrow> prefix (io s) (io s')"

interpretation ports: disk_frame io_grows
  by unfold_locales (auto simp: io_grows_def intro: prefix_order.trans)

text \<open>Once the disk is mounted, the driver leaves its \<open>struct disk\<close> alone.\<close>

definition same_mount :: "'a disk_machine_scheme \<Rightarrow> 'a disk_machine_scheme \<Rightarrow> bool" where
  "same_mount s s' \<longleftrightarrow> same_vfs s s' \<and> disk_var s' = disk_var s"

interpretation mounted: driver_frame same_mount
  by unfold_locales (auto simp: same_mount_def same_vfs_def)

end
