(* ===== verification/Fat16_Lookup.thy ===== *)
theory Fat16_Lookup
  imports Fat16_Correct Fat16_Frame
begin

text \<open>
  Looking a name up in a directory that is in memory. The buffer \<open>tmp_filename\<close> is apart from
  the directory, from the name and from the free blocks of the heap; \<open>lookup_ok\<close> says so.
\<close>

abbreviation tmp_range :: "'a disk_machine_scheme \<Rightarrow> u32 set" where
  "tmp_range s \<equiv> addrs (tmp_filename s) 100"

definition lookup_ok :: "'a disk_machine_scheme \<Rightarrow> u32 \<Rightarrow> nat \<Rightarrow> u32 \<Rightarrow> u8 list \<Rightarrow> bool" where
  "lookup_ok s items n name nm \<longleftrightarrow> machine_ok s \<and> str_at (mem s) name nm \<and> length nm < 4096 \<and> n < 2 ^ 16 \<and>
     addrs items (32 * n) \<inter> (tmp_range s \<union> kvacant s) = {} \<and>
     addrs name (Suc (length nm)) \<inter> (tmp_range s \<union> kvacant s) = {} \<and> tmp_range s \<inter> kvacant s = {}"

definition entry_matches :: "memory \<Rightarrow> u32 \<Rightarrow> u8 list \<Rightarrow> bool" where
  "entry_matches m p nm \<longleftrightarrow> casefold (item_name (bytes_at m p 11)) = casefold nm"

text \<open>What a step of the search may change: the buffer and free blocks.\<close>

definition lookup_step :: "'a disk_machine_scheme \<Rightarrow> 'a disk_machine_scheme \<Rightarrow> bool" where
  "lookup_step s s' \<longleftrightarrow> machine_ok s' \<and> tmp_filename s' = tmp_filename s \<and> kvacant s' \<subseteq> kvacant s \<and>
     (\<forall>a. a \<notin> tmp_range s \<union> kvacant s \<longrightarrow> mem s' a = mem s a)"

lemma lookup_step_trans: "lookup_step s s1 \<Longrightarrow> lookup_step s1 s2 \<Longrightarrow> lookup_step s s2"
  by (auto simp: lookup_step_def)

lemma grows_lookup_step: "grows s s' \<Longrightarrow> tmp_filename s' = tmp_filename s \<Longrightarrow> lookup_step s s'"
  by (auto simp: grows_def lookup_step_def)

lemma addrs_item:
  assumes "i < n" and "n < 2 ^ 16"
  shows "addrs (items + 32 * of_nat i) 32 \<subseteq> addrs items (32 * n)"
proof -
  have "addrs (items + 32 * of_nat i) 32 \<subseteq> addrs (items + of_nat (32 * i)) (32 * n - 32 * i)"
    using assms(1) by simp (rule addrs_mono; simp)
  also have "\<dots> \<subseteq> addrs items (32 * n)" using assms by (intro addrs_suffix) simp_all
  finally show ?thesis .
qed

lemma lookup_ok_step:
  assumes ok: "lookup_ok s items n name nm" and step: "lookup_step s s'"
  shows "lookup_ok s' items n name nm"
    and "i < n \<Longrightarrow> bytes_at (mem s') (items + 32 * of_nat i) 32 = bytes_at (mem s) (items + 32 * of_nat i) 32"
proof -
  have same: "mem s' a = mem s a" if "a \<in> A" "A \<inter> (tmp_range s \<union> kvacant s) = {}" for a A
    using that step by (auto simp: lookup_step_def)
  have "str_at (mem s) name nm \<longleftrightarrow> str_at (mem s') name nm"
    using ok same [of _ "addrs name (Suc (length nm))"] by (intro str_at_frame) (auto simp: lookup_ok_def)
  then show "lookup_ok s' items n name nm"
    using ok step by (auto simp: lookup_ok_def lookup_step_def)
  show "bytes_at (mem s') (items + 32 * of_nat i) 32 = bytes_at (mem s) (items + 32 * of_nat i) 32" if i: "i < n"
  proof (rule bytes_at_cong)
    fix a assume "a \<in> addrs (items + 32 * of_nat i) 32"
    moreover have "n < 2 ^ 16" using ok by (simp add: lookup_ok_def)
    ultimately have "a \<in> addrs items (32 * n)" using addrs_item [OF i] by blast
    then show "mem s' a = mem s a" using same ok by (auto simp: lookup_ok_def)
  qed simp
qed

lemma entry_matches_bytes: "bytes_at m' p 32 = bytes_at m p 32 \<Longrightarrow> entry_matches m' p nm = entry_matches m p nm"
  using bytes_at_append [of m p 11 21] bytes_at_append [of m' p 11 21] by (simp add: entry_matches_def)

lemma lookup_ok_tail: "lookup_ok s items (Suc n) name nm \<Longrightarrow> lookup_ok s (items + 32) n name nm"
  using addrs_suffix [of 32 "32 * Suc n" items] by (auto simp: lookup_ok_def)

text \<open>The name of the first entry, compared.\<close>

lemma lookup_compare:
  assumes ok: "lookup_ok s items (Suc n) name nm"
  defines "s' \<equiv> s\<lparr>mem := fat16_get_full_relative_filename items (tmp_filename s) FILESYSTEM_MAX_PATH_LENGTH (mem s)\<rparr>"
  shows "lookup_step s s'"
    and "\<exists>c. strcasecmp (mem s') (tmp_filename s') name = Some c \<and> (c = 0 \<longleftrightarrow> entry_matches (mem s) items nm)"
proof -
  have sub: "addrs items 11 \<subseteq> addrs items (32 * Suc n)" by (rule addrs_mono) simp
  then have apart: "addrs (tmp_filename s) 100 \<inter> addrs items 11 = {}" using ok by (auto simp: lookup_ok_def)
  have m: "mem s' = fat16_get_full_relative_filename items (tmp_filename s) 100 (mem s)"
    by (simp add: s'_def FILESYSTEM_MAX_PATH_LENGTH_def)
  have out: "mem s' a = mem s a" if "a \<notin> tmp_range s" for a
    unfolding m by (rule full_name_str(2) [OF apart that])
  then show step: "lookup_step s s'" using ok by (auto simp: lookup_step_def s'_def lookup_ok_def machine_ok_def)
  have "str_at (mem s') (tmp_filename s') (item_name (bytes_at (mem s) items 11))"
    unfolding m by (simp add: s'_def full_name_str(1) [OF apart])
  moreover have "str_at (mem s') name nm" using lookup_ok_step(1) [OF ok step] by (simp add: lookup_ok_def)
  ultimately show "\<exists>c. strcasecmp (mem s') (tmp_filename s') name = Some c \<and> (c = 0 \<longleftrightarrow> entry_matches (mem s) items nm)"
    unfolding entry_matches_def by (rule strcasecmp_str)
qed

lemma find_item_absent:
  assumes "lookup_ok s items n name nm" and "\<And>i. i < n \<Longrightarrow> \<not> entry_matches (mem s) (items + 32 * of_nat i) nm"
  shows "\<exists>m. find_item_loop n dev d items name item s = Some (item, s\<lparr>mem := m\<rparr>) \<and> lookup_step s (s\<lparr>mem := m\<rparr>)"
  using assms
proof (induction n arbitrary: s items)
  case 0
  then show ?case by (intro exI [of _ "mem s"]) (simp add: lookup_step_def lookup_ok_def)
next
  case (Suc n)
  let ?s = "s\<lparr>mem := fat16_get_full_relative_filename items (tmp_filename s) FILESYSTEM_MAX_PATH_LENGTH (mem s)\<rparr>"
  note c = lookup_compare [OF Suc.prems(1)]
  obtain r where r: "strcasecmp (mem ?s) (tmp_filename s) name = Some r" "r \<noteq> 0"
    using c(2) Suc.prems(2) [of 0] by auto
  have ok: "lookup_ok ?s (items + 32) n name nm"
    by (rule lookup_ok_tail [OF lookup_ok_step(1) [OF Suc.prems(1) c(1)]])
  have "\<not> entry_matches (mem ?s) (items + 32 + 32 * of_nat i) nm" if "i < n" for i
  proof -
    have "bytes_at (mem ?s) (items + 32 * of_nat (Suc i)) 32 = bytes_at (mem s) (items + 32 * of_nat (Suc i)) 32"
      by (rule lookup_ok_step(2) [OF Suc.prems(1) c(1)]) (use that in simp)
    then have "entry_matches (mem ?s) (items + 32 * of_nat (Suc i)) nm = entry_matches (mem s) (items + 32 * of_nat (Suc i)) nm"
      by (rule entry_matches_bytes)
    moreover have "items + 32 + 32 * of_nat i = items + 32 * of_nat (Suc i)" by simp
    ultimately show ?thesis using Suc.prems(2) [of "Suc i"] that by (simp only: Suc_less_eq simp_thms)
  qed
  then obtain m where m: "find_item_loop n dev d (items + 32) name item ?s = Some (item, ?s\<lparr>mem := m\<rparr>)"
    "lookup_step ?s (?s\<lparr>mem := m\<rparr>)"
    using Suc.IH [OF ok] by blast
  then show ?case
    using r lookup_step_trans [OF c(1) m(2)] by (intro exI [of _ m]) (simp add: sizeof_item_def)
qed

lemma find_item_append:
  "find_item_loop (j + k) dev d items name item s =
    do { (item, s) \<leftarrow> find_item_loop j dev d items name item s;
         find_item_loop k dev d (items + 32 * of_nat j) name item s }"
proof (induction j arbitrary: items item s)
  case (Suc j)
  let ?s = "s\<lparr>mem := fat16_get_full_relative_filename items (tmp_filename s) FILESYSTEM_MAX_PATH_LENGTH (mem s)\<rparr>"
  show ?case
  proof (cases "strcasecmp (mem ?s) (tmp_filename s) name")
    case (Some c)
    then show ?thesis
      by (cases "c = 0") (simp_all add: Suc.IH sizeof_item_def Let_def split_def algebra_simps)
  qed simp
qed simp

section \<open>A file that is there\<close>

text \<open>A new item for a file: the item and its clone of the directory entry, in two fresh blocks.\<close>

definition file_item_at :: "'a machine_scheme \<Rightarrow> u32 \<Rightarrow> u32 \<Rightarrow> u8 list \<Rightarrow> bool" where
  "file_item_at s i c bs \<longleftrightarrow> i \<noteq> 0 \<and> c \<noteq> 0 \<and> i \<noteq> c \<and> klive s i = Some 1 \<and> klive s c = Some 1 \<and>
     item_at s i = Some \<lparr>item_ptr = c, item_type = FAT_ITEM_TYPE_FILE\<rparr> \<and> bytes_at (mem s) c 32 = bs"

lemma make_new_file:
  assumes ok: "machine_ok s" and room: "2 \<le> kroom s" and attr: "i_attribute (mem s) item AND FAT_FILE_SUBDIRECTORY = 0"
    and safe: "addrs item 32 \<inter> kvacant s = {}"
  shows "\<exists>i c s'. fat16_make_new_fat_item_for_directory_item dev d item s = Some (i, s') \<and> grows s s' \<and>
    file_item_at s' i c (bytes_at (mem s) item 32) \<and> klive s i = None \<and> klive s c = None \<and>
    klive s' = (klive s)(i \<mapsto> 1, c \<mapsto> 1) \<and> addrs c 32 \<subseteq> kvacant s \<and> addrs c 32 \<inter> kvacant s' = {} \<and>
    objs s' = (objs s)(i \<mapsto> Obj_item \<lparr>item_ptr = c, item_type = FAT_ITEM_TYPE_FILE\<rparr>) \<and> kroom s = kroom s' + 2"
proof -
  obtain i s1 where 1: "kzalloc_obj s 8 (Obj_item \<lparr>item_ptr = 0, item_type = 0\<rparr>) = (i, s1)" "i \<noteq> 0" "grows s s1"
    "kroom s = kroom s1 + 1" "klive s i = None" "klive s1 = (klive s)(i \<mapsto> 1)"
    "objs s1 = (objs s)(i \<mapsto> Obj_item \<lparr>item_ptr = 0, item_type = 0\<rparr>)"
    using kzalloc_obj_fits [OF ok, of 8 "Obj_item \<lparr>item_ptr = 0, item_type = 0\<rparr>"] room by auto
  have ok1: "machine_ok s1" by (rule growsD(1) [OF 1(3)])
  have same: "bytes_at (mem s1) item 32 = bytes_at (mem s) item 32"
    by (rule bytes_at_cong) (use growsD(4) [OF 1(3) safe] in auto)
  have "item + of_nat 11 \<in> addrs item 32" by (rule in_addrs_offset) simp_all
  then have attr1: "i_attribute (mem s1) item = i_attribute (mem s) item"
    using growsD(4) [OF 1(3) safe] by (simp add: i_attribute_def)
  obtain c s2 where a: "kzalloc s1 32 = (c, s2)" by fastforce
  have c: "c \<noteq> 0" using kz.alloc_one [OF machine_okD [OF ok1], of 32] room 1(4) a by simp
  note k = kz.alloc_some [OF machine_okD [OF ok1] a c] kz.alloc_vacant [OF machine_okD [OF ok1] a c] kzalloc_frame [OF a]
    kz.alloc_room [OF machine_okD [OF ok1] a c]
  have one: "blocks_for 32 = 1" by (rule blocks_for_one) simp_all
  have sub: "addrs c 32 \<subseteq> addrs c 4096" by (rule addrs_mono) simp
  have vac: "addrs c 32 \<subseteq> kvacant s1" using k(2) sub by (simp add: one) blast
  have safe1: "addrs item 32 \<inter> kvacant s1 = {}" by (rule growsD(3) [OF 1(3) safe])
  let ?m = "memcpy c item 32 (mem s2)"
  let ?s3 = "s2\<lparr>mem := ?m\<rparr>"
  let ?s4 = "put_obj i (Obj_item \<lparr>item_ptr = c, item_type = FAT_ITEM_TYPE_FILE\<rparr>) ?s3"
  have apart: "addrs c (unat (32 :: u32)) \<inter> addrs item (unat (32 :: u32)) = {}" using vac safe1 by auto
  have "mem s2 a = mem s1 a" if "a \<in> addrs item 32" for a
    using growsD(4) [OF kzalloc_grows [OF ok1 a] safe1 that] .
  then have "bytes_at (mem s2) item 32 = bytes_at (mem s1) item 32" by (intro bytes_at_cong) auto
  then have copy: "bytes_at ?m c 32 = bytes_at (mem s) item 32"
    using memcpy_bytes [OF apart, of "mem s2"] same by simp
  have out: "?m a = mem s2 a" if "a \<notin> addrs c 32" for a using that memcpy_apply [OF apart, of "mem s2" a] by simp
  have "grows s1 ?s3" using kzalloc_grows [OF ok1 a] vac out by (intro grows_mem) auto
  then have g: "grows s ?s4"
    using grows_trans [OF 1(3)] k(1) 1(6) by (intro grows_put_obj) auto
  have ic: "i \<noteq> c" using k(1) 1(6) by auto
  have run: "fat16_make_new_fat_item_for_directory_item dev d item s = Some (i, ?s4)"
    using 1(1,2) attr attr1 a c
    by (simp add: fat16_make_new_fat_item_for_directory_item_def fat16_clone_directory_item_def sizeof_item_def Let_def)
  have "file_item_at ?s4 i c (bytes_at (mem s) item 32)"
    using 1(2,6) c ic k(1) copy by (simp add: file_item_at_def item_at_def one)
  moreover have "klive ?s4 = (klive s)(i \<mapsto> 1, c \<mapsto> 1)" using k(1) 1(6) by (simp add: one)
  moreover have "klive s c = None" using k(1) 1(6) ic by auto
  moreover have "addrs c 32 \<subseteq> kvacant s" using vac 1(3) by (auto simp: grows_def)
  moreover have "addrs c 32 \<inter> kvacant ?s4 = {}" using k(2) sub by (auto simp: one)
  moreover have "objs ?s4 = (objs s)(i \<mapsto> Obj_item \<lparr>item_ptr = c, item_type = FAT_ITEM_TYPE_FILE\<rparr>)"
    using k(3) 1(7) by simp
  moreover have "kroom s = kroom ?s4 + 2" using k(4) 1(4) by (simp add: one)
  ultimately show ?thesis using run g 1(5) by blast
qed

lemma make_new_tmp: "fat16_make_new_fat_item_for_directory_item dev d item s = Some (i, s') \<Longrightarrow> tmp_filename s' = tmp_filename s"
  by (drule outside.fat16_make_new_fat_item_frame) (simp add: same_vfs_def)

lemma file_item_step:
  assumes item: "file_item_at s i c bs" and step: "lookup_step s s'" and same: "objs s' = objs s" "klive s' = klive s"
    and safe: "addrs c 32 \<inter> (tmp_range s \<union> kvacant s) = {}"
  shows "file_item_at s' i c bs"
proof -
  have "mem s' a = mem s a" if "a \<in> addrs c 32" for a using that safe step by (auto simp: lookup_step_def)
  then have "bytes_at (mem s') c 32 = bytes_at (mem s) c 32" by (intro bytes_at_cong) auto
  then show ?thesis using item same by (simp add: file_item_at_def item_at_def)
qed

lemma klog_at_returns: "str_at (mem s) p nm \<Longrightarrow> \<exists>c. klog_at p s = Some (s\<lparr>con := c\<rparr>)"
  by (auto simp: klog_at_def print_def strlen_str)

text \<open>The search when entry \<open>j\<close> is the only match and is a file.\<close>

lemma find_item_first:
  assumes ok: "lookup_ok s items (Suc n) name nm" and room: "2 \<le> kroom s"
    and hit: "entry_matches (mem s) items nm" and attr: "i_attribute (mem s) items AND FAT_FILE_SUBDIRECTORY = 0"
    and rest: "\<And>i. i < n \<Longrightarrow> \<not> entry_matches (mem s) (items + 32 + 32 * of_nat i) nm"
  shows "\<exists>i c s'. find_item_loop (Suc n) dev d items name item s = Some (i, s') \<and> lookup_step s s' \<and>
    file_item_at s' i c (bytes_at (mem s) items 32) \<and> klive s' = (klive s)(i \<mapsto> 1, c \<mapsto> 1) \<and>
    klive s i = None \<and> klive s c = None \<and> addrs c 32 \<subseteq> kvacant s \<and>
    objs s' = (objs s)(i \<mapsto> Obj_item \<lparr>item_ptr = c, item_type = FAT_ITEM_TYPE_FILE\<rparr>) \<and> kroom s = kroom s' + 2"
proof -
  let ?s = "s\<lparr>mem := fat16_get_full_relative_filename items (tmp_filename s) FILESYSTEM_MAX_PATH_LENGTH (mem s)\<rparr>"
  note cmp = lookup_compare [OF ok]
  have ok1: "lookup_ok ?s items (Suc n) name nm" by (rule lookup_ok_step(1) [OF ok cmp(1)])
  have cmp0: "strcasecmp (mem ?s) (tmp_filename s) name = Some 0" using cmp(2) hit by auto
  have same1: "bytes_at (mem ?s) items 32 = bytes_at (mem s) items 32"
    using lookup_ok_step(2) [OF ok cmp(1), of 0] by simp
  have attr1: "i_attribute (mem ?s) items = i_attribute (mem s) items"
    using arg_cong [OF same1, of "\<lambda>b. b ! 11"] by (simp add: i_attribute_def)
  let ?s1 = "klog ''FAT16 filesystem is found the file: '' ?s"
  have name: "str_at (mem ?s1) name nm" using ok1 by (simp add: lookup_ok_def)
  obtain c1 where log: "klog_at name ?s1 = Some (?s1\<lparr>con := c1\<rparr>)" using klog_at_returns [OF name] by blast
  let ?s2 = "klog ''\<newline>'' (?s1\<lparr>con := c1\<rparr>)"
  have s2: "mem ?s2 = mem ?s" "kvacant ?s2 = kvacant ?s" "klive ?s2 = klive ?s" "kroom ?s2 = kroom ?s"
    "tmp_filename ?s2 = tmp_filename s" "machine_ok ?s2 = machine_ok ?s"
    by (simp_all add: klog_def machine_ok_def)
  have range: "addrs items 32 \<subseteq> addrs items (32 * Suc n)" by (rule addrs_mono) simp
  have "addrs items 32 \<inter> kvacant ?s2 = {}" using ok range by (simp add: s2 lookup_ok_def) blast
  then obtain i c s3 where 3: "fat16_make_new_fat_item_for_directory_item dev d items ?s2 = Some (i, s3)"
    "grows ?s2 s3" "file_item_at s3 i c (bytes_at (mem ?s2) items 32)" "klive ?s2 i = None" "klive ?s2 c = None"
    "klive s3 = (klive ?s2)(i \<mapsto> 1, c \<mapsto> 1)" "addrs c 32 \<subseteq> kvacant ?s2" "addrs c 32 \<inter> kvacant s3 = {}"
    "objs s3 = (objs ?s2)(i \<mapsto> Obj_item \<lparr>item_ptr = c, item_type = FAT_ITEM_TYPE_FILE\<rparr>)" "kroom ?s2 = kroom s3 + 2"
    using make_new_file [of ?s2 items dev d] ok1 room attr attr1 by (auto simp: s2 lookup_ok_def)
  have tmp3: "tmp_filename s3 = tmp_filename s" using make_new_tmp [OF 3(1)] by (simp add: s2)
  have step3: "lookup_step ?s2 s3" using 3(2) tmp3 by (intro grows_lookup_step) (simp_all add: s2)
  have step2: "lookup_step s ?s2" using cmp(1) by (simp add: lookup_step_def s2)
  have to3: "lookup_step s s3" by (rule lookup_step_trans [OF step2 step3])
  have ok3: "lookup_ok s3 (items + 32) n name nm" by (rule lookup_ok_tail [OF lookup_ok_step(1) [OF ok to3]])
  have rest3: "\<not> entry_matches (mem s3) (items + 32 + 32 * of_nat k) nm" if "k < n" for k
  proof -
    have "bytes_at (mem s3) (items + 32 * of_nat (Suc k)) 32 = bytes_at (mem s) (items + 32 * of_nat (Suc k)) 32"
      by (rule lookup_ok_step(2) [OF ok to3]) (use that in simp)
    then have "entry_matches (mem s3) (items + 32 * of_nat (Suc k)) nm = entry_matches (mem s) (items + 32 * of_nat (Suc k)) nm"
      by (rule entry_matches_bytes)
    moreover have "items + 32 + 32 * of_nat k = items + 32 * of_nat (Suc k)" by simp
    ultimately show ?thesis using rest [OF that] by (simp only: simp_thms)
  qed
  obtain m where m: "find_item_loop n dev d (items + 32) name i s3 = Some (i, s3\<lparr>mem := m\<rparr>)" "lookup_step s3 (s3\<lparr>mem := m\<rparr>)"
    using find_item_absent [OF ok3 rest3, of dev d i] by blast
  have "addrs c 32 \<inter> tmp_range s3 = {}" using 3(7) ok by (auto simp: tmp3 s2 lookup_ok_def)
  then have safe: "addrs c 32 \<inter> (tmp_range s3 \<union> kvacant s3) = {}" using 3(8) by auto
  have "file_item_at (s3\<lparr>mem := m\<rparr>) i c (bytes_at (mem s) items 32)"
    using file_item_step [OF 3(3) m(2) _ _ safe] same1 by (simp add: s2)
  moreover have "find_item_loop (Suc n) dev d items name item s = Some (i, s3\<lparr>mem := m\<rparr>)"
    using cmp0 log 3(1) m(1) by (simp add: Let_def sizeof_item_def)
  ultimately show ?thesis
    using lookup_step_trans [OF to3 m(2)] 3(4-7,9,10) by (intro exI conjI) (assumption | simp add: s2)+
qed

lemma find_item_only:
  assumes ok: "lookup_ok s items n name nm" and room: "2 \<le> kroom s" and j: "j < n"
    and hit: "entry_matches (mem s) (items + 32 * of_nat j) nm"
    and attr: "i_attribute (mem s) (items + 32 * of_nat j) AND FAT_FILE_SUBDIRECTORY = 0"
    and rest: "\<And>i. i < n \<Longrightarrow> i \<noteq> j \<Longrightarrow> \<not> entry_matches (mem s) (items + 32 * of_nat i) nm"
  shows "\<exists>i c s'. find_item_loop n dev d items name item s = Some (i, s') \<and> lookup_step s s' \<and>
    file_item_at s' i c (bytes_at (mem s) (items + 32 * of_nat j) 32) \<and> klive s' = (klive s)(i \<mapsto> 1, c \<mapsto> 1) \<and>
    klive s i = None \<and> klive s c = None \<and> addrs c 32 \<subseteq> kvacant s \<and>
    objs s' = (objs s)(i \<mapsto> Obj_item \<lparr>item_ptr = c, item_type = FAT_ITEM_TYPE_FILE\<rparr>) \<and> kroom s = kroom s' + 2"
proof -
  obtain k where n: "n = j + Suc k" using j by (auto dest: less_imp_Suc_add)
  let ?p = "items + 32 * of_nat j"
  have n16: "n < 2 ^ 16" using ok by (simp add: lookup_ok_def)
  have front: "lookup_ok s items j name nm"
    using ok addrs_mono [of "32 * j" "32 * n" items] by (auto simp: lookup_ok_def n)
  obtain m where m: "find_item_loop j dev d items name item s = Some (item, s\<lparr>mem := m\<rparr>)" "lookup_step s (s\<lparr>mem := m\<rparr>)"
    using find_item_absent [OF front, of dev d item] rest n by auto
  let ?s = "s\<lparr>mem := m\<rparr>"
  have ok1: "lookup_ok ?s items n name nm" by (rule lookup_ok_step(1) [OF ok m(2)])
  have same: "bytes_at m (items + 32 * of_nat i) 32 = bytes_at (mem s) (items + 32 * of_nat i) 32" if "i < n" for i
    using lookup_ok_step(2) [OF ok m(2) that] by simp
  have "addrs (items + of_nat (32 * j)) (32 * n - 32 * j) \<subseteq> addrs items (32 * n)"
    using n16 by (intro addrs_suffix) (simp_all add: n)
  then have sub: "addrs ?p (32 * Suc k) \<subseteq> addrs items (32 * n)" by (simp add: n)
  have "addrs items (32 * n) \<inter> (tmp_range ?s \<union> kvacant ?s) = {}" using ok1 unfolding lookup_ok_def by (elim conjE)
  then have "addrs ?p (32 * Suc k) \<inter> (tmp_range ?s \<union> kvacant ?s) = {}" using sub by blast
  moreover have "Suc k < 2 ^ 16" using n16 n by linarith
  ultimately have tail: "lookup_ok ?s ?p (Suc k) name nm"
    using ok1 unfolding lookup_ok_def by (elim conjE, intro conjI)
  have hit1: "entry_matches (mem ?s) ?p nm" using hit entry_matches_bytes [OF same [OF j], of nm] by simp
  have attr1: "i_attribute (mem ?s) ?p AND FAT_FILE_SUBDIRECTORY = 0"
    using attr arg_cong [OF same [OF j], of "\<lambda>b. b ! 11"] by (simp add: i_attribute_def)
  have rest1: "\<not> entry_matches (mem ?s) (?p + 32 + 32 * of_nat i) nm" if "i < k" for i
  proof -
    have p: "?p + 32 + 32 * of_nat i = items + 32 * of_nat (j + Suc i)" by (simp add: algebra_simps)
    have "j + Suc i < n" "j + Suc i \<noteq> j" using that n by simp_all
    then show ?thesis
      unfolding p using rest [of "j + Suc i"] entry_matches_bytes [OF same, of "j + Suc i" nm] by simp
  qed
  have room1: "2 \<le> kroom ?s" using room by simp
  note first = find_item_first [OF tail room1 hit1 attr1 rest1, of dev d item]
  have "find_item_loop n dev d items name item s = find_item_loop (Suc k) dev d ?p name item ?s"
    unfolding n find_item_append m(1) by simp
  then show ?thesis using first lookup_step_trans [OF m(2)] by (auto simp: same [OF j] simp del: find_item_loop.simps)
qed

section \<open>Opening a file of the root directory\<close>

lemma more_disk:
  "machine.more s' = machine.more s \<Longrightarrow> disk_var s' = disk_var s \<and> disk_address s' = disk_address s \<and>
     tmp_filename s' = tmp_filename s \<and> io s' = io s" for s s' :: "'a disk_machine_scheme"
  by (cases s; cases s') simp

lemma klog_states [simp]:
  "kvacant (klog t s) = kvacant s" "machine_ok (klog t s) = machine_ok s" "tmp_filename (klog t u) = tmp_filename u"
  "disk_address (klog t u) = disk_address u" "disk_var (klog t u) = disk_var u"
  by (simp_all add: klog_def machine_ok_def)

lemma lookup_ok_klog [simp]: "lookup_ok (klog t s) items n name nm = lookup_ok s items n name nm"
  by (simp add: lookup_ok_def)

lemma lookup_step_klog [simp]: "lookup_step (klog t s) s' = lookup_step s s'"
  by (simp add: lookup_step_def)

lemma disk_private_klog [simp]: "disk_private (klog t s) d = disk_private s d"
  by (simp add: disk_private_def disk_at_def private_at_def)

lemma part_at_klog [simp]: "part_at (klog t s) p = part_at s p"
  by (simp add: part_at_def)

lemma object_live: "machine_ok s \<Longrightarrow> objs s p = Some x \<Longrightarrow> klive s p \<noteq> None"
  by (auto simp: machine_ok_def)

lemma directory_entry_file:
  assumes ok: "lookup_ok s (dir_item (root_dir pr)) n name nm" and total: "dir_total (root_dir pr) = int n" and room: "2 \<le> kroom s"
    and pr: "disk_private s d = Some (private, pr)" and path: "part_at s path = Some \<lparr>part = name, next_part = 0\<rparr>"
    and j: "j < n" and hit: "entry_matches (mem s) (dir_item (root_dir pr) + 32 * of_nat j) nm"
    and attr: "i_attribute (mem s) (dir_item (root_dir pr) + 32 * of_nat j) AND FAT_FILE_SUBDIRECTORY = 0"
    and rest: "\<And>i. i < n \<Longrightarrow> i \<noteq> j \<Longrightarrow> \<not> entry_matches (mem s) (dir_item (root_dir pr) + 32 * of_nat i) nm"
  shows "\<exists>i c s'. fat16_get_directory_entry dev d path s = Some (i, s') \<and> lookup_step s s' \<and>
    file_item_at s' i c (bytes_at (mem s) (dir_item (root_dir pr) + 32 * of_nat j) 32) \<and> klive s' = (klive s)(i \<mapsto> 1, c \<mapsto> 1) \<and>
    klive s i = None \<and> klive s c = None \<and> addrs c 32 \<subseteq> kvacant s \<and>
    objs s' = (objs s)(i \<mapsto> Obj_item \<lparr>item_ptr = c, item_type = FAT_ITEM_TYPE_FILE\<rparr>) \<and> kroom s = kroom s' + 2"
proof -
  let ?s = "klog ''FAT16 filesystem is finding the file.\<newline>'' s"
  have prems: "lookup_ok ?s (dir_item (root_dir pr)) n name nm" "2 \<le> kroom ?s"
    "entry_matches (mem ?s) (dir_item (root_dir pr) + 32 * of_nat j) nm"
    "i_attribute (mem ?s) (dir_item (root_dir pr) + 32 * of_nat j) AND FAT_FILE_SUBDIRECTORY = 0"
    "\<And>i. i < n \<Longrightarrow> i \<noteq> j \<Longrightarrow> \<not> entry_matches (mem ?s) (dir_item (root_dir pr) + 32 * of_nat i) nm"
    using ok room hit attr rest by simp_all
  obtain i c s' where 1: "find_item_loop n dev d (dir_item (root_dir pr)) name 0 ?s = Some (i, s')" "lookup_step s s'"
    "file_item_at s' i c (bytes_at (mem s) (dir_item (root_dir pr) + 32 * of_nat j) 32)" "klive s' = (klive s)(i \<mapsto> 1, c \<mapsto> 1)"
    "klive s i = None" "klive s c = None" "addrs c 32 \<subseteq> kvacant s"
    "objs s' = (objs s)(i \<mapsto> Obj_item \<lparr>item_ptr = c, item_type = FAT_ITEM_TYPE_FILE\<rparr>)"
    "kroom s = kroom s' + 2"
    using find_item_only [OF prems(1,2) j prems(3,4,5), of dev d 0] by auto
  have i: "i \<noteq> 0" using 1(3) by (simp add: file_item_at_def)
  obtain x where "objs s path = Some x" using path by (auto simp: part_at_def split: option.splits)
  then have "i \<noteq> path" using object_live [of s path] ok 1(5) by (auto simp: lookup_ok_def)
  then have "part_at s' path = Some \<lparr>part = name, next_part = 0\<rparr>" using path by (simp add: part_at_def 1(8))
  then have "fat16_get_directory_entry dev d path s = Some (i, s')"
    using pr path total 1(1) i
    by (simp add: fat16_get_directory_entry_def fat16_find_item_in_directory_def Let_def walk_path.simps [of dev d i 0])
  then show ?thesis using 1 by blast
qed

lemma open_root_file:
  assumes ok: "lookup_ok s (dir_item (root_dir pr)) n name nm" and total: "dir_total (root_dir pr) = int n" and room: "3 \<le> kroom s"
    and pr: "disk_private s d = Some (private, pr)" and path: "part_at s path = Some \<lparr>part = name, next_part = 0\<rparr>"
    and j: "j < n" and hit: "entry_matches (mem s) (dir_item (root_dir pr) + 32 * of_nat j) nm"
    and attr: "i_attribute (mem s) (dir_item (root_dir pr) + 32 * of_nat j) AND FAT_FILE_SUBDIRECTORY = 0"
    and rest: "\<And>i. i < n \<Longrightarrow> i \<noteq> j \<Longrightarrow> \<not> entry_matches (mem s) (dir_item (root_dir pr) + 32 * of_nat i) nm"
  shows "\<exists>p i c s'. fat16_open dev d path FILE_MODE_READ s = Some (p, s') \<and> p \<noteq> 0 \<and> klive s p = None \<and>
    ffd_at s' p = Some \<lparr>fat_fd_item = i, fat_fd_pos = 0\<rparr> \<and>
    file_item_at s' i c (bytes_at (mem s) (dir_item (root_dir pr) + 32 * of_nat j) 32) \<and>
    klive s' = (klive s)(p \<mapsto> 1, i \<mapsto> 1, c \<mapsto> 1) \<and> lookup_step s s' \<and>
    (\<forall>q. q \<noteq> p \<and> q \<noteq> i \<longrightarrow> objs s' q = objs s q) \<and> kroom s = kroom s' + 3 \<and>
    klive s i = None \<and> klive s c = None \<and> addrs c 32 \<subseteq> kvacant s \<and> distinct [p, i, c]"
proof -
  let ?items = "dir_item (root_dir pr)"
  let ?e = "?items + 32 * of_nat j"
  have mok: "machine_ok s" using ok by (simp add: lookup_ok_def)
  obtain p s1 where 1: "kzalloc_obj s 8 (Obj_ffd \<lparr>fat_fd_item = 0, fat_fd_pos = 0\<rparr>) = (p, s1)" "p \<noteq> 0" "grows s s1"
    "kroom s = kroom s1 + 1" "klive s p = None" "klive s1 = (klive s)(p \<mapsto> 1)" "objs s p = None"
    "objs s1 = (objs s)(p \<mapsto> Obj_ffd \<lparr>fat_fd_item = 0, fat_fd_pos = 0\<rparr>)" "machine.more s1 = machine.more s"
    using kzalloc_obj_fits [OF mok, of 8 "Obj_ffd \<lparr>fat_fd_item = 0, fat_fd_pos = 0\<rparr>"] room by auto
  let ?s2 = "klog ''FAT16 filesystem is opening the file.\<newline>'' s1"
  have step: "lookup_step s ?s2" using 1(3) more_disk [OF 1(9)] by (auto simp: lookup_step_def grows_def)
  have same: "bytes_at (mem s1) (?items + 32 * of_nat i) 32 = bytes_at (mem s) (?items + 32 * of_nat i) 32" if "i < n" for i
    using lookup_ok_step(2) [OF ok step that] by simp
  have ok2: "lookup_ok ?s2 ?items n name nm" by (rule lookup_ok_step(1) [OF ok step])
  have prems: "entry_matches (mem ?s2) ?e nm" "i_attribute (mem ?s2) ?e AND FAT_FILE_SUBDIRECTORY = 0" "2 \<le> kroom ?s2"
    using hit entry_matches_bytes [OF same [OF j], of nm] attr arg_cong [OF same [OF j], of "\<lambda>b. b ! 11"] room 1(4)
    by (simp_all add: i_attribute_def)
  have rest2: "\<not> entry_matches (mem ?s2) (?items + 32 * of_nat i) nm" if "i < n" "i \<noteq> j" for i
    using rest [OF that] entry_matches_bytes [OF same [OF that(1)], of nm] by simp
  have priv: "disk_private ?s2 d = Some (private, pr)" "part_at ?s2 path = Some \<lparr>part = name, next_part = 0\<rparr>"
    using pr path 1(7,8) more_disk [OF 1(9)]
    by (auto simp: disk_private_def disk_at_def private_at_def part_at_def bind_eq_Some_conv split: if_splits option.splits)
  obtain i c s3 where 3: "fat16_get_directory_entry dev d path ?s2 = Some (i, s3)" "lookup_step ?s2 s3"
    "file_item_at s3 i c (bytes_at (mem s1) ?e 32)" "klive s3 = (klive s1)(i \<mapsto> 1, c \<mapsto> 1)" "klive s1 i = None" "klive s1 c = None" "addrs c 32 \<subseteq> kvacant s1"
    "objs s3 = (objs s1)(i \<mapsto> Obj_item \<lparr>item_ptr = c, item_type = FAT_ITEM_TYPE_FILE\<rparr>)" "kroom s1 = kroom s3 + 2"
    using directory_entry_file [OF ok2 total prems(3) priv j prems(1,2) rest2, of dev] by auto
  have i: "i \<noteq> 0" "i \<noteq> p" using 3(3,5) 1(6) by (auto simp: file_item_at_def)
  let ?s4 = "put_obj p (Obj_ffd \<lparr>fat_fd_item = i, fat_fd_pos = 0\<rparr>) s3"
  have ffd3: "ffd_at s3 p = Some \<lparr>fat_fd_item = 0, fat_fd_pos = 0\<rparr>" using i(2) by (simp add: ffd_at_def 3(8) 1(8))
  have run: "fat16_open dev d path FILE_MODE_READ s = Some (p, ?s4)"
    using 1(1,2) 3(1) ffd3 i(1) by (simp add: fat16_open_def put_obj_put_obj Let_def)
  have item4: "file_item_at ?s4 i c (bytes_at (mem s) ?e 32)"
    using 3(3) i(2) same [OF j] by (simp add: file_item_at_def item_at_def)
  have live4: "klive ?s4 = (klive s)(p \<mapsto> 1, i \<mapsto> 1, c \<mapsto> 1)" using 3(4) 1(6) by simp
  have "machine_ok ?s4" using 3(2) live4 by (auto simp: lookup_step_def machine_ok_def)
  then have "lookup_step s3 ?s4" using 3(2) by (simp add: lookup_step_def put_obj_def)
  then have step4: "lookup_step s ?s4" using lookup_step_trans step 3(2) by blast
  have "objs ?s4 q = objs s q" if "q \<noteq> p" "q \<noteq> i" for q using that by (simp add: 3(8) 1(8))
  moreover have "kroom s = kroom ?s4 + 3" using 1(4) 3(9) by simp
  moreover have "klive s i = None" "klive s c = None" using 3(5,6) 1(6) by (auto split: if_splits)
  moreover have "addrs c 32 \<subseteq> kvacant s" using 3(7) 1(3) by (auto simp: grows_def)
  moreover have "distinct [p, i, c]" using i(2) 3(3,6) 1(6) by (auto simp: file_item_at_def)
  ultimately show ?thesis
    using run 1(2,5) item4 live4 step4 by (intro exI conjI) (assumption | simp add: ffd_at_def | blast)+
qed

end
