(* ===== verification/Example_Machine.thy ===== *)
theory Example_Machine
  imports Vfs Disk_Properties Fat16_Lookup
begin

text \<open>
  A small machine with a mounted FAT16 disk, for the examples of the file-system theories: a heap
  of 32 blocks of which 16 are in use, the objects of one mounted disk, and a root directory with
  one file \<open>HELLO.TXT\<close>.
\<close>

definition used_heap :: heap where
  "used_heap = \<lparr>table = \<lparr>entries = (\<lambda>i. if 0 \<le> i \<and> i < 16 then 0x41 else 0), table_total = 32\<rparr>, start_address = 0x01000000\<rparr>"

lemma used_heap_ok: "heap_ok used_heap"
  by (simp add: heap_ok_def heap_blocks_def used_heap_def heap_consts table_ok_def)

lemma used_blocks: "0 \<le> i \<Longrightarrow> i < 16 \<Longrightarrow> live used_heap (block_address used_heap i) = Some 1"
  using live_block_address [OF used_heap_ok, of i]
  by (simp add: allocation_def heap_blocks_def used_heap_def heap_consts block_has_next_block_def run_length.simps)

lemma used_live:
  "live used_heap 0x01000000 = Some 1" "live used_heap 0x01001000 = Some 1" "live used_heap 0x01002000 = Some 1"
  "live used_heap 0x01003000 = Some 1" "live used_heap 0x01004000 = Some 1" "live used_heap 0x01005000 = Some 1"
  "live used_heap 0x01006000 = Some 1" "live used_heap 0x01007000 = Some 1" "live used_heap 0x01008000 = Some 1"
  "live used_heap 0x01009000 = Some 1" "live used_heap 0x0100A000 = Some 1"
  using used_blocks [of 0] used_blocks [of 1] used_blocks [of 2] used_blocks [of 3] used_blocks [of 4] used_blocks [of 5]
    used_blocks [of 6] used_blocks [of 7] used_blocks [of 8] used_blocks [of 9] used_blocks [of 10]
  by (simp_all add: block_address_def used_heap_def heap_consts)

lemma used_room: "free_room used_heap = 16"
proof -
  have "{i. 0 \<le> i \<and> i < heap_blocks used_heap \<and> entries (table used_heap) i = 0} = {16..<32}"
    by (auto simp: heap_blocks_def used_heap_def split: if_splits)
  then show ?thesis by (simp add: free_room_def)
qed

lemma used_vacant:
  assumes "unat p + n \<le> 0x01010000"
  shows "addrs p n \<inter> vacant used_heap = {}"
proof -
  have "block_of used_heap a < 16" if "a \<in> addrs p n" for a
  proof -
    have "unat a < 0x01010000" using that assms by (simp add: addrs_interval)
    then have "uint a < 0x01010000" using of_nat_less_iff [of "unat a" "0x01010000", where 'a = int] by simp
    then show ?thesis by (simp add: block_of_def used_heap_def)
  qed
  then show ?thesis by (force simp: vacant_def used_heap_def)
qed

text \<open>
  The mounted disk: the private data and its three streams, the root directory, an open path
  \<open>"/hello.txt"\<close>, an open file with its item, and its descriptor.
\<close>

definition hello_item :: "u8 list" where
  "hello_item = [0x48, 0x45, 0x4C, 0x4C, 0x4F, 0x20, 0x20, 0x20, 0x54, 0x58, 0x54, 0x20, 0, 0, 0, 0,
     0, 0, 0, 0, 0, 0, 0, 0, 0, 0, 3, 0, 20, 0, 0, 0]"

definition hello_name :: "u8 list" where
  "hello_name = [0x68, 0x65, 0x6C, 0x6C, 0x6F, 0x2E, 0x74, 0x78, 0x74]"

definition fat_memory :: memory where
  "fat_memory = write_bytes 0x01004000 hello_item (write_bytes 0x01009000 hello_item
     (write_bytes 0x01006000 (hello_name @ [0]) ((\<lambda>a. 0)(0x0100000D := 4, 0x0100000E := 1, 0x01000010 := 2,
        0x01000011 := 64, 0x01000016 := 2, 0x01000026 := 0x29))))"

definition fat_private :: fat_private_data where
  "fat_private = \<lparr>root_dir = \<lparr>dir_item = 0x01004000, dir_total = 1, sector_pos = 5, ending_sector_pos = 9\<rparr>,
     cluster_read_stream = 0x01001000, fat_read_stream = 0x01002000, directory_stream = 0x01003000\<rparr>"

definition fat_objects :: "u32 \<Rightarrow> kobj option" where
  "fat_objects = [0x01000000 \<mapsto> Obj_private fat_private,
     0x01001000 \<mapsto> Obj_stream \<lparr>pos = 0, disk = 0x8000\<rparr>, 0x01002000 \<mapsto> Obj_stream \<lparr>pos = 0, disk = 0x8000\<rparr>,
     0x01003000 \<mapsto> Obj_stream \<lparr>pos = 0, disk = 0x8000\<rparr>,
     0x01005000 \<mapsto> Obj_part \<lparr>part = 0x01006000, next_part = 0\<rparr>,
     0x01007000 \<mapsto> Obj_ffd \<lparr>fat_fd_item = 0x01008000, fat_fd_pos = 4\<rparr>,
     0x01008000 \<mapsto> Obj_item \<lparr>item_ptr = 0x01009000, item_type = 1\<rparr>,
     0x0100A000 \<mapsto> Obj_fd \<lparr>fd_index = 1, fd_fs = 0x9000, fd_disk = 0x8000, fd_p = 0x01007000\<rparr>]"

definition fat_disk :: disk where
  "fat_disk = \<lparr>disk_type = 0, sector_size = 512, disk_id = 0, disk_fs = 0x9000, fs_private_data = 0x01000000\<rparr>"

definition fat_machine :: fs_machine where
  "fat_machine = \<lparr>mem = fat_memory, con = \<lparr>vram = (\<lambda>a. 0), g_row = 0, g_column = 0, g_color = 15\<rparr>,
     g_kernel_heap = used_heap, objs = fat_objects, io = [], disk_var = fat_disk,
     disk_address = 0x8000, fat16_fs_address = 0x9000, tmp_filename = 0xA000,
     filesystems = 0x9000 # replicate 11 0, file_descriptors = 0x0100A000 # replicate 511 0\<rparr>"

lemma fat_machine_simps [simp]:
  "mem fat_machine = fat_memory" "g_kernel_heap fat_machine = used_heap" "objs fat_machine = fat_objects"
  "disk_var fat_machine = fat_disk" "disk_address fat_machine = 0x8000" "tmp_filename fat_machine = 0xA000"
  "fat16_fs_address fat_machine = 0x9000" "filesystems fat_machine = 0x9000 # replicate 11 0"
  "file_descriptors fat_machine = 0x0100A000 # replicate 511 0"
  by (simp_all add: fat_machine_def)

lemma fat_machine_ok: "machine_ok fat_machine" "kroom fat_machine = 16"
  using used_heap_ok used_room used_live
  by (auto simp: machine_ok_def kheap_defs fat_objects_def split: if_splits)

lemma fat_memory_header:
  "h_sectors_per_cluster fat_memory 0x01000000 = 4" "h_reserved_sectors fat_memory 0x01000000 = 1"
  by (simp_all add: h_sectors_per_cluster_def h_reserved_sectors_def load16_def fat_memory_def write_bytes_def
    addrs_def hello_item_def hello_name_def)

lemma fat_memory_items: "bytes_at fat_memory 0x01004000 32 = hello_item" "bytes_at fat_memory 0x01009000 32 = hello_item"
proof -
  have l: "length hello_item = 32" by (simp add: hello_item_def)
  show "bytes_at fat_memory 0x01004000 32 = hello_item"
    unfolding fat_memory_def using bytes_at_write_bytes [of hello_item "0x01004000"] l by simp
  have "addrs 0x01004000 32 \<inter> addrs 0x01009000 32 = {}" using addrs_apart [of "0x01004000" 32 "0x01009000" 32] by auto
  then have "bytes_at fat_memory 0x01009000 32 =
      bytes_at (write_bytes 0x01009000 hello_item (write_bytes 0x01006000 (hello_name @ [0]) ((\<lambda>a. 0)(0x0100000D := 4, 0x0100000E := 1,
        0x01000010 := 2, 0x01000011 := 64, 0x01000016 := 2, 0x01000026 := 0x29)))) 0x01009000 32"
    unfolding fat_memory_def by (intro bytes_at_cong write_bytes_outside) (auto simp: l)
  then show "bytes_at fat_memory 0x01009000 32 = hello_item"
    using bytes_at_write_bytes [of hello_item "0x01009000"] l by simp
qed

lemma fat_machine_private: "disk_private fat_machine 0x8000 = Some (0x01000000, fat_private)" "disk_at fat_machine 0x8000 = Some fat_disk"
  by (simp_all add: disk_private_def disk_at_def fat_disk_def private_at_def fat_objects_def)

lemma hello_lookup: "lookup_ok fat_machine 0x01004000 1 0x01006000 hello_name"
proof -
  have str: "str_at fat_memory 0x01006000 hello_name"
    by (simp add: fat_memory_def write_bytes_def addrs_def hello_item_def hello_name_def)
  have len: "Suc (length hello_name) = 10" by (simp add: hello_name_def)
  have v: "kvacant fat_machine = vacant used_heap" by (simp add: kvacant_def)
  have apart: "addrs 0xA000 100 \<inter> addrs 0x01004000 32 = {}" "addrs 0xA000 100 \<inter> addrs 0x01006000 10 = {}"
    using addrs_apart [of "0xA000" 100 "0x01004000" 32] addrs_apart [of "0xA000" 100 "0x01006000" 10] by auto
  have free: "addrs 0xA000 100 \<inter> vacant used_heap = {}" "addrs 0x01004000 32 \<inter> vacant used_heap = {}"
    "addrs 0x01006000 10 \<inter> vacant used_heap = {}"
    by (rule used_vacant; simp)+
  have range: "addrs 0x01004000 32 \<inter> (addrs 0xA000 100 \<union> vacant used_heap) = {}"
    "addrs 0x01006000 10 \<inter> (addrs 0xA000 100 \<union> vacant used_heap) = {}"
    using apart free by blast+
  have "length hello_name < 4096" "(1 :: nat) < 2 ^ 16" by (simp_all add: hello_name_def)
  then show ?thesis
    unfolding lookup_ok_def len v fat_machine_simps mult_1_right
    using fat_machine_ok(1) str range free(1) by (intro conjI)
qed

lemma hello_facts:
  "lookup_ok fat_machine (dir_item (root_dir fat_private)) 1 0x01006000 hello_name"
  "dir_total (root_dir fat_private) = int 1"
  "part_at fat_machine 0x01005000 = Some \<lparr>part = 0x01006000, next_part = 0\<rparr>"
  "entry_matches (mem fat_machine) (dir_item (root_dir fat_private) + 32 * of_nat 0) hello_name"
  "i_attribute (mem fat_machine) (dir_item (root_dir fat_private) + 32 * of_nat 0) AND FAT_FILE_SUBDIRECTORY = 0"
  "\<And>i. i < 1 \<Longrightarrow> i \<noteq> 0 \<Longrightarrow> \<not> entry_matches (mem fat_machine) (dir_item (root_dir fat_private) + 32 * of_nat i) hello_name"
  "bytes_at (mem fat_machine) (dir_item (root_dir fat_private) + 32 * of_nat 0) 32 = hello_item"
proof -
  have "take 11 (bytes_at fat_memory 0x01004000 32) = bytes_at fat_memory 0x01004000 11"
    using bytes_at_append [of fat_memory "0x01004000" 11 21] by simp
  then have b: "bytes_at fat_memory 0x01004000 11 = take 11 hello_item" by (simp only: fat_memory_items)
  show "entry_matches (mem fat_machine) (dir_item (root_dir fat_private) + 32 * of_nat 0) hello_name"
    by (simp add: fat_private_def entry_matches_def b item_name_def field_text_def hello_item_def hello_name_def
      casefold_def tolower_def isupper_def)
  show "i_attribute (mem fat_machine) (dir_item (root_dir fat_private) + 32 * of_nat 0) AND FAT_FILE_SUBDIRECTORY = 0"
    using arg_cong [OF fat_memory_items(1), of "\<lambda>b. b ! 11"]
    by (simp add: fat_private_def i_attribute_def hello_item_def fat_consts)
qed (use hello_lookup in \<open>simp_all add: fat_private_def fat_memory_items part_at_def fat_objects_def\<close>)

end
