(* ===== verification/Fat16_Properties.thy ===== *)
theory Fat16_Properties
  imports Example_Machine
begin

text \<open>
  What the FAT16 driver does, on a disk that the controller reads correctly: what it gets right
  (names, the scan of a directory, opening a file of the root directory, reading in its first
  cluster) and what it gets wrong (the place of a table entry, subdirectories,
  reading across the end of a sector).
\<close>

section \<open>Names and directories\<close>

text \<open>
  C26. \<open>fat16_get_full_relative_filename\<close> writes the name, a dot when there is an
  extension, and the extension, each without its padding, as the reference definition gives
  it, and only into the output buffer.
\<close>

lemma fat_name_text:
  assumes "addrs out 100 \<inter> addrs item 11 = {}"
  shows "let m' = fat16_get_full_relative_filename item out 100 m in
    str_at m' out (item_name (bytes_at m item 11)) \<and> (\<forall>a. a \<notin> addrs out 100 \<longrightarrow> m' a = m a)"
  using full_name_str [OF assms] by (simp add: Let_def)

lemma fat_name_text_witness:
  "str_at (fat16_get_full_relative_filename 0x01004000 0xA000 100 fat_memory) 0xA000 [0x48, 0x45, 0x4C, 0x4C, 0x4F, 0x2E, 0x54, 0x58, 0x54]"
proof -
  have "addrs 0xA000 100 \<inter> addrs 0x01004000 11 = {}" using addrs_apart [of "0xA000" 100 "0x01004000" 11] by auto
  moreover have "take 11 (bytes_at fat_memory 0x01004000 32) = bytes_at fat_memory 0x01004000 11"
    using bytes_at_append [of fat_memory "0x01004000" 11 21] by simp
  then have "bytes_at fat_memory 0x01004000 11 = take 11 hello_item" by (simp only: fat_memory_items)
  ultimately show ?thesis
    using fat_name_text [of "0xA000" "0x01004000" fat_memory] by (simp add: Let_def item_name_def field_text_def hello_item_def)
qed

text \<open>
  C23. The scan that counts the entries of a directory gives the number that the reference
  definition counts in the bytes of the disk image: entries up to the first zero byte, without
  the deleted ones.
\<close>

lemma directory_items_counted:
  assumes "ata_ok dev img" and "disk_at s d = Some dk" and "sector_size dk = 512" and "disk_private s d = Some (private, pr)"
    and "stream_on s (directory_stream pr)" and "512 * sector + 32 * Suc k < 2 ^ 31"
    and "\<And>i. i < k \<Longrightarrow> disk_byte img (512 * sector + 32 * i) \<noteq> 0" and "disk_byte img (512 * sector + 32 * k) = 0"
  shows "\<exists>s'. fat16_get_total_items_for_directory dev d (int sector) s = Some (used_items img (512 * sector) k, s')"
proof -
  let ?s = "put_obj (directory_stream pr) (stream_state (512 * sector) s) s"
  have st: "objs ?s (directory_stream pr) = Some (stream_state (512 * sector) ?s)" by (simp add: stream_state_def)
  have "(512 * sector) mod 32 = 0" by (simp add: mod_eq_0_iff_dvd dvd_mult2)
  then obtain h where "count_items dev (directory_stream pr) 0 ?s =
      Some (used_items img (512 * sector) k, put_obj (directory_stream pr) (stream_state (512 * sector + 32 * Suc k) ?s) (?s\<lparr>io := h\<rparr>))"
    using count_items_used [OF assms(1) st _ assms(6-8), of 0] by auto
  then show ?thesis
    using assms(2-4) seek_then [OF assms(5), of "512 * sector"]
    by (simp add: fat16_get_total_items_for_directory_def Let_def mult.commute)
qed

definition two_item_image :: "nat \<Rightarrow> u8 list" where
  "two_item_image l = (if l = 5 then replicate 32 0x41 @ replicate 32 0xE5 @ replicate 32 0x42 @ replicate 416 0 else replicate 512 0)"

lemma directory_items_counted_witness:
  "\<exists>s'. fat16_get_total_items_for_directory (ata_disk two_item_image) 0x8000 5 fat_machine = Some (2, s')"
proof -
  have dev: "ata_ok (ata_disk two_item_image) two_item_image" by (rule ata_disk_ok) (simp add: two_item_image_def)
  have b: "disk_byte two_item_image (2560 + 32 * i) = [0x41, 0xE5, 0x42, 0] ! i" if "i < 4" for i
  proof -
    have "i = 0 \<or> i = 1 \<or> i = 2 \<or> i = 3" using that by auto
    then show ?thesis by (auto simp: disk_byte_def two_item_image_def nth_append)
  qed
  have "used_items two_item_image 2560 3 = 2"
    using b [of 0] b [of 1] b [of 2] by (simp add: used_items_def numeral_3_eq_3)
  moreover have "stream_on fat_machine (directory_stream fat_private)"
    by (simp add: stream_on_def fat_private_def fat_objects_def)
  moreover have "disk_byte two_item_image (512 * 5 + 32 * i) \<noteq> 0" if "i < 3" for i
    using b [of i] that by (auto simp: numeral_3_eq_3 less_Suc_eq)
  ultimately show ?thesis
    using directory_items_counted [OF dev fat_machine_private(2) _ fat_machine_private(1), of 5 3] b [of 3]
    by (simp add: fat_disk_def)
qed

section \<open>The allocation table\<close>

text \<open>
  C29. The table entry of a cluster is read at the position of the table times the cluster
  number times the entry size 2, where it should be at the position of the table plus the
  offset of the entry.
\<close>

lemma fat_entry_misplaced:
  assumes "ata_ok dev img" and "disk_at s d = Some dk" and "sector_size dk = 512" and "disk_private s d = Some (private, pr)"
    and "fat_read_stream pr \<noteq> 0" and "stream_on s (fat_read_stream pr)"
    and "r = h_reserved_sectors (mem s) private" and "1 \<le> r" and "1 \<le> cluster" and "r * 512 * (cluster * 2) + 2 < 2 ^ 31"
  shows "\<exists>q s'. fat16_get_fat_entry dev d cluster s = Some (uint (disk_byte img q) + 256 * uint (disk_byte img (q + 1)), s') \<and>
    int q = r * 512 * (cluster * 2) \<and> int q \<noteq> r * 512 + cluster * 2"
proof -
  let ?q = "fat_entry_pos r cluster"
  have q: "int ?q = r * 512 * (cluster * 2)" using assms(8,9) by (simp add: fat_entry_pos_def)
  then have "int ?q + 2 < 2 ^ 31" using assms(10) by simp
  then have "?q + 2 < 2 ^ 31" by simp
  then obtain s' where "fat16_get_fat_entry dev d cluster s =
      Some (uint (disk_byte img ?q) + 256 * uint (disk_byte img (?q + 1)), s')"
    using fat_entry_read [OF assms(1-6), of cluster] assms(7,9) by (auto simp: Let_def)
  moreover have "r * 512 * (cluster * 2) \<noteq> r * 512 + cluster * 2"
  proof -
    have "2 * (r * 512) \<le> r * 512 * (cluster * 2)" using assms(8,9) by (simp add: mult_le_cancel_left)
    moreover have "512 * (cluster * 2) \<le> r * 512 * (cluster * 2)" using assms(8,9) by (simp add: mult_right_mono)
    ultimately show ?thesis using assms(8,9) by linarith
  qed
  ultimately show ?thesis using q by metis
qed

lemma fat_entry_misplaced_witness:
  "\<exists>s'. fat16_get_fat_entry (ata_disk plain_image) 0x8000 3 fat_machine = Some (6 + 256 * 6, s')"
proof -
  have st: "stream_on fat_machine (fat_read_stream fat_private)" "fat_read_stream fat_private \<noteq> 0"
    by (simp_all add: stream_on_def fat_private_def fat_objects_def)
  obtain q s' where q: "fat16_get_fat_entry (ata_disk plain_image) 0x8000 3 fat_machine =
      Some (uint (disk_byte plain_image q) + 256 * uint (disk_byte plain_image (q + 1)), s')" "int q = 3072"
    using fat_entry_misplaced [OF plain_disk_ok fat_machine_private(2) _ fat_machine_private(1) st(2,1), of 1 3]
    by (auto simp: fat_disk_def fat_memory_header)
  then have "q = 3072" by linarith
  then show ?thesis using q(1) by (simp add: disk_byte_def plain_image_def)
qed

section \<open>Opening and reading\<close>

text \<open>
  \<open>fat16_open\<close> of a one-name path that names exactly one entry of the root
  directory, a file, returns a fresh descriptor at position 0 whose item holds a copy of that
  entry.
\<close>

lemma fat_open_root_file:
  assumes "lookup_ok s (dir_item (root_dir pr)) n name nm" and "dir_total (root_dir pr) = int n" and "3 \<le> kroom s"
    and "disk_private s d = Some (private, pr)" and "part_at s path = Some \<lparr>part = name, next_part = 0\<rparr>"
    and "j < n" and "entry_matches (mem s) (dir_item (root_dir pr) + 32 * of_nat j) nm"
    and "i_attribute (mem s) (dir_item (root_dir pr) + 32 * of_nat j) AND FAT_FILE_SUBDIRECTORY = 0"
    and "\<And>i. i < n \<Longrightarrow> i \<noteq> j \<Longrightarrow> \<not> entry_matches (mem s) (dir_item (root_dir pr) + 32 * of_nat i) nm"
  shows "\<exists>p i c s'. fat16_open dev d path FILE_MODE_READ s = Some (p, s') \<and> p \<noteq> 0 \<and> machine_ok s' \<and>
    klive s' = (klive s)(p \<mapsto> 1, i \<mapsto> 1, c \<mapsto> 1) \<and> ffd_at s' p = Some \<lparr>fat_fd_item = i, fat_fd_pos = 0\<rparr> \<and>
    item_at s' i = Some \<lparr>item_ptr = c, item_type = FAT_ITEM_TYPE_FILE\<rparr> \<and>
    bytes_at (mem s') c 32 = bytes_at (mem s) (dir_item (root_dir pr) + 32 * of_nat j) 32"
  using open_root_file [OF assms, of dev] by (auto simp: file_item_at_def lookup_step_def)

lemma fat_open_root_file_witness:
  "\<exists>p c s'. fat16_open (ata_disk plain_image) 0x8000 0x01005000 FILE_MODE_READ fat_machine = Some (p, s') \<and> p \<noteq> 0 \<and>
     bytes_at (mem s') c 32 = hello_item"
  using fat_open_root_file [OF hello_facts(1,2) _ fat_machine_private(1) hello_facts(3) zero_less_one hello_facts(4-6)]
  unfolding hello_facts(7) by (simp add: fat_machine_ok) blast

text \<open>
  \<open>fat16_open\<close> for another mode than reading gives the error pointer of
  \<open>-EROFS\<close> and changes the console only.
\<close>

lemma fat_open_not_for_writing:
  assumes "mode \<noteq> FILE_MODE_READ"
  shows "\<exists>c. fat16_open dev d path mode s = Some (ERR_PTR (- EROFS), s\<lparr>con := c\<rparr>)"
  using assms by (auto simp: fat16_open_def fat16_open_error_def klog_def)

lemma fat_open_not_for_writing_witness:
  "\<exists>c. fat16_open (\<lambda>h. 0) 0x8000 0 FILE_MODE_WRITE fat_machine = Some (ERR_PTR (- 30), fat_machine\<lparr>con := c\<rparr>)"
  using fat_open_not_for_writing [of FILE_MODE_WRITE] by (simp add: file_consts EROFS_def)

text \<open>
  C30. A lookup that finds an item was for a path with one name: no path into a subdirectory
  is ever found.
\<close>

lemma fat_no_subdirectories:
  assumes "fat16_get_directory_entry dev d path s = Some (i, s')" and "i \<noteq> 0"
  shows "\<exists>x. part_at s' path = Some x \<and> next_part x = 0"
  using assms by (rule directory_entry_single)

lemma fat_no_subdirectories_witness:
  "\<exists>i s' x. fat16_get_directory_entry (ata_disk plain_image) 0x8000 0x01005000 fat_machine = Some (i, s') \<and> i \<noteq> 0 \<and>
     part_at s' 0x01005000 = Some x \<and> next_part x = 0"
proof -
  have room: "2 \<le> kroom fat_machine" by (simp add: fat_machine_ok)
  obtain i c s' where "fat16_get_directory_entry (ata_disk plain_image) 0x8000 0x01005000 fat_machine = Some (i, s')"
    "file_item_at s' i c hello_item"
    using directory_entry_file [OF hello_facts(1,2) room fat_machine_private(1) hello_facts(3) zero_less_one hello_facts(4-6)]
    unfolding hello_facts(7) by blast
  moreover from this have "i \<noteq> 0" by (simp add: file_item_at_def)
  ultimately show ?thesis using fat_no_subdirectories by blast
qed

text \<open>
  C13. \<open>fat16_read\<close> of one block in the first cluster of an open file, whose
  cluster number has no high word and which lies below 2 GB: when the block starts at a sector
  boundary or lies within one sector, the bytes of the disk image at that position are copied
  to the caller; when it starts inside a sector and runs past its end, the read goes off the
  sector buffer.
\<close>

lemma fat_read_file:
  assumes "ata_ok dev img" and dk: "disk_at s d = Some dk" "sector_size dk = 512"
    and pr: "disk_private s d = Some (private, pr)" "stream_on s (cluster_read_stream pr)"
    and fd: "ffd_at s p = Some fd" "item_at s (fat_fd_item fd) = Some x"
    and spc: "0 < h_sectors_per_cluster (mem s) private"
    and pos: "fat_fd_pos fd = of_nat off" and n: "0 < n" "int off + int n \<le> h_sectors_per_cluster (mem s) private * 512"
    and high: "i_high_16_bits_first_cluster (mem s) (item_ptr x) = 0"
    and start: "first_byte (mem s) private pr (item_ptr x) + int off = int start" "start + n < 2 ^ 31"
  shows "(start mod 512 = 0 \<or> start mod 512 + n \<le> 512 \<longrightarrow> (\<exists>s'. fat16_read dev d p (of_nat n) 1 out s = Some (1, s') \<and>
      mem s' = write_bytes out (disk_bytes img start n) (mem s) \<and> ffd_at s' p = Some fd)) \<and>
    (start mod 512 \<noteq> 0 \<and> 512 < start mod 512 + n \<longrightarrow> fat16_read dev d p (of_nat n) 1 out s = None)"
proof (intro conjI impI)
  assume "start mod 512 = 0 \<or> start mod 512 + n \<le> 512"
  from read_file_block [OF assms(1-13) this start(2), of out]
  show "\<exists>s'. fat16_read dev d p (of_nat n) 1 out s = Some (1, s') \<and>
    mem s' = write_bytes out (disk_bytes img start n) (mem s) \<and> ffd_at s' p = Some fd" by blast
next
  assume past: "start mod 512 \<noteq> 0 \<and> 512 < start mod 512 + n"
  have "start < 2 ^ 31" using start(2) by simp
  with past show "fat16_read dev d p (of_nat n) 1 out s = None"
    by (intro read_file_overrun [OF assms(1-7) pos n high start(1)]) simp_all
qed

lemma fat_read_file_witness:
  "\<exists>s'. fat16_read (ata_disk plain_image) 0x8000 0x01007000 16 1 0x3000000 fat_machine = Some (1, s') \<and>
     mem s' = write_bytes 0x3000000 (replicate 16 13) fat_memory"
proof -
  have st: "stream_on fat_machine (cluster_read_stream fat_private)"
    by (simp add: stream_on_def fat_private_def fat_objects_def)
  have fd: "ffd_at fat_machine 0x01007000 = Some \<lparr>fat_fd_item = 0x01008000, fat_fd_pos = 4\<rparr>"
    "item_at fat_machine 0x01008000 = Some \<lparr>item_ptr = 0x01009000, item_type = 1\<rparr>"
    by (simp_all add: ffd_at_def item_at_def fat_objects_def)
  have "load16 fat_memory (0x01009000 + 20) = 0" "load16 fat_memory (0x01009000 + 26) = 3"
    using arg_cong [OF fat_memory_items(2), of "\<lambda>b. b ! 20"] arg_cong [OF fat_memory_items(2), of "\<lambda>b. b ! 21"]
      arg_cong [OF fat_memory_items(2), of "\<lambda>b. b ! 26"] arg_cong [OF fat_memory_items(2), of "\<lambda>b. b ! 27"]
    by (simp_all add: load16_def hello_item_def)
  then have cl: "i_high_16_bits_first_cluster fat_memory 0x01009000 = 0" "i_low_16_bits_first_cluster fat_memory 0x01009000 = 3"
    by (simp_all add: i_high_16_bits_first_cluster_def i_low_16_bits_first_cluster_def)
  have b: "disk_bytes plain_image 6660 16 = replicate 16 13"
  proof (rule nth_equalityI)
    fix i assume "i < length (disk_bytes plain_image 6660 16)"
    then have "i < 16" by simp
    then have "(6660 + i) div 512 = 13" "(6660 + i) mod 512 < 512" by (simp_all add: div_nat_eqI)
    then show "disk_bytes plain_image 6660 16 ! i = replicate 16 13 ! i"
      using \<open>i < 16\<close> by (simp add: disk_bytes_def plain_image_def)
  qed simp
  show ?thesis
    using fat_read_file [OF plain_disk_ok fat_machine_private(2) _ fat_machine_private(1) st fd(1), of
        "\<lparr>item_ptr = 0x01009000, item_type = 1\<rparr>" 4 16 6660 "0x3000000"] fd(2) cl
    by (simp add: fat_memory_header fat_disk_def first_byte_def fat_private_def b) blast
qed

end
