(* ===== verification/Vfs_Correct.thy ===== *)
theory Vfs_Correct
  imports Vfs Fat16_Frame
begin

text \<open>
  The table of file descriptors. \<open>fd_table_ok\<close> is its invariant: every slot in use points to a
  \<open>struct file_descriptor\<close> whose index is one more than the slot.
\<close>

definition fd_table_ok :: "'a fs_machine_scheme \<Rightarrow> bool" where
  "fd_table_ok s \<longleftrightarrow> length (file_descriptors s) = 512 \<and>
     (\<forall>i < 512. file_descriptors s ! i \<noteq> 0 \<longrightarrow>
        (\<exists>x. fd_at s (file_descriptors s ! i) = Some x \<and> fd_index x = int i + 1))"

lemma fd_at_iff: "fd_at s p = Some x \<longleftrightarrow> objs s p = Some (Obj_fd x)"
  by (auto simp: fd_at_def split: option.splits kobj.splits)

lemma fd_table_okD:
  assumes "fd_table_ok s" and "i < 512" and "file_descriptors s ! i = p" and "p \<noteq> 0"
  shows "\<exists>x. objs s p = Some (Obj_fd x) \<and> fd_index x = int i + 1"
  using assms by (auto simp: fd_table_ok_def fd_at_iff)

lemma fd_table_distinct:
  assumes "fd_table_ok s" and "i < 512" and "j < 512" and "file_descriptors s ! i = file_descriptors s ! j"
    and "file_descriptors s ! i \<noteq> 0"
  shows "i = j"
  using fd_table_okD [OF assms(1,2) refl assms(5)] fd_table_okD [OF assms(1,3) refl] assms(4,5) by auto

lemma more_fs:
  "machine.more s' = machine.more s \<Longrightarrow> file_descriptors s' = file_descriptors s \<and> filesystems s' = filesystems s \<and>
     disk_var s' = disk_var s \<and> disk_address s' = disk_address s" for s s' :: "'a fs_machine_scheme"
  by (cases s; cases s') simp

lemma make_fd_full:
  assumes "fd_table_ok s" and "\<forall>i < 512. file_descriptors s ! i \<noteq> 0"
  shows "make_new_file_descriptor s = Some (- ENOMEM, 0, s)"
proof -
  have "List.find (\<lambda>i. file_descriptors s ! i = 0) [0..<MAX_FILE_DESCRIPTORS] = None"
    using assms(2) by (auto simp: find_None_iff MAX_FILE_DESCRIPTORS_def)
  then show ?thesis by (simp add: make_new_file_descriptor_def)
qed

lemma make_fd_slot:
  assumes ok: "machine_ok s" and fds: "fd_table_ok s" and room: "0 < kroom s"
    and i: "i < 512" "file_descriptors s ! i = 0" "\<forall>j < i. file_descriptors s ! j \<noteq> 0"
  shows "\<exists>fd s'. make_new_file_descriptor s = Some (0, fd, s') \<and> fd \<noteq> 0 \<and> machine_ok s' \<and> fd_table_ok s' \<and>
    klive s fd = None \<and> klive s' = (klive s)(fd \<mapsto> 1) \<and> file_descriptors s' = (file_descriptors s)[i := fd] \<and> grows s s' \<and>
    objs s' = (objs s)(fd \<mapsto> Obj_fd \<lparr>fd_index = int i + 1, fd_fs = 0, fd_disk = 0, fd_p = 0\<rparr>) \<and> kroom s = kroom s' + 1"
proof -
  let ?z = "\<lparr>fd_index = 0, fd_fs = 0, fd_disk = 0, fd_p = 0\<rparr>"
  obtain fd s1 where 1: "kzalloc_obj s 16 (Obj_fd ?z) = (fd, s1)" "fd \<noteq> 0" "grows s s1" "klive s fd = None"
    "klive s1 = (klive s)(fd \<mapsto> 1)" "objs s fd = None" "objs s1 = (objs s)(fd \<mapsto> Obj_fd ?z)" "machine.more s1 = machine.more s" "kroom s = kroom s1 + 1"
    using kzalloc_obj_fits [OF ok, of 16 "Obj_fd ?z"] room by auto
  let ?x = "\<lparr>fd_index = int i + 1, fd_fs = 0, fd_disk = 0, fd_p = 0\<rparr>"
  let ?s2 = "put_obj fd (Obj_fd ?x) s1"
  let ?s3 = "?s2\<lparr>file_descriptors := (file_descriptors ?s2)[i := fd]\<rparr>"
  have len: "length (file_descriptors s) = 512" using fds by (simp add: fd_table_ok_def)
  have fds1: "file_descriptors s1 = file_descriptors s" using more_fs [OF 1(8)] by simp
  have find: "List.find (\<lambda>i. file_descriptors s ! i = 0) [0..<MAX_FILE_DESCRIPTORS] = Some i"
    using i by (auto simp: find_Some_iff MAX_FILE_DESCRIPTORS_def intro!: exI [of _ i])
  have run: "make_new_file_descriptor s = Some (0, fd, ?s3)"
    using 1(1,7) by (simp add: make_new_file_descriptor_def find fd_at_def Let_def)
  have tab: "file_descriptors ?s3 = (file_descriptors s)[i := fd]" by (simp add: fds1 put_obj_def)
  have objs3: "objs ?s3 = (objs s)(fd \<mapsto> Obj_fd ?x)" by (simp add: 1(7) put_obj_def)
  have "machine_ok ?s2" using growsD(1) [OF 1(3)] 1(5) by (auto simp: machine_ok_def)
  then have ok3: "machine_ok ?s3" by (simp add: machine_ok_def kheap_defs)
  have g3: "grows s ?s3" using 1(3) ok3 by (simp add: grows_def kheap_defs put_obj_def)
  have "fd_table_ok ?s3"
    unfolding fd_table_ok_def tab
  proof (intro conjI allI impI)
    fix j assume j: "j < 512" "(file_descriptors s)[i := fd] ! j \<noteq> 0"
    show "\<exists>x. fd_at ?s3 ((file_descriptors s)[i := fd] ! j) = Some x \<and> fd_index x = int j + 1"
    proof (cases "j = i")
      case True
      then show ?thesis using len i(1) by (simp add: fd_at_def objs3)
    next
      case False
      then have "file_descriptors s ! j \<noteq> 0" using j(2) by simp
      from fd_table_okD [OF fds j(1) refl this] obtain x
        where x: "objs s (file_descriptors s ! j) = Some (Obj_fd x)" "fd_index x = int j + 1" by blast
      then have "file_descriptors s ! j \<noteq> fd" using 1(6) by auto
      then show ?thesis using x False by (simp add: fd_at_def objs3)
    qed
  qed (simp add: len)
  moreover have "klive ?s3 = (klive s)(fd \<mapsto> 1)" using 1(5) by (simp add: kheap_defs put_obj_def)
  moreover have "kroom s = kroom ?s3 + 1" using 1(9) by (simp add: kroom_def put_obj_def)
  ultimately show ?thesis using run 1(2,4) ok3 tab objs3 g3 by blast
qed

lemma release_fd:
  assumes ok: "machine_ok s" and fds: "fd_table_ok s" and i: "i < 512" "file_descriptors s ! i = fd" "fd \<noteq> 0"
  shows "\<exists>s'. release_file_descriptor fd s = Some (0, s') \<and> machine_ok s' \<and> fd_table_ok s' \<and>
    klive s' = (klive s)(fd := None) \<and> objs s' = (objs s)(fd := None) \<and> file_descriptors s' = (file_descriptors s)[i := 0]"
proof -
  obtain x where x: "objs s fd = Some (Obj_fd x)" "fd_index x = int i + 1" using fd_table_okD [OF fds i] by blast
  have "klive s fd \<noteq> None" using x(1) ok by (auto simp: machine_ok_def)
  then obtain k where k: "klive s fd = Some k" by auto
  let ?s = "s\<lparr>file_descriptors := (file_descriptors s)[i := 0]\<rparr>"
  have ok1: "machine_ok ?s" "klive ?s fd = Some k" using ok k by (simp_all add: machine_ok_def kheap_defs)
  obtain s' where s': "kfree ?s fd = Some s'" "machine_ok s'" "klive s' = (klive ?s)(fd := None)"
    using kfree_machine_ok [OF ok1] by blast
  have frame: "objs s' = (objs s)(fd := None)" "file_descriptors s' = (file_descriptors s)[i := 0]"
    using kfree_frame [OF s'(1)] more_fs [of s' ?s] by simp_all
  have len: "length (file_descriptors s) = 512" using fds by (simp add: fd_table_ok_def)
  have "fd_table_ok s'"
    unfolding fd_table_ok_def frame
  proof (intro conjI allI impI)
    fix j assume j: "j < 512" "(file_descriptors s)[i := 0] ! j \<noteq> 0"
    have "j \<noteq> i" using j(2) len i(1) by (auto simp: nth_list_update_eq)
    then have ji: "j \<noteq> i" "file_descriptors s ! j \<noteq> 0" using j(2) by simp_all
    from fd_table_okD [OF fds j(1) refl ji(2)] obtain y
      where y: "objs s (file_descriptors s ! j) = Some (Obj_fd y)" "fd_index y = int j + 1" by blast
    moreover have "file_descriptors s ! j \<noteq> fd" using x y ji(1) by auto
    ultimately show "\<exists>x. fd_at s' ((file_descriptors s)[i := 0] ! j) = Some x \<and> fd_index x = int j + 1"
      using ji(1) by (simp add: fd_at_def frame(1))
  qed (simp add: len)
  moreover have "klive s' = (klive s)(fd := None)" using s'(3) by (simp add: kheap_defs)
  moreover have "release_file_descriptor fd s = Some (0, s')"
    using x s'(1) i(1) by (simp add: release_file_descriptor_def fd_at_def MAX_FILE_DESCRIPTORS_def nat_add_distrib)
  ultimately show ?thesis using s'(2) frame by blast
qed

section \<open>Paths leave the rest of the machine alone\<close>

lemma prefix_path_more:
  "get_and_remove_prefix_path p s = Some (q, p', s') \<Longrightarrow> machine.more s' = machine.more s"
proof -
  have "case y of (q, p', s') \<Rightarrow> machine.more s' = machine.more s" if "get_and_remove_prefix_path p s = Some y" for p s y
  proof (rule get_and_remove_prefix_path.raw_induct [OF _ that], goal_cases)
    case (1 f p s y)
    show ?case using 1(2)
      by (auto elim!: bind_SomeE simp: Let_def split: prod.split_asm if_split_asm dest!: 1(1) kzalloc_more)
  qed
  then show "get_and_remove_prefix_path p s = Some (q, p', s') \<Longrightarrow> machine.more s' = machine.more s" by blast
qed

lemma kzalloc_obj_more: "kzalloc_obj s n x = (p, s') \<Longrightarrow> machine.more s' = machine.more s"
  by (auto simp: kzalloc_obj_def split: prod.split_asm if_split_asm dest: kzalloc_more)

lemma parse_one_more: "parse_one_path_part p s = Some (q, p', s') \<Longrightarrow> machine.more s' = machine.more s"
  by (auto simp: parse_one_path_part_def elim!: bind_SomeE simp: Let_def split: prod.split_asm if_split_asm
    dest!: prefix_path_more kzalloc_obj_more)

lemma parse_parts_more: "parse_parts p t s = Some s' \<Longrightarrow> machine.more s' = machine.more s"
proof (rule parse_parts.raw_induct [where P = "\<lambda>p t s s'. machine.more s' = machine.more s"], goal_cases)
  case (1 f p t s y)
  show ?case using 1(3)
    by (auto elim!: bind_SomeE simp: Let_def split: prod.split_asm if_split_asm dest!: 1(2) parse_one_more)
qed

lemma path_parse_more: "path_parse p s = Some (r, s') \<Longrightarrow> machine.more s' = machine.more s"
  by (auto simp: path_parse_def elim!: bind_SomeE simp: Let_def split: prod.split_asm if_split_asm
    dest!: parse_one_more parse_parts_more)

section \<open>The drivers behind the file layer\<close>

text \<open>
  What the file layer needs of the functions behind a \<open>struct filesystem\<close>: they leave its tables
  alone. Its calls then change the descriptor table in one place each, whatever the driver.
\<close>

definition keeps_tables :: "'a fs_machine_scheme \<Rightarrow> 'a fs_machine_scheme \<Rightarrow> bool" where
  "keeps_tables s s' \<longleftrightarrow> file_descriptors s' = file_descriptors s \<and> filesystems s' = filesystems s"

lemma keeps_tables_refl: "keeps_tables s s"
  by (simp add: keeps_tables_def)

lemma keeps_tables_trans: "keeps_tables s s1 \<Longrightarrow> keeps_tables s1 s2 \<Longrightarrow> keeps_tables s s2"
  by (simp add: keeps_tables_def)

lemma more_keeps_tables: "machine.more s' = machine.more s \<Longrightarrow> keeps_tables s s'" for s s' :: "'a fs_machine_scheme"
  by (drule more_fs) (simp add: keeps_tables_def)

lemma klog_at_more: "klog_at p s = Some s' \<Longrightarrow> machine.more s' = machine.more s"
  by (auto simp: klog_at_def elim!: bind_SomeE)

lemma klog_number_more: "klog_number x s = Some s' \<Longrightarrow> machine.more s' = machine.more s"
  by (auto simp: klog_number_def elim!: bind_SomeE)

lemma klog_more [simp]: "machine.more (klog t s) = machine.more s"
  by (simp add: klog_def)

lemma make_fd_cases:
  assumes "make_new_file_descriptor s = Some (res, fd, s')"
  obtains (full) "res = - ENOMEM" "s' = s" "\<And>i. i < 512 \<Longrightarrow> file_descriptors s ! i \<noteq> 0"
  | (slot) i x where "res = 0" "i < 512" "file_descriptors s ! i = 0" "\<And>j. j < i \<Longrightarrow> file_descriptors s ! j \<noteq> 0"
      "file_descriptors s' = (file_descriptors s)[i := fd]" "filesystems s' = filesystems s"
      "fd_at s' fd = Some x" "fd_index x = int i + 1"
proof (cases "List.find (\<lambda>i. file_descriptors s ! i = 0) [0..<MAX_FILE_DESCRIPTORS]")
  case None
  have "make_new_file_descriptor s = Some (- ENOMEM, 0, s)"
    using None by (simp add: make_new_file_descriptor_def)
  moreover have "\<forall>i < 512. file_descriptors s ! i \<noteq> 0"
    using None by (auto simp: find_None_iff MAX_FILE_DESCRIPTORS_def)
  ultimately show ?thesis using assms full by simp
next
  case (Some i)
  then have i: "i < 512" "file_descriptors s ! i = 0" "\<And>j. j < i \<Longrightarrow> file_descriptors s ! j \<noteq> 0"
    by (auto simp: find_Some_iff MAX_FILE_DESCRIPTORS_def)
  obtain p s1 where a: "kzalloc_obj s 16 (Obj_fd \<lparr>fd_index = 0, fd_fs = 0, fd_disk = 0, fd_p = 0\<rparr>) = (p, s1)" by fastforce
  obtain x where x: "fd_at s1 p = Some x"
    using assms Some a by (auto simp: make_new_file_descriptor_def elim!: bind_SomeE)
  let ?s2 = "put_obj p (Obj_fd (x\<lparr>fd_index := int i + 1\<rparr>)) s1"
  have "res = 0" "fd = p" "s' = ?s2\<lparr>file_descriptors := (file_descriptors ?s2)[i := fd]\<rparr>"
    using assms Some a x by (auto simp: make_new_file_descriptor_def Let_def)
  moreover have "file_descriptors ?s2 = file_descriptors s" "filesystems ?s2 = filesystems s"
    using more_fs [of ?s2 s] kzalloc_obj_more [OF a] by simp_all
  ultimately show ?thesis
    using slot [of i "x\<lparr>fd_index := int i + 1\<rparr>"] i by (simp add: fd_at_iff)
qed

text \<open>What \<open>fopen\<close> does to the tables.\<close>

definition open_effect :: "'a fs_machine_scheme \<Rightarrow> int \<Rightarrow> 'a fs_machine_scheme \<Rightarrow> bool" where
  "open_effect s res s' \<longleftrightarrow> res < 0 \<and> keeps_tables s s' \<or>
    (\<exists>i fd. i < 512 \<and> res = int i + 1 \<and> file_descriptors s ! i = 0 \<and> (\<forall>j < i. file_descriptors s ! j \<noteq> 0) \<and>
       file_descriptors s' = (file_descriptors s)[i := fd] \<and> filesystems s' = filesystems s)"

lemma open_effect_none: "keeps_tables s s' \<Longrightarrow> res < 0 \<Longrightarrow> open_effect s res s'"
  by (simp add: open_effect_def)

lemma open_effect_after: "open_effect s1 res s' \<Longrightarrow> keeps_tables s s1 \<Longrightarrow> open_effect s res s'"
  by (auto simp: open_effect_def keeps_tables_def)

lemma klog_keeps: "keeps_tables (klog t s) s' \<longleftrightarrow> keeps_tables s s'"
  by (simp add: keeps_tables_def klog_def)

lemma bit_word_uint: "bit p n \<longleftrightarrow> odd (uint p div 2 ^ n)" for p :: u32
proof -
  have "bit (uint p) n \<longleftrightarrow> odd (uint p div 2 ^ n)" by (rule bit_iff_odd)
  moreover have "bit (uint p) n \<longleftrightarrow> bit p n" by (auto simp: bit_unsigned_iff dest: bit_imp_le_length)
  ultimately show ?thesis by simp
qed

lemma IS_ERR_negative: "IS_ERR p \<Longrightarrow> PTR_ERR p < 0"
proof -
  assume "IS_ERR p"
  then have "uint (0xFFFFF001 :: u32) \<le> uint p"
    by (simp add: IS_ERR_def IS_ERR_VALUE_def MAX_ERRNO_def word_le_def)
  then have big: "2 ^ 31 \<le> uint p" by simp
  have small: "uint p < 2 ^ 32" using unsigned_less [of p] by simp
  have "uint p div 2 ^ 31 = 1" using big small by simp
  then have "bit p (LENGTH(32) - Suc 0)" by (simp add: bit_word_uint)
  then show ?thesis unfolding PTR_ERR_def by (simp only: bit_last_iff)
qed

lemma make_fd_error: "make_new_file_descriptor s = Some (res, fd, s') \<Longrightarrow> res < 0 \<Longrightarrow> s' = s"
  by (erule make_fd_cases) simp_all

lemma open_effect_make_error:
  "make_new_file_descriptor s1 = Some (res, fd, s') \<Longrightarrow> res < 0 \<Longrightarrow> keeps_tables s s1 \<Longrightarrow> open_effect s res s'"
  by (frule make_fd_error, assumption) (simp add: open_effect_none)

lemma open_effect_make:
  assumes "make_new_file_descriptor s = Some (res, fd, s1)" and "\<not> res < 0" and "fd_at s1 fd = Some x"
  shows "open_effect s (fd_index x) (put_obj fd y s1)"
  using assms(1)
proof (cases rule: make_fd_cases)
  case full
  then show ?thesis using assms(2) by (simp add: ENOMEM_def)
next
  case (slot i y)
  then show ?thesis using assms(3) by (auto simp: open_effect_def put_obj_def)
qed

locale fs_drivers =
  fixes fss :: "'a fs_machine_scheme fs_table"
  assumes open_keeps: "fss f = Some ops \<Longrightarrow> fs_open_fn ops d path mode s = Some (p, s') \<Longrightarrow> keeps_tables s s'"
    and read_keeps: "fss f = Some ops \<Longrightarrow> fs_read_fn ops d q size_bytes nmemb out s = Some (r, s') \<Longrightarrow> keeps_tables s s'"
    and seek_keeps: "fss f = Some ops \<Longrightarrow> fs_seek_fn ops q off mode s = Some (r, s') \<Longrightarrow> keeps_tables s s'"
    and stat_keeps: "fss f = Some ops \<Longrightarrow> fs_stat_fn ops d q stat s = Some (r, s') \<Longrightarrow> keeps_tables s s'"
    and close_keeps: "fss f = Some ops \<Longrightarrow> fs_close_fn ops q s = Some (r, s') \<Longrightarrow> keeps_tables s s'"
    and close_removes: "fss f = Some ops \<Longrightarrow> fs_close_fn ops q s = Some (r, s') \<Longrightarrow> objs s' \<subseteq>\<^sub>m objs s"
begin

lemma fread_keeps: "fread fss fd ptr size_bytes nmemb s = Some (r, s') \<Longrightarrow> keeps_tables s s'"
  by (auto simp: fread_def fd_ops_def Let_def keeps_tables_refl elim!: bind_SomeE split: if_split_asm dest: read_keeps)

lemma fseek_keeps: "fseek fss fd off whence s = Some (r, s') \<Longrightarrow> keeps_tables s s'"
  by (auto simp: fseek_def fd_ops_def Let_def keeps_tables_refl elim!: bind_SomeE split: if_split_asm dest: seek_keeps)

lemma fstat_keeps: "fstat fss fd stat s = Some (r, s') \<Longrightarrow> keeps_tables s s'"
  by (auto simp: fstat_def fd_ops_def Let_def keeps_tables_refl elim!: bind_SomeE split: if_split_asm dest: stat_keeps)

text \<open>Opening takes the first free slot, or none when it fails.\<close>

lemma fopen_res_effect:
  assumes "fopen_res fss name mode s = Some (res, s')"
  shows "open_effect s res s'"
proof -
  note keeps = path_parse_more [THEN more_keeps_tables] klog_at_more [THEN more_keeps_tables]
    klog_number_more [THEN more_keeps_tables]
  show ?thesis using assms
    apply (auto simp: fopen_res_def elim!: bind_SomeE simp: Let_def split: prod.split_asm if_split_asm
      dest!: keeps open_keeps IS_ERR_negative simp: EIO_def EINVAL_def)
    apply (simp_all only: klog_keeps)
    subgoal by (rule open_effect_none) simp_all
    subgoal by (rule open_effect_none) simp_all
    subgoal by (rule open_effect_none) simp_all
    subgoal by (rule open_effect_none) simp_all
    subgoal by (rule open_effect_none) (simp_all add: keeps_tables_def klog_def)
    subgoal by (erule open_effect_make_error) (simp_all add: keeps_tables_def klog_def)
    subgoal by (rule open_effect_after, erule (2) open_effect_make) (simp add: keeps_tables_def klog_def)
    done
qed

lemma fopen_effect:
  assumes "fopen fss name mode s = Some (fd, s')"
  shows "fd = 0 \<and> keeps_tables s s' \<or> 0 < fd \<and> open_effect s fd s'"
proof -
  obtain r where r: "fopen_res fss name mode s = Some (r, s')" "fd = (if r < 0 then 0 else r)"
    using assms by (auto simp: fopen_def elim!: bind_SomeE)
  from r(1) have "open_effect s r s'" by (rule fopen_res_effect)
  moreover have "open_effect s r s' \<Longrightarrow> r < 0 \<Longrightarrow> keeps_tables s s'" by (auto simp: open_effect_def)
  moreover have "open_effect s r s' \<Longrightarrow> \<not> r < 0 \<Longrightarrow> 0 < r" by (auto simp: open_effect_def)
  ultimately show ?thesis using r(2) by (auto split: if_splits)
qed

text \<open>Closing empties the one slot that the descriptor's index names.\<close>

lemma fclose_effect:
  assumes "fd_table_ok s" and "0 < fd" and "fd < 512" and "file_descriptors s ! nat (fd - 1) \<noteq> 0"
    and "fclose fss fd s = Some (res, s')"
  shows "filesystems s' = filesystems s \<and>
    file_descriptors s' = (if res < 0 then file_descriptors s else (file_descriptors s)[nat (fd - 1) := 0])"
proof -
  let ?d = "file_descriptors s ! nat (fd - 1)"
  obtain x where x: "fd_at s ?d = Some x" "fd_index x = fd"
    using assms(1-4) by (auto simp: fd_table_ok_def dest!: spec [where x = "nat (fd - 1)"])
  obtain ops s1 where ops: "fss (fd_fs x) = Some ops" and close: "fs_close_fn ops (fd_p x) s = Some (res, s1)"
    and rest: "if res < 0 then s' = s1 else (\<exists>r. release_file_descriptor ?d s1 = Some (r, s'))"
    using assms x(1) by (auto simp: fclose_def get_file_descriptor_def MAX_FILE_DESCRIPTORS_def fd_ops_def Let_def
      elim!: bind_SomeE split: if_split_asm)
  have keep: "keeps_tables s s1" using ops close by (rule close_keeps)
  show ?thesis
  proof (cases "res < 0")
    case False
    then obtain r where rel: "release_file_descriptor ?d s1 = Some (r, s')" using rest by auto
    have "fd_at s1 ?d = None \<or> fd_at s1 ?d = Some x"
      using close_removes [OF ops close] x(1)
      by (cases "objs s1 ?d") (auto simp: fd_at_def map_le_def dom_def split: option.splits kobj.splits)
    then have "fd_at s1 ?d = Some x" using rel by (auto simp: release_file_descriptor_def)
    then obtain s2 where "kfree (s1\<lparr>file_descriptors := (file_descriptors s1)[nat (fd - 1) := 0]\<rparr>) ?d = Some s2" "s' = s2"
      using rel x(2) by (auto simp: release_file_descriptor_def elim!: bind_SomeE split: if_split_asm)
    then show ?thesis using False keep by (auto simp: keeps_tables_def dest!: kfree_frame more_fs)
  qed (use keep rest in \<open>simp add: keeps_tables_def\<close>)
qed

end

section \<open>The FAT16 driver\<close>

lemma kfree_removes: "kfree s p = Some s' \<Longrightarrow> objs s' \<subseteq>\<^sub>m objs s"
  by (drule kfree_frame) (auto simp: map_le_def)

lemma fat16_close_removes: "fat16_close q s = Some (r, s') \<Longrightarrow> objs s' \<subseteq>\<^sub>m objs s"
  by (auto simp: fat16_close_def fat16_free_file_descriptor_def fat16_fat_item_free_def fat16_free_directory_def
    elim!: bind_SomeE split: if_split_asm dest!: kfree_removes; meson map_le_trans)

lemma same_vfs_keeps: "same_vfs s s' \<Longrightarrow> keeps_tables s s'" for s s' :: "'a fs_machine_scheme"
  by (cases s; cases s') (simp add: same_vfs_def keeps_tables_def)

lemma fat16_close_keeps: "fat16_close q s = Some (r, s') \<Longrightarrow> keeps_tables s s'"
  by (rule same_vfs_keeps) (rule outside.fat16_close_frame)

definition kernel_filesystems :: "device \<Rightarrow> u32 \<Rightarrow> 'a fs_machine_scheme fs_table" where
  "kernel_filesystems dev a = (\<lambda>p. if p = a then Some (fat16_ops dev) else None)"

interpretation kernel_fs: fs_drivers "kernel_filesystems dev a"
  by unfold_locales
    (auto simp: kernel_filesystems_def fat16_ops_def split: if_split_asm
      dest!: outside.fat16_open_frame outside.fat16_read_frame outside.fat16_seek_frame outside.fat16_stat_frame
      intro: same_vfs_keeps fat16_close_keeps fat16_close_removes)

end
