(* ===== verification/Vfs_Open.thy ===== *)
theory Vfs_Open
  imports Vfs_Correct Fat16_Lookup Path_Properties
begin

text \<open>
  \<open>fopen\<close> from the path string to the descriptor: the path parser, the FAT16 driver and the
  descriptor table together, for a file in the root directory of the mounted disk.
\<close>

section \<open>What has to be there\<close>

text \<open>Entry \<open>j\<close> of the root directory in memory is the only one with the name \<open>nm\<close>, and a file.\<close>

definition root_entry :: "'a disk_machine_scheme \<Rightarrow> fat_private_data \<Rightarrow> nat \<Rightarrow> nat \<Rightarrow> u8 list \<Rightarrow> bool" where
  "root_entry s pr n j nm \<longleftrightarrow> dir_total (root_dir pr) = int n \<and> n < 2 ^ 16 \<and> j < n \<and>
     addrs (dir_item (root_dir pr)) (32 * n) \<inter> (tmp_range s \<union> kvacant s) = {} \<and> tmp_range s \<inter> kvacant s = {} \<and>
     (\<forall>i < n. entry_matches (mem s) (dir_item (root_dir pr) + 32 * of_nat i) nm \<longleftrightarrow> i = j) \<and>
     i_attribute (mem s) (dir_item (root_dir pr) + 32 * of_nat j) AND FAT_FILE_SUBDIRECTORY = 0"

text \<open>A string in memory that the heap does not hand out.\<close>

definition kept_str :: "'a machine_scheme \<Rightarrow> u32 \<Rightarrow> u8 list \<Rightarrow> bool" where
  "kept_str s p cs \<longleftrightarrow> str_at (mem s) p cs \<and> length cs < 4096 \<and> addrs p (Suc (length cs)) \<inter> kvacant s = {}"

lemma kept_str_grows: "kept_str s p cs \<Longrightarrow> grows s s' \<Longrightarrow> str_at (mem s') p cs"
  using str_at_frame [of cs p "mem s" "mem s'"] growsD(4) [of s s' "addrs p (Suc (length cs))"]
  by (auto simp: kept_str_def)

lemma path_kept_str: "path_str s p cs \<Longrightarrow> kept_str s p cs"
  by (simp add: path_str_def kept_str_def)

text \<open>The mounted disk that \<open>fopen\<close> asks for, and the mode string.\<close>

definition fopen_ready :: "'a fs_machine_scheme \<Rightarrow> u32 \<Rightarrow> u32 \<Rightarrow> bool" where
  "fopen_ready s a mode \<longleftrightarrow> machine_ok s \<and> fd_table_ok s \<and> disk_address s \<noteq> 0 \<and> disk_fs (disk_var s) = a \<and> a \<noteq> 0 \<and>
     0 \<le> disk_id (disk_var s) \<and> disk_id (disk_var s) < 2 ^ 31 \<and> (\<exists>label. kept_str s a label) \<and>
     mem s mode = 0x72 \<and> mode \<notin> kvacant s"

section \<open>The steps\<close>

lemma fd_table_frame:
  assumes "fd_table_ok s" and "file_descriptors s' = file_descriptors s" and "\<And>p. objs s p \<noteq> None \<Longrightarrow> objs s' p = objs s p"
  shows "fd_table_ok s'"
proof -
  have "fd_at s' p = Some x" if "fd_at s p = Some x" for p x
    using that assms(3) [of p] by (simp add: fd_at_iff)
  then show ?thesis using assms(1) unfolding fd_table_ok_def assms(2) by blast
qed

lemma root_entry_lookup:
  assumes e: "root_entry s pr n j nm" and g: "grows s s'" and more: "machine.more s' = machine.more s"
    and q: "klive s' q = Some 1" "addrs q 4096 \<subseteq> kvacant s" "str_at (mem s') q nm" "length nm < 4096"
  shows "lookup_ok s' (dir_item (root_dir pr)) n q nm" and "i < n \<Longrightarrow>
    bytes_at (mem s') (dir_item (root_dir pr) + 32 * of_nat i) 32 = bytes_at (mem s) (dir_item (root_dir pr) + 32 * of_nat i) 32"
proof -
  have tmp: "tmp_filename s' = tmp_filename s" using more_disk [OF more] by simp
  have ok: "machine_ok s'" by (rule growsD(1) [OF g])
  have sub: "addrs q (Suc (length nm)) \<subseteq> addrs q 4096" using q(4) by (intro addrs_mono) simp
  have "addrs q (4096 * 1) \<inter> kvacant s' = {}" by (rule kz.live_vacant [OF machine_okD [OF ok] q(1)])
  then have apart: "addrs q (Suc (length nm)) \<inter> (tmp_range s' \<union> kvacant s') = {}"
    using sub q(2) e by (auto simp: root_entry_def tmp)
  have vac: "kvacant s' \<subseteq> kvacant s" using g by (simp add: grows_def)
  show "lookup_ok s' (dir_item (root_dir pr)) n q nm"
    using e vac ok apart q(3,4) by (auto simp: lookup_ok_def root_entry_def tmp)
  assume i: "i < n"
  have range: "addrs (dir_item (root_dir pr) + 32 * of_nat i) 32 \<inter> kvacant s = {}"
    using addrs_item [OF i, of "dir_item (root_dir pr)"] e by (auto simp: root_entry_def)
  show "bytes_at (mem s') (dir_item (root_dir pr) + 32 * of_nat i) 32 = bytes_at (mem s) (dir_item (root_dir pr) + 32 * of_nat i) 32"
    by (rule bytes_at_cong) (use growsD(4) [OF g range] in auto)
qed

lemma klog_number_returns: "0 \<le> v \<Longrightarrow> v < 2 ^ 31 \<Longrightarrow> \<exists>c. klog_number v s = Some (s\<lparr>con := c\<rparr>)"
  using itoa_str_at [of 10 v 0 "\<lambda>_. 0"] by (auto simp: klog_number_def print_number_def print_def strlen_str)

text \<open>A block address is never an error code: the error codes are not page aligned.\<close>

lemma live_not_error:
  assumes "kheap_ok s" and "klive s p \<noteq> None"
  shows "\<not> IS_ERR p"
proof
  assume "IS_ERR p"
  then have "unat (0xFFFFF001 :: u32) \<le> unat p"
    by (simp add: IS_ERR_def IS_ERR_VALUE_def MAX_ERRNO_def word_le_nat_alt)
  then have "0xFFFFF001 \<le> unat p" by simp
  moreover obtain k where "klive s p = Some k" using assms(2) by blast
  then have "1 \<le> k" "unat p + 4096 * k \<le> 2 ^ 32"
    using live_block_facts [of "g_kernel_heap s" p k] assms(1) by (simp_all add: kheap_defs)
  ultimately show False by simp
qed

text \<open>The file is opened in the driver from the parsed path.\<close>

lemma open_parsed_path:
  assumes e: "root_entry s pr n j nm" and g: "grows s s'" and more: "machine.more s' = machine.more s" and ok: "machine_ok s"
    and pr: "disk_private s d = Some (private, pr)" and room: "3 \<le> kroom s'"
    and node: "part_node s' root q 0 nm" "addrs q 4096 \<subseteq> kvacant s"
    and same: "\<And>r. objs s r \<noteq> None \<Longrightarrow> objs s' r = objs s r"
  shows "\<exists>p i c t. fat16_open dev d root FILE_MODE_READ (s'\<lparr>con := co\<rparr>) = Some (p, t) \<and> \<not> IS_ERR p \<and>
    ffd_at t p = Some \<lparr>fat_fd_item = i, fat_fd_pos = 0\<rparr> \<and>
    file_item_at t i c (bytes_at (mem s) (dir_item (root_dir pr) + 32 * of_nat j) 32) \<and> machine_ok t \<and>
    kroom s' = kroom t + 3 \<and> (\<forall>r. objs s' r \<noteq> None \<longrightarrow> objs t r = objs s' r) \<and>
    lookup_step s' t \<and> addrs c 32 \<subseteq> kvacant s \<and> (\<forall>r k. klive s' r = Some k \<longrightarrow> klive t r = Some k) \<and>
    klive t p = Some 1 \<and> distinct [p, i, c] \<and> klive s' p = None \<and> klive s' i = None \<and> klive s' c = None"
proof -
  let ?s = "s'\<lparr>con := co\<rparr>" and ?items = "dir_item (root_dir pr)"
  have q: "klive s' q = Some 1" "str_at (mem s') q nm" "length nm < 4096" using node(1) by (simp_all add: part_node_def)
  note look = root_entry_lookup [OF e g more q(1) node(2) q(2,3)]
  have ok1: "lookup_ok ?s ?items n q nm" using look(1) by (simp add: lookup_ok_def machine_ok_def)
  have n: "j < n" "dir_total (root_dir pr) = int n" using e by (simp_all add: root_entry_def)
  have match: "entry_matches (mem ?s) (?items + 32 * of_nat i) nm \<longleftrightarrow> i = j" if "i < n" for i
    using e that entry_matches_bytes [OF look(2) [OF that], of nm] by (simp add: root_entry_def)
  have attr: "i_attribute (mem ?s) (?items + 32 * of_nat j) AND FAT_FILE_SUBDIRECTORY = 0"
    using e arg_cong [OF look(2) [OF n(1)], of "\<lambda>b. b ! 11"] by (simp add: root_entry_def i_attribute_def)
  have pr1: "disk_private ?s d = Some (private, pr)"
    using pr more_disk [OF more] same
    by (auto simp: disk_private_def disk_at_def private_at_def bind_eq_Some_conv split: if_splits option.splits)
  have path: "part_at ?s root = Some \<lparr>part = q, next_part = 0\<rparr>" using node(1) by (simp add: part_at_def part_node_def)
  have live: "klive ?s r \<noteq> None" if "objs s' r \<noteq> None" for r
    using that object_live [OF growsD(1) [OF g]] by auto
  obtain p i c t where o: "fat16_open dev d root FILE_MODE_READ ?s = Some (p, t)" "p \<noteq> 0" "klive ?s p = None"
    "ffd_at t p = Some \<lparr>fat_fd_item = i, fat_fd_pos = 0\<rparr>" "file_item_at t i c (bytes_at (mem ?s) (?items + 32 * of_nat j) 32)"
    "lookup_step ?s t" "\<forall>r. r \<noteq> p \<and> r \<noteq> i \<longrightarrow> objs t r = objs ?s r" "kroom ?s = kroom t + 3" "klive ?s i = None"
    "klive t = (klive ?s)(p \<mapsto> 1, i \<mapsto> 1, c \<mapsto> 1)" "klive ?s c = None" "addrs c 32 \<subseteq> kvacant ?s" "distinct [p, i, c]"
    using open_root_file [OF ok1 n(2) _ pr1 path n(1) _ attr, of dev] match [OF n(1)] match room by auto
  have "objs t r = objs s' r" if "objs s' r \<noteq> None" for r
    using o(3,7,9) live [OF that] by (metis machine.select_convs(4) machine.surjective machine.update_convs(2))
  moreover have "bytes_at (mem ?s) (?items + 32 * of_nat j) 32 = bytes_at (mem s) (?items + 32 * of_nat j) 32"
    using look(2) [OF n(1)] by simp
  moreover have "machine_ok t" using o(6) by (simp add: lookup_step_def)
  moreover have "klive t p \<noteq> None" using object_live [OF \<open>machine_ok t\<close>, of p] o(4) by (cases "objs t p") (auto simp: ffd_at_def)
  moreover have "lookup_step s' t" using o(6) by (simp add: lookup_step_def)
  moreover have "\<forall>r k. klive s' r = Some k \<longrightarrow> klive t r = Some k" using o(3,9,10,11) by auto
  moreover have "addrs c 32 \<subseteq> kvacant s" using o(12) g by (auto simp: grows_def)
  moreover have "klive t p = Some 1" "klive s' p = None" "klive s' i = None" "klive s' c = None" using o(3,9-11) by simp_all
  ultimately show ?thesis using o(1,4,5,8,13) live_not_error [of t p] by (intro exI conjI) (assumption | simp add: machine_okD)+
qed

text \<open>The new descriptor is filled in.\<close>

lemma fill_descriptor:
  assumes ok: "machine_ok t" and fds: "fd_table_ok t" and room: "0 < kroom t"
    and i: "i < 512" "file_descriptors t ! i = 0" "\<forall>k < i. file_descriptors t ! k \<noteq> 0"
    and ffd: "ffd_at t p = Some f" and item: "file_item_at t it c bs"
  shows "\<exists>fd x s1 s'. make_new_file_descriptor t = Some (0, fd, s1) \<and> fd_at s1 fd = Some x \<and> fd_index x = int i + 1 \<and>
    s' = put_obj fd (Obj_fd (x\<lparr>fd_fs := a, fd_p := p, fd_disk := d\<rparr>)) s1 \<and> machine_ok s' \<and> fd_table_ok s' \<and>
    file_descriptors s' = (file_descriptors t)[i := fd] \<and> fd \<noteq> 0 \<and>
    fd_at s' fd = Some \<lparr>fd_index = int i + 1, fd_fs = a, fd_disk = d, fd_p = p\<rparr> \<and> ffd_at s' p = Some f \<and>
    file_item_at s' it c bs \<and> grows t s' \<and> kroom t = kroom s' + 1 \<and> (\<forall>q. objs t q \<noteq> None \<longrightarrow> objs s' q = objs t q) \<and>
    klive s' fd = Some 1 \<and> klive t fd = None"
proof -
  let ?x = "\<lparr>fd_index = int i + 1, fd_fs = 0, fd_disk = 0, fd_p = 0\<rparr>"
  obtain fd s1 where 1: "make_new_file_descriptor t = Some (0, fd, s1)" "fd \<noteq> 0" "machine_ok s1" "fd_table_ok s1"
    "klive t fd = None" "klive s1 = (klive t)(fd \<mapsto> 1)" "file_descriptors s1 = (file_descriptors t)[i := fd]" "grows t s1"
    "objs s1 = (objs t)(fd \<mapsto> Obj_fd ?x)" "kroom t = kroom s1 + 1"
    using make_fd_slot [OF ok fds room i] by auto
  let ?y = "\<lparr>fd_index = int i + 1, fd_fs = a, fd_disk = d, fd_p = p\<rparr>"
  let ?s = "put_obj fd (Obj_fd ?y) s1"
  have len: "length (file_descriptors t) = 512" using fds by (simp add: fd_table_ok_def)
  have other: "objs ?s q = objs t q" if "objs t q \<noteq> None" for q
    using that object_live [OF ok, of q] 1(5) by (auto simp: 1(9))
  have "fd_table_ok ?s"
    unfolding fd_table_ok_def
  proof (intro conjI allI impI)
    fix k assume k: "k < 512" "file_descriptors ?s ! k \<noteq> 0"
    then obtain x where x: "objs s1 (file_descriptors s1 ! k) = Some (Obj_fd x)" "fd_index x = int k + 1"
      using fd_table_okD [OF 1(4) k(1) refl] by (auto simp: put_obj_def)
    show "\<exists>x. fd_at ?s (file_descriptors ?s ! k) = Some x \<and> fd_index x = int k + 1"
      using x 1(9) by (cases "file_descriptors s1 ! k = fd") (auto simp: fd_at_iff put_obj_def)
  qed (simp add: put_obj_def 1(7) len)
  moreover have "machine_ok ?s" using 1(3) by (auto simp: machine_ok_def 1(6))
  moreover have "ffd_at ?s p = Some f"
  proof -
    have "objs t p \<noteq> None" using ffd by (cases "objs t p") (simp_all add: ffd_at_def)
    then have "objs ?s p = objs t p" by (rule other)
    then show ?thesis using ffd by (simp only: ffd_at_def)
  qed
  moreover have "file_item_at ?s it c bs"
  proof -
    have live: "klive t c = Some 1" using item by (simp add: file_item_at_def)
    have "addrs c (4096 * 1) \<inter> kvacant t = {}" by (rule kz.live_vacant [OF machine_okD [OF ok] live])
    moreover have "addrs c 32 \<subseteq> addrs c (4096 * 1)" by (rule addrs_mono) simp
    ultimately have "addrs c 32 \<inter> kvacant t = {}" by blast
    then have "bytes_at (mem s1) c 32 = bytes_at (mem t) c 32"
      by (intro bytes_at_cong) (use growsD(4) [OF 1(8)] in auto)
    moreover have "item_at ?s it = item_at t it"
    proof -
      have "objs t it \<noteq> None" using item by (cases "objs t it") (simp_all add: file_item_at_def item_at_def)
      then have "objs ?s it = objs t it" by (rule other)
      then show ?thesis by (simp only: item_at_def)
    qed
    ultimately show ?thesis using item 1(5,6) by (auto simp: file_item_at_def)
  qed
  moreover have "grows t ?s" using 1(8) calculation(2) by (simp add: grows_def)
  moreover have "kroom t = kroom ?s + 1" using 1(10) by simp
  moreover have "klive ?s fd = Some 1" using 1(6) by simp
  ultimately show ?thesis
    using 1(1,2,5,7,9) other by (intro exI [of _ fd] exI [of _ ?x] exI [of _ s1] exI [of _ ?s]) (simp add: fd_at_def put_obj_def)
qed

lemma make_fd_disk:
  "make_new_file_descriptor s = Some (r, fd, s') \<Longrightarrow> disk_var s' = disk_var s \<and> disk_address s' = disk_address s"
  by (auto simp: make_new_file_descriptor_def put_obj_def elim!: bind_SomeE split: option.split_asm prod.split_asm
    dest!: kzalloc_obj_more more_fs)

lemma make_fd_tmp: "make_new_file_descriptor s = Some (r, fd, s') \<Longrightarrow> tmp_filename s' = tmp_filename s"
  by (auto simp: make_new_file_descriptor_def put_obj_def elim!: bind_SomeE split: option.split_asm prod.split_asm
    dest!: kzalloc_obj_more more_disk)

section \<open>The call\<close>

lemma fopen_logs:
  assumes "str_at (mem s) file_name l" and "str_at (mem s) a l'" and "0 \<le> v" "v < 2 ^ 31"
  shows "\<exists>c s1 s2 s3. klog_at file_name (klog t1 s) = Some s1 \<and> klog_at a (klog t2 s1) = Some s2 \<and>
    klog_number v (klog t3 s2) = Some s3 \<and> klog t4 s3 = s\<lparr>con := c\<rparr>"
proof -
  obtain c1 where 1: "klog_at file_name (klog t1 s) = Some (s\<lparr>con := c1\<rparr>)"
    using klog_at_returns [of "klog t1 s" file_name l] assms(1) by (auto simp: klog_def)
  obtain c2 where 2: "klog_at a (klog t2 (s\<lparr>con := c1\<rparr>)) = Some (s\<lparr>con := c2\<rparr>)"
    using klog_at_returns [of "klog t2 (s\<lparr>con := c1\<rparr>)" a l'] assms(2) by (auto simp: klog_def)
  obtain c3 where 3: "klog_number v (klog t3 (s\<lparr>con := c2\<rparr>)) = Some (s\<lparr>con := c3\<rparr>)"
    using klog_number_returns [of v "klog t3 (s\<lparr>con := c2\<rparr>)"] assms(3,4) by (auto simp: klog_def)
  show ?thesis using 1 2 3 by (intro exI conjI) (assumption | simp add: klog_def)+
qed

text \<open>
  Opening a file of the root directory for reading: the result is the number of the first free
  descriptor; the descriptor names the filesystem, the disk and a fresh FAT16 descriptor at
  position 0, whose item is a copy of the directory entry.
\<close>

lemma fopen_root:
  assumes ready: "fopen_ready s a mode" and path: "path_str s file_name cs" "path_names cs = [nm]"
    and e: "root_entry s pr n j nm" and pr: "disk_private s (disk_address s) = Some (private, pr)" and room: "6 \<le> kroom s"
    and i: "i < 512" "file_descriptors s ! i = 0" "\<forall>k < i. file_descriptors s ! k \<noteq> 0"
  shows "\<exists>fd p it c s'. fopen (kernel_filesystems dev a) file_name mode s = Some (int i + 1, s') \<and> machine_ok s' \<and>
    fd_table_ok s' \<and> file_descriptors s' = (file_descriptors s)[i := fd] \<and> fd \<noteq> 0 \<and>
    fd_at s' fd = Some \<lparr>fd_index = int i + 1, fd_fs = a, fd_disk = disk_address s, fd_p = p\<rparr> \<and>
    ffd_at s' p = Some \<lparr>fat_fd_item = it, fat_fd_pos = 0\<rparr> \<and>
    file_item_at s' it c (bytes_at (mem s) (dir_item (root_dir pr) + 32 * of_nat j) 32) \<and>
    lookup_step s s' \<and> kroom s = kroom s' + 6 \<and> (\<forall>r. objs s r \<noteq> None \<longrightarrow> objs s' r = objs s r) \<and>
    (\<forall>r k. klive s r = Some k \<longrightarrow> klive s' r = Some k) \<and> addrs c 32 \<subseteq> kvacant s \<and> disk_address s' = disk_address s \<and> disk_var s' = disk_var s \<and>
    klive s' p = Some 1 \<and> klive s' fd = Some 1 \<and> distinct [fd, p, it, c] \<and>
    klive s fd = None \<and> klive s p = None \<and> klive s it = None \<and> klive s c = None"
proof -
  have ok: "machine_ok s" and fds: "fd_table_ok s" and d: "disk_address s \<noteq> 0" "disk_fs (disk_var s) = a" "a \<noteq> 0"
    and id: "0 \<le> disk_id (disk_var s)" "disk_id (disk_var s) < 2 ^ 31" and md: "mem s mode = 0x72" "mode \<notin> kvacant s"
    using ready by (simp_all add: fopen_ready_def)
  obtain label where label: "kept_str s a label" using ready by (auto simp: fopen_ready_def)
  obtain r where r: "cs = 0x2F # r" "names_of r = [nm]" using path(2) by (auto simp: path_names_def split: list.splits if_splits)
  obtain root q bs s1 where 1: "path_parse file_name s = Some (root, s1)" "root \<noteq> 0" "grows s s1"
    "name_parts s1 root [nm] (root # q # bs)" "\<forall>b \<in> set (root # q # bs). klive s b = None"
    "\<forall>r. r \<notin> set (root # q # bs) \<longrightarrow> objs s1 r = objs s r" "machine.more s1 = machine.more s" "addrs q 4096 \<subseteq> kvacant s"
    "kroom s = kroom s1 + 2"
    using path_parse_names [OF ok path(1) [unfolded r(1)] r(2)] room by (auto simp del: name_parts.simps)
  have node: "part_node s1 root q 0 nm" using 1(4) by auto
  have old1: "objs s1 p = objs s p" if p: "objs s p \<noteq> None" for p
  proof -
    have "p \<notin> set (root # q # bs)"
    proof
      assume "p \<in> set (root # q # bs)"
      with 1(5) have "klive s p = None" by (rule bspec)
      then have "objs s p = None" by (rule machine_ok_fresh [OF ok])
      with p show False by contradiction
    qed
    then show ?thesis by (rule 1(6) [rule_format])
  qed
  have mode1: "get_file_mode_by_string (mem s1) mode = FILE_MODE_READ"
    using md growsD(4) [OF 1(3), of "{mode}" mode] by (simp add: get_file_mode_by_string_def)
  note disk1 = more_fs [OF 1(7)]
  have names: "str_at (mem s1) file_name cs" "str_at (mem s1) a label"
    using kept_str_grows [OF path_kept_str [OF path(1)] 1(3)] kept_str_grows [OF label 1(3)] by simp_all
  obtain co l1 l2 l3 where log: "klog_at file_name (klog ''Trying to open: '' s1) = Some l1"
    "klog_at a (klog '' using fs: '' l1) = Some l2" "klog_number (disk_id (disk_var s)) (klog '' of the disk: '' l2) = Some l3"
    "klog ''\<newline>'' l3 = s1\<lparr>con := co\<rparr>"
    using fopen_logs [OF names id] by blast
  obtain p it c t where 2: "fat16_open dev (disk_address s) root FILE_MODE_READ (s1\<lparr>con := co\<rparr>) = Some (p, t)" "\<not> IS_ERR p"
    "ffd_at t p = Some \<lparr>fat_fd_item = it, fat_fd_pos = 0\<rparr>"
    "file_item_at t it c (bytes_at (mem s) (dir_item (root_dir pr) + 32 * of_nat j) 32)" "machine_ok t"
    "kroom s1 = kroom t + 3" "\<forall>r. objs s1 r \<noteq> None \<longrightarrow> objs t r = objs s1 r" "lookup_step s1 t" "addrs c 32 \<subseteq> kvacant s"
    "\<forall>r k. klive s1 r = Some k \<longrightarrow> klive t r = Some k" "klive t p = Some 1" "distinct [p, it, c]"
    "klive s1 p = None" "klive s1 it = None" "klive s1 c = None"
    using open_parsed_path [OF e 1(3) 1(7) ok pr _ node 1(8) old1, of dev co] room 1(9) by fastforce
  have "same_mount (s1\<lparr>con := co\<rparr>) t" by (rule mounted.fat16_open_frame [OF 2(1)])
  then have t: "file_descriptors t = file_descriptors s" "disk_address t = disk_address s" "disk_var t = disk_var s"
    using same_vfs_keeps [of "s1\<lparr>con := co\<rparr>" t] disk1 by (simp_all add: same_mount_def same_vfs_def keeps_tables_def)
  have fdst: "fd_table_ok t" by (rule fd_table_frame [OF fds t(1)]) (use old1 2(7) in auto)
  have roomt: "0 < kroom t" using 1(9) 2(6) room by simp
  obtain fd x s2 s3 where 3: "make_new_file_descriptor t = Some (0, fd, s2)" "fd_at s2 fd = Some x" "fd_index x = int i + 1"
    "s3 = put_obj fd (Obj_fd (x\<lparr>fd_fs := a, fd_p := p, fd_disk := disk_address s\<rparr>)) s2" "machine_ok s3" "fd_table_ok s3"
    "file_descriptors s3 = (file_descriptors s)[i := fd]" "fd \<noteq> 0"
    "fd_at s3 fd = Some \<lparr>fd_index = int i + 1, fd_fs = a, fd_disk = disk_address s, fd_p = p\<rparr>"
    "ffd_at s3 p = Some \<lparr>fat_fd_item = it, fat_fd_pos = 0\<rparr>"
    "file_item_at s3 it c (bytes_at (mem s) (dir_item (root_dir pr) + 32 * of_nat j) 32)" "grows t s3" "kroom t = kroom s3 + 1"
    "\<forall>q. objs t q \<noteq> None \<longrightarrow> objs s3 q = objs t q" "klive s3 fd = Some 1" "klive t fd = None"
    using fill_descriptor [OF 2(5) fdst roomt i(1) i(2,3) [folded t(1)] 2(3,4), of "disk_address s" a]
    unfolding t(1) by (elim exE conjE) (rule that)
  have disk2: "disk_at s2 (disk_address s) = Some (disk_var s)"
    using make_fd_disk [OF 3(1)] t by (simp add: disk_at_def)
  then have "fopen_res (kernel_filesystems dev a) file_name mode s = Some (int i + 1, s3)"
    using 1(1,2) d disk1 mode1 log 2(1,2) 3(1-4)
    by (simp add: fopen_res_def get_disk_def disk_at_def kernel_filesystems_def fat16_ops_def file_consts Let_def)
  then have "fopen (kernel_filesystems dev a) file_name mode s = Some (int i + 1, s3)" by (simp add: fopen_def)
  moreover have ds: "disk_address s3 = disk_address s" "disk_var s3 = disk_var s" "tmp_filename s3 = tmp_filename t"
    using make_fd_disk [OF 3(1)] t(2,3) by (simp_all add: 3(4) put_obj_def make_fd_tmp [OF 3(1)])
  moreover have "lookup_step s s3"
  proof -
    have "lookup_step s s1" using 1(3) more_disk [OF 1(7)] by (intro grows_lookup_step) simp_all
    then have "lookup_step s t" using 2(8) by (rule lookup_step_trans)
    then show ?thesis by (rule lookup_step_trans) (rule grows_lookup_step [OF 3(12) ds(3)])
  qed
  moreover have "kroom s = kroom s3 + 6" using 1(9) 2(6) 3(13) by simp
  moreover have "objs s3 r = objs s r" if "objs s r \<noteq> None" for r using old1 [OF that] 2(7) 3(14) that by metis
  moreover have "klive s3 r = Some k" if "klive s r = Some k" for r k
    using that 1(3) 2(10) 3(12) by (auto simp: grows_def)
  moreover have "klive s3 p = Some 1" using 2(11) 3(12) by (simp add: grows_def)
  moreover have "klive s p = None" "klive s it = None" "klive s c = None"
    using 1(3) 2(13-15) by (fastforce simp: grows_def)+
  moreover have "klive s fd = None" using 1(3) 2(10) 3(16) by (fastforce simp: grows_def)
  moreover have "distinct [fd, p, it, c]" using 2(4,11,12) 3(16) by (auto simp: file_item_at_def)
  ultimately show ?thesis using 2(9) 3(5-11,15) by blast
qed

section \<open>Closing it again\<close>

text \<open>The blocks of an open file are given back; its slot of the table is free again.\<close>

lemma kfree_one:
  assumes "machine_ok s" and "klive s p = Some 1"
  obtains s' where "kfree s p = Some s'" "machine_ok s'" "klive s' = (klive s)(p := None)" "kroom s' = kroom s + 1"
    "objs s' = (objs s)(p := None)" "machine.more s' = machine.more s"
proof -
  obtain s' where s': "kfree s p = Some s'" "machine_ok s'" "klive s' = (klive s)(p := None)" "kroom s' = kroom s + 1"
    using kfree_machine_ok [OF assms] by auto
  then show thesis using that [OF s'] kfree_frame [OF s'(1)] by simp
qed

lemma close_open_file:
  assumes ok: "machine_ok s" and len: "length (file_descriptors s) = 512" and i: "i < 511" "file_descriptors s ! i = fd"
    and fd: "fd \<noteq> 0" "fd_at s fd = Some \<lparr>fd_index = int i + 1, fd_fs = a, fd_disk = d, fd_p = p\<rparr>" "klive s fd = Some 1"
    and ffd: "ffd_at s p = Some \<lparr>fat_fd_item = it, fat_fd_pos = n\<rparr>" "klive s p = Some 1" and item: "file_item_at s it c bs"
    and apart: "distinct [fd, p, it, c]"
  shows "\<exists>s'. fclose (kernel_filesystems dev a) (int i + 1) s = Some (0, s') \<and> machine_ok s' \<and>
    file_descriptors s' = (file_descriptors s)[i := 0] \<and> kroom s' = kroom s + 4 \<and>
    klive s' = (klive s)(c := None, it := None, p := None, fd := None) \<and> objs s' = (objs s)(c := None, it := None, p := None, fd := None)"
proof -
  have it: "it \<noteq> 0" "item_at s it = Some \<lparr>item_ptr = c, item_type = FAT_ITEM_TYPE_FILE\<rparr>" "klive s it = Some 1" "klive s c = Some 1"
    using item by (simp_all add: file_item_at_def)
  obtain s1 where 1: "kfree s c = Some s1" "machine_ok s1" "klive s1 = (klive s)(c := None)" "kroom s1 = kroom s + 1"
    "objs s1 = (objs s)(c := None)" "machine.more s1 = machine.more s" using kfree_one [OF ok it(4)] .
  have l1: "klive s1 it = Some 1" using it(3) apart by (simp add: 1(3))
  obtain s2 where 2: "kfree s1 it = Some s2" "machine_ok s2" "klive s2 = (klive s1)(it := None)" "kroom s2 = kroom s1 + 1"
    "objs s2 = (objs s1)(it := None)" "machine.more s2 = machine.more s1" using kfree_one [OF 1(2) l1] .
  have l2: "klive s2 p = Some 1" using ffd(2) apart by (simp add: 1(3) 2(3))
  obtain s3 where 3: "kfree s2 p = Some s3" "machine_ok s3" "klive s3 = (klive s2)(p := None)" "kroom s3 = kroom s2 + 1"
    "objs s3 = (objs s2)(p := None)" "machine.more s3 = machine.more s2" using kfree_one [OF 2(2) l2] .
  let ?s4 = "s3\<lparr>file_descriptors := (file_descriptors s3)[i := 0]\<rparr>"
  have k4: "machine_ok ?s4" "klive ?s4 fd = Some 1" "klive ?s4 = klive s3" "kroom ?s4 = kroom s3" "objs ?s4 = objs s3"
    using 3(2) fd(3) apart by (simp_all add: machine_ok_def kheap_defs 1(3) [unfolded kheap_defs] 2(3) [unfolded kheap_defs] 3(3) [unfolded kheap_defs])
  obtain s5 where 5: "kfree ?s4 fd = Some s5" "machine_ok s5" "klive s5 = (klive ?s4)(fd := None)" "kroom s5 = kroom ?s4 + 1"
    "objs s5 = (objs ?s4)(fd := None)" "machine.more s5 = machine.more ?s4" using kfree_one [OF k4(1,2)] .
  have fds: "file_descriptors s3 = file_descriptors s" using more_fs [OF 1(6)] more_fs [OF 2(6)] more_fs [OF 3(6)] by simp
  have "fat16_close p s = Some (0, s3)"
    using ffd(1) it(1,2) 1(1) 2(1) 3(1)
    by (simp add: fat16_close_def fat16_free_file_descriptor_def fat16_fat_item_free_def fat_consts)
  moreover have "fd_at s3 fd = Some \<lparr>fd_index = int i + 1, fd_fs = a, fd_disk = d, fd_p = p\<rparr>"
    using fd(2) apart by (simp add: fd_at_def 1(5) 2(5) 3(5))
  moreover have "get_file_descriptor (int i + 1) s = fd" using i by (simp add: get_file_descriptor_def MAX_FILE_DESCRIPTORS_def)
  ultimately have "fclose (kernel_filesystems dev a) (int i + 1) s = Some (0, s5)"
    using fd(1,2) i 5(1) by (simp add: fclose_def fd_ops_def kernel_filesystems_def fat16_ops_def release_file_descriptor_def
      MAX_FILE_DESCRIPTORS_def Let_def)
  moreover have "file_descriptors s5 = (file_descriptors s)[i := 0]" using more_fs [OF 5(6)] fds by simp
  ultimately show ?thesis
    using 5(2-5) k4(3-5) 1(3-5) 2(3-5) 3(3-5) by (intro exI [of _ s5]) (simp add: fun_eq_iff)
qed

end
