(* ===== verification/Vfs_Seek.thy ===== *)
theory Vfs_Seek
  imports Vfs_Correct Fat16_Correct
begin

text \<open>
  Moving the position of an open file and reading there: \<open>fseek\<close> and \<open>fread\<close> through the descriptor
  table down to the FAT16 driver.
\<close>

text \<open>Slot \<open>i\<close> holds a file of the driver at \<open>a\<close>, with its FAT16 descriptor at \<open>p\<close> and position \<open>q\<close>.\<close>

definition open_file :: "'a fs_machine_scheme \<Rightarrow> nat \<Rightarrow> u32 \<Rightarrow> u32 \<Rightarrow> u32 \<Rightarrow> u32 \<Rightarrow> fat_item \<Rightarrow> u32 \<Rightarrow> bool" where
  "open_file s i a d p it x q \<longleftrightarrow> i < 511 \<and> file_descriptors s ! i \<noteq> 0 \<and>
     (\<exists>n. fd_at s (file_descriptors s ! i) = Some \<lparr>fd_index = n, fd_fs = a, fd_disk = d, fd_p = p\<rparr>) \<and>
     ffd_at s p = Some \<lparr>fat_fd_item = it, fat_fd_pos = q\<rparr> \<and> item_at s it = Some x \<and> item_type x = FAT_ITEM_TYPE_FILE"

abbreviation moved :: "u32 \<Rightarrow> u32 \<Rightarrow> u32 \<Rightarrow> 'a fs_machine_scheme \<Rightarrow> 'a fs_machine_scheme" where
  "moved p it q s \<equiv> put_obj p (Obj_ffd \<lparr>fat_fd_item = it, fat_fd_pos = q\<rparr>) s"

lemma open_file_slot: "open_file s i a d p it x q \<Longrightarrow> get_file_descriptor (int i + 1) s = file_descriptors s ! i"
  by (simp add: open_file_def get_file_descriptor_def MAX_FILE_DESCRIPTORS_def nat_int_add)

lemma open_file_moved:
  assumes "open_file s i a d p it x q"
  shows "open_file (moved p it q' s) i a d p it x q'"
  using assms by (auto simp: open_file_def put_obj_def fd_at_def ffd_at_def item_at_def split: option.splits kobj.splits)

text \<open>Moving changes the descriptor only: the disk and its streams are as before.\<close>

lemma moved_disk:
  assumes "open_file s i a d p it x q"
  shows "disk_at (moved p it q' s) = disk_at s" and "disk_private (moved p it q' s) e = disk_private s e"
    and "stream_on (moved p it q' s) st = stream_on s st"
proof -
  obtain y where y: "objs s p = Some (Obj_ffd y)" using assms by (auto simp: open_file_def ffd_at_def split: option.splits kobj.splits)
  show disk: "disk_at (moved p it q' s) = disk_at s" by (simp add: disk_at_def fun_eq_iff)
  have "private_at (moved p it q' s) r = private_at s r" for r using y by (simp add: private_at_def put_obj_def)
  then show "disk_private (moved p it q' s) e = disk_private s e" by (simp add: disk_private_def disk)
  show "stream_on (moved p it q' s) st = stream_on s st" using y by (auto simp: stream_on_def put_obj_def)
qed

lemma fseek_moves:
  assumes f: "open_file s i a d p it x q" and w: "w < i_filesize (mem s) (item_ptr x)"
  shows "fseek (kernel_filesystems dev a) (int i + 1) (uint w) SEEK_SET s = Some (0, moved p it w s)"
    and "fseek (kernel_filesystems dev a) (int i + 1) (uint w) SEEK_CUR s = Some (0, moved p it (q + w) s)"
  using f w open_file_slot [OF f]
  by (auto simp: open_file_def fseek_def fd_ops_def kernel_filesystems_def fat16_ops_def fat16_seek_def file_consts Let_def)

lemma fseek_refused:
  assumes f: "open_file s i a d p it x q" and w: "i_filesize (mem s) (item_ptr x) \<le> w"
  shows "fseek (kernel_filesystems dev a) (int i + 1) (uint w) mode s = Some (- EIO, s)"
  using f w open_file_slot [OF f]
  by (auto simp: open_file_def fseek_def fd_ops_def kernel_filesystems_def fat16_ops_def fat16_seek_def Let_def)

text \<open>\<open>k\<close> relative seeks by \<open>offset\<close>, each of which has to succeed.\<close>

fun relative_seeks :: "'a fs_machine_scheme fs_table \<Rightarrow> int \<Rightarrow> int \<Rightarrow> nat \<Rightarrow> 'a fs_machine_scheme \<Rightarrow> 'a fs_machine_scheme option" where
  "relative_seeks fss fd offset 0 s = Some s"
| "relative_seeks fss fd offset (Suc k) s = do {
     (res, s) \<leftarrow> fseek fss fd offset SEEK_CUR s;
     if res = 0 then relative_seeks fss fd offset k s else None }"

lemma relative_seeks_add:
  assumes "open_file s i a d p it x q" and "w < i_filesize (mem s) (item_ptr x)"
  shows "relative_seeks (kernel_filesystems dev a) (int i + 1) (uint w) k s =
    Some (if k = 0 then s else moved p it (q + of_nat k * w) s)"
  using assms
proof (induction k arbitrary: s q)
  case (Suc k)
  have "open_file (moved p it (q + w) s) i a d p it x (q + w)" by (rule open_file_moved [OF Suc.prems(1)])
  moreover have "w < i_filesize (mem (moved p it (q + w) s)) (item_ptr x)" using Suc.prems(2) by simp
  ultimately have "relative_seeks (kernel_filesystems dev a) (int i + 1) (uint w) k (moved p it (q + w) s) =
      Some (if k = 0 then moved p it (q + w) s else moved p it (q + w + of_nat k * w) (moved p it (q + w) s))"
    by (rule Suc.IH)
  then show ?case using fseek_moves(2) [OF Suc.prems, of dev] by (simp add: algebra_simps)
qed simp

text \<open>A read of one block at the position of the descriptor.\<close>

lemma fread_block:
  assumes f: "open_file s i a d p it x (of_nat off)" and dev: "ata_ok dev img" and dk: "disk_at s d = Some dk" "sector_size dk = 512"
    and pr: "disk_private s d = Some (private, pr)" "stream_on s (cluster_read_stream pr)"
    and spc: "0 < h_sectors_per_cluster (mem s) private"
    and n: "0 < n" "int off + int n \<le> h_sectors_per_cluster (mem s) private * 512"
    and high: "i_high_16_bits_first_cluster (mem s) (item_ptr x) = 0"
    and start: "first_byte (mem s) private pr (item_ptr x) + int off = int start"
      "start mod 512 = 0 \<or> start mod 512 + n \<le> 512" "start + n < 2 ^ 31"
  shows "\<exists>s'. fread (kernel_filesystems dev a) (int i + 1) out (of_nat n) 1 s = Some (1, s') \<and>
    mem s' = write_bytes out (disk_bytes img start n) (mem s)"
proof -
  have fd: "ffd_at s p = Some \<lparr>fat_fd_item = it, fat_fd_pos = of_nat off\<rparr>" "item_at s it = Some x"
    using f by (simp_all add: open_file_def)
  obtain s' where s': "fat16_read dev d p (of_nat n) 1 out s = Some (1, s')" "mem s' = write_bytes out (disk_bytes img start n) (mem s)"
    using read_file_block [OF dev dk pr fd(1) _ spc _ n high start, of out] fd(2) by auto
  have "n < 2 ^ 32"
  proof -
    have "h_sectors_per_cluster (mem s) private * 512 < 131072"
      using uint_lt2p [of "mem s (private + 13)"] by (simp add: h_sectors_per_cluster_def)
    then have "int n < 131072" using n(2) by linarith
    then show ?thesis by simp
  qed
  then have "(of_nat n :: u32) \<noteq> 0" using n(1) unat_of_nat_u32 [of n] by (metis less_numeral_extra(3) unat_0)
  then have "fread (kernel_filesystems dev a) (int i + 1) out (of_nat n) 1 s = fat16_read dev d p (of_nat n) 1 out s"
    using f open_file_slot [OF f]
    by (auto simp: open_file_def fread_def fd_ops_def kernel_filesystems_def fat16_ops_def Let_def)
  then show ?thesis using s' by simp
qed

end
