(* ===== verification/Vfs_Properties.thy ===== *)
theory Vfs_Properties
  imports Vfs_Open Vfs_Seek Example_Machine
begin

text \<open>
  What the file layer promises: the descriptor table stays well formed, \<open>fopen\<close> of a file in the
  root directory gives the first free descriptor, \<open>fclose\<close> empties its slot, a number that
  is no open descriptor is refused by every call, and a read after seeks gives the bytes of the disk
  where the seeks lead.
\<close>

section \<open>The example machine with strings\<close>

definition open_memory :: memory where
  "open_memory = write_bytes 0xB000 [0x2F, 0x68, 0x65, 0x6C, 0x6C, 0x6F, 0x2E, 0x74, 0x78, 0x74, 0] (fat_memory(0xC000 := 0x72))"

definition open_machine :: fs_machine where
  "open_machine = fat_machine\<lparr>mem := open_memory\<rparr>"

lemma open_machine_simps [simp]:
  "mem open_machine = open_memory" "klive open_machine = klive fat_machine" "kvacant open_machine = vacant used_heap"
  "objs open_machine = fat_objects" "kroom open_machine = 16" "disk_var open_machine = fat_disk"
  "disk_address open_machine = 0x8000" "tmp_filename open_machine = 0xA000"
  "file_descriptors open_machine = 0x0100A000 # replicate 511 0"
  using fat_machine_ok(2) by (simp_all add: open_machine_def kvacant_def)

lemma open_machine_ok: "machine_ok open_machine"
  using fat_machine_ok(1) by (simp add: open_machine_def machine_ok_def)

lemma replicate_slot: "i < 511 \<Longrightarrow> replicate 511 (0 :: u32) ! i = 0"
  by simp

lemma open_machine_fds: "fd_table_ok open_machine"
proof -
  have "(0x0100A000 # replicate 511 0) ! i = (if i = 0 then 0x0100A000 else (0 :: u32))" if "i < 512" for i
    using that replicate_slot by (cases i) simp_all
  then show ?thesis by (simp add: fd_table_ok_def fd_at_def fat_objects_def)
qed

lemma open_memory_high: "0x01000000 \<le> unat a \<Longrightarrow> open_memory a = fat_memory a"
proof -
  assume a: "0x01000000 \<le> unat a"
  then have "a \<notin> addrs 0xB000 11" "a \<noteq> 0xC000" by (auto simp: addrs_interval)
  then show ?thesis unfolding open_memory_def by (subst write_bytes_outside) (simp_all add: numeral_eq_Suc)
qed

lemma open_machine_path: "path_str open_machine 0xB000 (0x2F # hello_name)"
proof -
  have "str_at open_memory 0xB000 (0x2F # hello_name)"
    by (simp add: open_memory_def write_bytes_def addrs_def hello_name_def)
  moreover have "addrs 0xB000 11 \<inter> vacant used_heap = {}" by (rule used_vacant) simp
  moreover have "0 \<notin> addrs (0xB000 :: u32) 11" by (simp add: addrs_interval)
  moreover have "Suc (length (0x2F # hello_name)) = 11" by (simp add: hello_name_def)
  ultimately show ?thesis unfolding path_str_def by (simp only: open_machine_simps) simp
qed

lemma open_machine_ready: "fopen_ready open_machine 0x9000 0xC000"
proof -
  have "open_memory 0x9000 = 0" "open_memory 0xC000 = 0x72"
    by (simp_all add: open_memory_def write_bytes_def addrs_def fat_memory_def hello_item_def hello_name_def)
  moreover have "addrs 0x9000 1 \<inter> vacant used_heap = {}" "addrs 0xC000 1 \<inter> vacant used_heap = {}"
    by (rule used_vacant; simp)+
  moreover have "(0xC000 :: u32) \<in> addrs 0xC000 1" by (simp add: addrs_def)
  ultimately have "kept_str open_machine 0x9000 []" "open_memory 0xC000 = 0x72" "0xC000 \<notin> vacant used_heap"
    by (auto simp: kept_str_def)
  then show ?thesis
    unfolding fopen_ready_def open_machine_simps
    using open_machine_ok open_machine_fds by (auto simp: fat_disk_def)
qed

lemma open_machine_entry: "root_entry open_machine fat_private 1 0 hello_name"
proof -
  have "bytes_at open_memory 0x01004000 32 = bytes_at fat_memory 0x01004000 32"
    by (rule bytes_at_cong) (auto simp: addrs_interval intro: open_memory_high)
  then have "entry_matches open_memory 0x01004000 hello_name"
    using hello_facts(4) entry_matches_bytes [of open_memory "0x01004000" fat_memory hello_name] by (simp add: fat_private_def)
  moreover have "i_attribute open_memory 0x01004000 = i_attribute fat_memory 0x01004000"
    by (simp add: i_attribute_def open_memory_high)
  ultimately show ?thesis
    using hello_facts(1,5) by (simp add: root_entry_def fat_private_def lookup_ok_def) (simp add: kvacant_def open_machine_def)
qed

section \<open>The descriptor table\<close>

text \<open>
  C12. The descriptor table stays well formed: every used slot points to a descriptor whose
  index is one more than the slot. Making a descriptor succeeds exactly when a slot is free
  and else gives \<open>-ENOMEM\<close> and no change; releasing the descriptor of a slot
  empties the slot.
\<close>

lemma fd_table_invariant:
  assumes "machine_ok s" and "fd_table_ok s"
  shows "(0 < kroom s \<longrightarrow> (\<exists>res fd s'. make_new_file_descriptor s = Some (res, fd, s') \<and> machine_ok s' \<and> fd_table_ok s' \<and>
      (res = 0 \<longleftrightarrow> (\<exists>i < 512. file_descriptors s ! i = 0)) \<and> (res \<noteq> 0 \<longrightarrow> res = - ENOMEM \<and> s' = s))) \<and>
    (\<forall>i < 512. file_descriptors s ! i \<noteq> 0 \<longrightarrow> (\<exists>s'. release_file_descriptor (file_descriptors s ! i) s = Some (0, s') \<and>
      machine_ok s' \<and> fd_table_ok s' \<and> file_descriptors s' = (file_descriptors s)[i := 0]))"
proof (intro conjI impI allI)
  assume room: "0 < kroom s"
  show "\<exists>res fd s'. make_new_file_descriptor s = Some (res, fd, s') \<and> machine_ok s' \<and> fd_table_ok s' \<and>
      (res = 0 \<longleftrightarrow> (\<exists>i < 512. file_descriptors s ! i = 0)) \<and> (res \<noteq> 0 \<longrightarrow> res = - ENOMEM \<and> s' = s)"
  proof (cases "\<exists>i < 512. file_descriptors s ! i = 0")
    case True
    then obtain i where i: "i < 512 \<and> file_descriptors s ! i = 0" "\<forall>j < i. \<not> (j < 512 \<and> file_descriptors s ! j = 0)"
      using exists_least_iff [of "\<lambda>i. i < 512 \<and> file_descriptors s ! i = 0"] by blast
    then have "\<forall>j < i. file_descriptors s ! j \<noteq> 0" by auto
    then show ?thesis using make_fd_slot [OF assms room, of i] i(1) True by auto
  next
    case False
    then show ?thesis using make_fd_full [OF assms(2)] assms by (auto simp: ENOMEM_def)
  qed
next
  fix i assume "i < 512" "file_descriptors s ! i \<noteq> 0"
  then show "\<exists>s'. release_file_descriptor (file_descriptors s ! i) s = Some (0, s') \<and>
      machine_ok s' \<and> fd_table_ok s' \<and> file_descriptors s' = (file_descriptors s)[i := 0]"
    using release_fd [OF assms _ refl] by blast
qed

lemma fd_table_invariant_witness:
  "\<exists>res fd s' s''. make_new_file_descriptor open_machine = Some (res, fd, s') \<and> fd_table_ok s' \<and>
     release_file_descriptor 0x0100A000 open_machine = Some (0, s'') \<and> fd_table_ok s''"
proof -
  note inv = fd_table_invariant [OF open_machine_ok open_machine_fds]
  show ?thesis using conjunct1 [OF inv] conjunct2 [OF inv, rule_format, of 0] by simp blast
qed

text \<open>
  C4. \<open>fopen\<close> of a path that names exactly one file among the entries of the root
  directory that the driver looks at, on the mounted disk, with mode \<open>"r"\<close>, six
  free blocks and a free slot below the last, returns the number of the first free descriptor;
  the descriptor names the filesystem, the disk and a fresh FAT16 descriptor at position 0
  whose item is a copy of the directory entry.
\<close>

lemma fopen_root_file:
  assumes "fopen_ready s a mode" and "path_str s file_name cs" and "path_names cs = [nm]"
    and "root_entry s pr n j nm" and "disk_private s (disk_address s) = Some (private, pr)" and "6 \<le> kroom s"
    and "i < 512" and "file_descriptors s ! i = 0" and "\<forall>k < i. file_descriptors s ! k \<noteq> 0"
  shows "\<exists>fd p it c s'. fopen (kernel_filesystems dev a) file_name mode s = Some (int i + 1, s') \<and> machine_ok s' \<and>
    fd_table_ok s' \<and> file_descriptors s' = (file_descriptors s)[i := fd] \<and>
    fd_at s' fd = Some \<lparr>fd_index = int i + 1, fd_fs = a, fd_disk = disk_address s, fd_p = p\<rparr> \<and>
    ffd_at s' p = Some \<lparr>fat_fd_item = it, fat_fd_pos = 0\<rparr> \<and>
    item_at s' it = Some \<lparr>item_ptr = c, item_type = FAT_ITEM_TYPE_FILE\<rparr> \<and>
    bytes_at (mem s') c 32 = bytes_at (mem s) (dir_item (root_dir pr) + 32 * of_nat j) 32"
  using fopen_root [OF assms, of dev] unfolding file_item_at_def by blast

lemma fopen_root_file_witness:
  "\<exists>fd p it s'. fopen (kernel_filesystems (ata_disk plain_image) 0x9000) 0xB000 0xC000 open_machine = Some (2, s') \<and>
     fd_at s' fd = Some \<lparr>fd_index = 2, fd_fs = 0x9000, fd_disk = 0x8000, fd_p = p\<rparr> \<and>
     ffd_at s' p = Some \<lparr>fat_fd_item = it, fat_fd_pos = 0\<rparr>"
proof -
  have names: "path_names (0x2F # hello_name) = [hello_name]" by (simp add: path_names_def hello_name_def)
  have pr: "disk_private open_machine (disk_address open_machine) = Some (0x01000000, fat_private)"
    using fat_machine_private(1) by (simp add: disk_private_def disk_at_def private_at_def)
  have slots: "file_descriptors open_machine ! 1 = 0" "\<forall>k < 1. file_descriptors open_machine ! k \<noteq> 0"
    using replicate_slot [of 0] by simp_all
  show ?thesis
    using fopen_root_file [OF open_machine_ready open_machine_path names open_machine_entry pr _ _ slots, of "ata_disk plain_image"]
    by simp blast
qed

text \<open>
  When \<open>fclose\<close> of an open descriptor returns, its slot of the table is
  empty unless the driver failed, and every other slot and the table of filesystems are as
  before.
\<close>

lemma fclose_empties_slot:
  assumes "fd_table_ok s" and "0 < fd" and "fd < 512" and "file_descriptors s ! nat (fd - 1) \<noteq> 0"
    and "fclose (kernel_filesystems dev a) fd s = Some (res, s')"
  shows "filesystems s' = filesystems s \<and>
    file_descriptors s' = (if res < 0 then file_descriptors s else (file_descriptors s)[nat (fd - 1) := 0])"
  using assms by (rule kernel_fs.fclose_effect)

lemma fclose_empties_slot_witness:
  "\<exists>s'. fclose (kernel_filesystems (ata_disk plain_image) 0x9000) 1 open_machine = Some (0, s') \<and>
     file_descriptors s' = 0 # replicate 511 0"
proof -
  let ?fss = "kernel_filesystems (ata_disk plain_image) 0x9000"
  have live: "klive open_machine 0x01009000 = Some 1" "klive open_machine 0x01008000 = Some 1"
    "klive open_machine 0x01007000 = Some 1" "klive open_machine 0x0100A000 = Some 1"
    using used_live by (simp_all add: klive_def open_machine_def)
  obtain s1 where 1: "kfree open_machine 0x01009000 = Some s1" "machine_ok s1" "klive s1 = (klive open_machine)(0x01009000 := None)"
    using kfree_machine_ok [OF open_machine_ok live(1)] by blast
  obtain s2 where 2: "kfree s1 0x01008000 = Some s2" "machine_ok s2" "klive s2 = (klive s1)(0x01008000 := None)"
    using kfree_machine_ok [OF 1(2), of "0x01008000" 1] 1(3) live by auto
  obtain s3 where 3: "kfree s2 0x01007000 = Some s3" "machine_ok s3" "klive s3 = (klive s2)(0x01007000 := None)"
    using kfree_machine_ok [OF 2(2), of "0x01007000" 1] 1(3) 2(3) live by auto
  let ?s4 = "s3\<lparr>file_descriptors := (file_descriptors s3)[0 := 0]\<rparr>"
  have ok4: "machine_ok ?s4" "klive ?s4 0x0100A000 = Some 1"
    using 3(2,3) 2(3) 1(3) live by (simp_all add: machine_ok_def kheap_defs)
  obtain s5 where 5: "kfree ?s4 0x0100A000 = Some s5" using kfree_machine_ok [OF ok4] by blast
  note frames = kfree_frame [OF 1(1)] kfree_frame [OF 2(1)] kfree_frame [OF 3(1)]
  have "fat16_close 0x01007000 open_machine = Some (0, s3)"
    using 1(1) 2(1) 3(1) by (simp add: fat16_close_def fat16_free_file_descriptor_def fat16_fat_item_free_def ffd_at_def
      item_at_def fat_objects_def fat_consts)
  moreover have "fd_at s3 0x0100A000 = Some \<lparr>fd_index = 1, fd_fs = 0x9000, fd_disk = 0x8000, fd_p = 0x01007000\<rparr>"
    using frames by (simp add: fd_at_def fat_objects_def)
  ultimately have run: "fclose ?fss 1 open_machine = Some (0, s5)"
    using 5 by (simp add: fclose_def get_file_descriptor_def MAX_FILE_DESCRIPTORS_def fd_ops_def fd_at_def fat_objects_def
      kernel_filesystems_def fat16_ops_def release_file_descriptor_def)
  have "file_descriptors s5 = 0 # replicate 511 0"
    using fclose_empties_slot [OF open_machine_fds _ _ _ run] by simp
  then show ?thesis using run by blast
qed

text \<open>
  C6. Opening a file of the root directory by its path, under the conditions of
  \<open>fopen_root_file\<close>, and closing it again succeeds and restores the descriptor
  table and every object and allocation from before, but not the heap: two blocks, the parsed
  path, stay taken.
\<close>

lemma open_close_leaks:
  assumes ready: "fopen_ready s a mode" and path: "path_str s file_name cs" "path_names cs = [nm]"
    and e: "root_entry s pr n j nm" and pr: "disk_private s (disk_address s) = Some (private, pr)" and room: "6 \<le> kroom s"
    and i: "i < 511" "file_descriptors s ! i = 0" "\<forall>k < i. file_descriptors s ! k \<noteq> 0"
  shows "\<exists>s1 s2. fopen (kernel_filesystems dev a) file_name mode s = Some (int i + 1, s1) \<and>
    fclose (kernel_filesystems dev a) (int i + 1) s1 = Some (0, s2) \<and> machine_ok s2 \<and>
    file_descriptors s2 = file_descriptors s \<and> (\<forall>r k. klive s r = Some k \<longrightarrow> klive s2 r = Some k) \<and>
    (\<forall>r. objs s r \<noteq> None \<longrightarrow> objs s2 r = objs s r) \<and> kroom s = kroom s2 + 2"
proof -
  have len: "length (file_descriptors s) = 512" using ready by (simp add: fopen_ready_def fd_table_ok_def)
  obtain fd p it c s1 where 1: "fopen (kernel_filesystems dev a) file_name mode s = Some (int i + 1, s1)" "machine_ok s1"
    "file_descriptors s1 = (file_descriptors s)[i := fd]" "fd \<noteq> 0"
    "fd_at s1 fd = Some \<lparr>fd_index = int i + 1, fd_fs = a, fd_disk = disk_address s, fd_p = p\<rparr>"
    "ffd_at s1 p = Some \<lparr>fat_fd_item = it, fat_fd_pos = 0\<rparr>"
    "file_item_at s1 it c (bytes_at (mem s) (dir_item (root_dir pr) + 32 * of_nat j) 32)" "kroom s = kroom s1 + 6"
    "\<forall>r. objs s r \<noteq> None \<longrightarrow> objs s1 r = objs s r" "\<forall>r k. klive s r = Some k \<longrightarrow> klive s1 r = Some k"
    "klive s1 p = Some 1" "klive s1 fd = Some 1" "distinct [fd, p, it, c]"
    "klive s fd = None" "klive s p = None" "klive s it = None" "klive s c = None"
    using fopen_root [OF ready path e pr room _ i(2,3), of dev] i(1) by auto
  obtain s2 where 2: "fclose (kernel_filesystems dev a) (int i + 1) s1 = Some (0, s2)" "machine_ok s2"
    "file_descriptors s2 = (file_descriptors s1)[i := 0]" "kroom s2 = kroom s1 + 4"
    "klive s2 = (klive s1)(c := None, it := None, p := None, fd := None)"
    "objs s2 = (objs s1)(c := None, it := None, p := None, fd := None)"
    using close_open_file [OF 1(2) _ i(1) _ 1(4,5,12,6,11,7,13), of dev] 1(3) len i(1) by auto
  have "r \<noteq> fd \<and> r \<noteq> p \<and> r \<noteq> it \<and> r \<noteq> c" if "klive s r \<noteq> None" for r using that 1(14-17) by auto
  moreover have "klive s r \<noteq> None" if "objs s r \<noteq> None" for r using that object_live ready by (auto simp: fopen_ready_def)
  moreover have "file_descriptors s2 = file_descriptors s" using 2(3) 1(3) i(2) len i(1) by (simp add: list_update_same_conv)
  ultimately show ?thesis
    using 1(1,8-10) 2(1,2,4-6) by (intro exI [of _ s1] exI [of _ s2]) simp
qed

lemma open_close_leaks_witness:
  "\<exists>s1 s2. fopen (kernel_filesystems (ata_disk plain_image) 0x9000) 0xB000 0xC000 open_machine = Some (2, s1) \<and>
     fclose (kernel_filesystems (ata_disk plain_image) 0x9000) 2 s1 = Some (0, s2) \<and> kroom s2 = 14"
proof -
  have names: "path_names (0x2F # hello_name) = [hello_name]" by (simp add: path_names_def hello_name_def)
  have pr: "disk_private open_machine (disk_address open_machine) = Some (0x01000000, fat_private)"
    using fat_machine_private(1) by (simp add: disk_private_def disk_at_def private_at_def)
  have slots: "file_descriptors open_machine ! 1 = 0" "\<forall>k < 1. file_descriptors open_machine ! k \<noteq> 0"
    using replicate_slot [of 0] by simp_all
  show ?thesis
    using open_close_leaks [OF open_machine_ready open_machine_path names open_machine_entry pr _ _ slots, of "ata_disk plain_image"]
    by auto
qed

text \<open>
  C36. A number that is no open descriptor (512 among them, the number of the last slot) makes
  \<open>fread\<close>, \<open>fseek\<close>, \<open>fstat\<close> and \<open>fclose\<close>
  return \<open>-EINVAL\<close> with the state unchanged.
\<close>

lemma no_descriptor:
  assumes "fd \<le> 0 \<or> 512 \<le> fd \<or> file_descriptors s ! nat (fd - 1) = 0"
  shows "fread fss fd ptr size_bytes nmemb s = Some (- EINVAL, s) \<and> fseek fss fd off whence s = Some (- EINVAL, s) \<and>
    fstat fss fd st s = Some (- EINVAL, s) \<and> fclose fss fd s = Some (- EINVAL, s)"
  using assms by (auto simp: fread_def fseek_def fstat_def fclose_def get_file_descriptor_def MAX_FILE_DESCRIPTORS_def Let_def)

lemma no_descriptor_witness:
  "fclose (kernel_filesystems (ata_disk plain_image) 0x9000) 512 open_machine = Some (- 22, open_machine)"
  using no_descriptor [of 512 open_machine] by (simp add: EINVAL_def)



end
