(* ===== verification/Fat16_Mount.thy ===== *)
theory Fat16_Mount
  imports Vfs_Open
begin

text \<open>
  Mounting: \<open>fat16_resolve\<close> brings the boot sector and the root directory of the disk into memory
  and opens three streams on the disk.
\<close>

section \<open>The disk\<close>

text \<open>Fields of the boot sector on the disk, and where they put the root directory.\<close>

definition disk_word :: "(nat \<Rightarrow> u8 list) \<Rightarrow> nat \<Rightarrow> nat" where
  "disk_word img a = unat (disk_byte img a) + 256 * unat (disk_byte img (Suc a))"

definition root_entries :: "(nat \<Rightarrow> u8 list) \<Rightarrow> nat" where
  "root_entries img = disk_word img 17"

definition root_sector :: "(nat \<Rightarrow> u8 list) \<Rightarrow> nat" where
  "root_sector img = unat (disk_byte img 16) * disk_word img 22 + disk_word img 14"

text \<open>
  A FAT16 disk the driver can mount: the signature is there, the root directory has a block at most,
  ends with a free entry after \<open>k\<close> entries, and lies in the first 2 GB.
\<close>

definition fat16_disk :: "(nat \<Rightarrow> u8 list) \<Rightarrow> nat \<Rightarrow> bool" where
  "fat16_disk img k \<longleftrightarrow> disk_byte img 38 = 0x29 \<and> 0 < root_entries img \<and> root_entries img \<le> 128 \<and>
     (\<forall>i < k. disk_byte img (512 * root_sector img + 32 * i) \<noteq> 0) \<and> disk_byte img (512 * root_sector img + 32 * k) = 0 \<and>
     512 * root_sector img + 32 * Suc k < 2 ^ 31 \<and> 512 * root_sector img + 32 * root_entries img < 2 ^ 31"

lemma uint_load16: "uint (load16 m q) = uint (m q) + 256 * uint (m (q + 1))"
proof -
  let ?a = "ucast (m q) :: u16" and ?b = "push_bit 8 (ucast (m (q + 1))) :: u16"
  have lt: "uint (m q) < 256" "uint (m (q + 1)) < 256" using uint_lt2p [of "m q"] uint_lt2p [of "m (q + 1)"] by simp_all
  have "?a AND ?b = 0" by (rule bit_word_eqI) (auto simp: bit_simps dest: bit_imp_le_length)
  then have "load16 m q = ?a + ?b" by (simp add: load16_def disjunctive_add_eq_or)
  moreover have "uint ?a = uint (m q)" using lt by (simp add: unsigned_ucast_eq take_bit_int_eq_self)
  moreover have "uint ?b = 256 * uint (m (q + 1))"
    using lt by (simp add: push_bit_eq_mult uint_word_ariths(3) unsigned_ucast_eq take_bit_int_eq_self)
  ultimately show ?thesis using lt by (simp add: uint_word_ariths(1))
qed

lemma load16_disk:
  assumes "bytes_at m p n = disk_bytes img 0 n" and "Suc a < n"
  shows "uint (load16 m (p + of_nat a)) = int (disk_word img a)"
proof -
  have "m (p + of_nat a) = disk_byte img a" "m (p + of_nat (Suc a)) = disk_byte img (Suc a)"
    using arg_cong [OF assms(1), of "\<lambda>b. b ! a"] arg_cong [OF assms(1), of "\<lambda>b. b ! Suc a"] assms(2)
    by (simp_all add: disk_bytes_nth)
  then show ?thesis by (simp add: uint_load16 disk_word_def add.assoc add.commute [of 1])
qed

section \<open>Streams\<close>

lemma create_stream_fits:
  assumes ok: "machine_ok s" and d: "disk_address s \<noteq> 0" and room: "0 < kroom s"
  shows "\<exists>st s'. create_disk_stream 0 s = Some (st, s') \<and> st \<noteq> 0 \<and> grows s s' \<and> kroom s = kroom s' + 1 \<and> klive s st = None \<and>
    klive s' = (klive s)(st \<mapsto> 1) \<and> objs s' = (objs s)(st \<mapsto> stream_state 0 s) \<and> machine.more s' = machine.more s \<and>
    addrs st 4096 \<subseteq> kvacant s"
proof -
  let ?z = "Obj_stream \<lparr>pos = 0, disk = 0\<rparr>"
  obtain st s1 where 1: "kzalloc_obj s 8 ?z = (st, s1)" "st \<noteq> 0" "grows s s1" "kroom s = kroom s1 + 1" "klive s st = None"
    "klive s1 = (klive s)(st \<mapsto> 1)" "objs s1 = (objs s)(st \<mapsto> ?z)" "machine.more s1 = machine.more s"
    using kzalloc_obj_fits [OF ok, of 8 ?z] room by auto
  let ?s2 = "put_obj st (stream_state 0 s) s1"
  obtain t where "kzalloc s 8 = (st, t)" using kzalloc_objE [OF 1(1,2)] .
  then have "addrs st (4096 * blocks_for 8) \<subseteq> kvacant s" using kzalloc_vacant [OF machine_okD [OF ok] _ 1(2)] by blast
  then have "addrs st 4096 \<subseteq> kvacant s" by (simp add: blocks_for_def)
  moreover have "create_disk_stream 0 s = Some (st, ?s2)"
    using d 1(1,7) by (simp add: create_disk_stream_def get_disk_def stream_at_def stream_state_def)
  moreover have "grows s ?s2" using 1(6) by (intro grows_put_obj 1(3)) simp
  ultimately show ?thesis using 1(2,4-8) by (intro exI [of _ st] exI [of _ ?s2]) simp
qed

text \<open>The root directory and the streams of fresh private data.\<close>

abbreviation no_root :: fat_directory where
  "no_root \<equiv> \<lparr>dir_item = 0, dir_total = 0, sector_pos = 0, ending_sector_pos = 0\<rparr>"

lemma init_private_data:
  assumes ok: "machine_ok s" and P: "private_at s P = Some x" and d: "d = disk_address s" "d \<noteq> 0" "disk_id (disk_var s) = 0"
    and room: "3 \<le> kroom s"
  shows "\<exists>s' a b c. fat16_init_private_data d P s = Some s' \<and> machine_ok s' \<and> distinct [a, b, c] \<and>
    klive s a = None \<and> klive s b = None \<and> klive s c = None \<and> klive s' = (klive s)(a \<mapsto> 1, b \<mapsto> 1, c \<mapsto> 1) \<and>
    objs s' = (objs s)(a \<mapsto> stream_state 0 s, b \<mapsto> stream_state 0 s, c \<mapsto> stream_state 0 s,
      P \<mapsto> Obj_private \<lparr>root_dir = no_root, cluster_read_stream = a, fat_read_stream = b, directory_stream = c\<rparr>) \<and>
    kroom s = kroom s' + 3 \<and> kvacant s' \<subseteq> kvacant s \<and> machine.more s' = machine.more s \<and>
    (\<forall>y. y \<notin> kvacant s \<longrightarrow> y \<notin> addrs P 92 \<longrightarrow> mem s' y = mem s y)"
proof -
  let ?s1 = "s\<lparr>mem := memset P 0 92 (mem s)\<rparr>"
  have 1: "machine_ok ?s1" "disk_address ?s1 \<noteq> 0" "0 < kroom ?s1" using ok d room by (simp_all add: machine_ok_def)
  obtain a s2 where 2: "create_disk_stream 0 ?s1 = Some (a, s2)" "a \<noteq> 0" "grows ?s1 s2" "kroom ?s1 = kroom s2 + 1" "klive ?s1 a = None"
    "klive s2 = (klive ?s1)(a \<mapsto> 1)" "objs s2 = (objs ?s1)(a \<mapsto> stream_state 0 ?s1)" "machine.more s2 = machine.more ?s1"
    using create_stream_fits [OF 1] by blast
  have d2: "machine_ok s2" "disk_address s2 \<noteq> 0" "0 < kroom s2" using growsD(1) [OF 2(3)] more_disk [OF 2(8)] d 2(4) room by simp_all
  obtain b s3 where 3: "create_disk_stream 0 s2 = Some (b, s3)" "b \<noteq> 0" "grows s2 s3" "kroom s2 = kroom s3 + 1" "klive s2 b = None"
    "klive s3 = (klive s2)(b \<mapsto> 1)" "objs s3 = (objs s2)(b \<mapsto> stream_state 0 s2)" "machine.more s3 = machine.more s2"
    using create_stream_fits [OF d2] by blast
  have d3: "machine_ok s3" "disk_address s3 \<noteq> 0" "0 < kroom s3"
    using growsD(1) [OF 3(3)] more_disk [OF 3(8)] d2(2) 2(4) 3(4) room by simp_all
  obtain c s4 where 4: "create_disk_stream 0 s3 = Some (c, s4)" "c \<noteq> 0" "grows s3 s4" "kroom s3 = kroom s4 + 1" "klive s3 c = None"
    "klive s4 = (klive s3)(c \<mapsto> 1)" "objs s4 = (objs s3)(c \<mapsto> stream_state 0 s3)" "machine.more s4 = machine.more s3"
    using create_stream_fits [OF d3] by blast
  note keep = more_disk [OF 2(8)] more_disk [OF 3(8)] more_disk [OF 4(8)]
  let ?pr = "\<lparr>root_dir = no_root, cluster_read_stream = a, fat_read_stream = b, directory_stream = c\<rparr>"
  let ?s5 = "put_obj P (Obj_private ?pr) s4"
  let ?s6 = "klog ''FAT16 filesystem is initializing private data with the disk.\<newline>'' ?s5"
  have run: "fat16_init_private_data d P s = Some ?s6"
    using P d 2(1) 3(1) 4(1) by (simp add: fat16_init_private_data_def disk_at_def Let_def)
  have g: "grows ?s1 s4" using 2(3) 3(3) 4(3) grows_trans by blast
  have live: "klive s4 = (klive s)(a \<mapsto> 1, b \<mapsto> 1, c \<mapsto> 1)" using 2(6) 3(6) 4(6) by simp
  have states: "stream_state 0 ?s1 = stream_state 0 s" "stream_state 0 s2 = stream_state 0 s" "stream_state 0 s3 = stream_state 0 s"
    using keep by (simp_all add: stream_state_def)
  have "klive s P \<noteq> None" using P object_live [OF ok] by (cases "objs s P") (auto simp: private_at_def)
  then have "machine_ok ?s6" using growsD(1) [OF g] live by (auto simp: machine_ok_def)
  moreover have "mem ?s6 y = mem s y" if "y \<notin> kvacant s" "y \<notin> addrs P 92" for y
    using g that by (simp add: grows_def memset_apply)
  moreover have "distinct [a, b, c]" "klive s a = None" "klive s b = None" "klive s c = None"
    using 2(5,6) 3(5,6) 4(5) by (auto split: if_splits)
  moreover have "machine.more ?s6 = machine.more s" using 2(8) 3(8) 4(8) by (simp add: klog_def put_obj_def)
  ultimately show ?thesis
    using run live 2(4,7) 3(4,7) 4(4,7) g unfolding states
    by (intro exI [of _ ?s6] exI [of _ a] exI [of _ b] exI [of _ c]) (simp add: grows_def)
qed

section \<open>The root directory\<close>

definition mounted_root :: "(nat \<Rightarrow> u8 list) \<Rightarrow> nat \<Rightarrow> u32 \<Rightarrow> fat_directory" where
  "mounted_root img k dir = \<lparr>dir_item = dir, dir_total = used_items img (512 * root_sector img) k,
     sector_pos = int (root_sector img), ending_sector_pos = int (root_sector img + 32 * root_entries img div 512)\<rparr>"

lemma header_fields:
  assumes "bytes_at m P 62 = disk_bytes img 0 62"
  shows "h_fat_copies m P * h_sectors_per_fat m P + h_reserved_sectors m P = int (root_sector img)"
    and "h_root_dir_entries m P = int (root_entries img)" and "h_signature m P = disk_byte img 38"
proof -
  have "m (P + of_nat 16) = disk_byte img 16" "m (P + of_nat 38) = disk_byte img 38"
    using arg_cong [OF assms, of "\<lambda>b. b ! 16"] arg_cong [OF assms, of "\<lambda>b. b ! 38"] by (simp_all add: disk_bytes_nth)
  then show "h_fat_copies m P * h_sectors_per_fat m P + h_reserved_sectors m P = int (root_sector img)"
      "h_signature m P = disk_byte img 38"
    using load16_disk [OF assms, of 22] load16_disk [OF assms, of 14]
    by (simp_all add: h_fat_copies_def h_sectors_per_fat_def h_reserved_sectors_def root_sector_def h_signature_def)
  show "h_root_dir_entries m P = int (root_entries img)"
    using load16_disk [OF assms, of 17] by (simp add: h_root_dir_entries_def root_entries_def)
qed

lemma root_directory_read:
  assumes dev: "ata_ok dev img" and disk: "fat16_disk img k" and ok: "machine_ok s" and dk: "disk_at s d = Some dk" "sector_size dk = 512"
    and pr: "disk_private s d = Some (P, pr)" and st: "stream_on s (directory_stream pr)"
    and header: "bytes_at (mem s) P 62 = disk_bytes img 0 62" and room: "0 < kroom s"
  shows "\<exists>dir s' h. fat16_get_root_directory dev d P s = Some (0, s') \<and> machine_ok s' \<and> klive s dir = None \<and>
    klive s' = (klive s)(dir \<mapsto> 1) \<and> kroom s = kroom s' + 1 \<and> kvacant s' \<subseteq> kvacant s \<and> addrs dir 4096 \<subseteq> kvacant s \<and>
    bytes_at (mem s') dir (32 * root_entries img) = disk_bytes img (512 * root_sector img) (32 * root_entries img) \<and>
    (\<forall>x. x \<notin> kvacant s \<longrightarrow> mem s' x = mem s x) \<and>
    objs s' = (objs s)(directory_stream pr \<mapsto> stream_state (512 * root_sector img + 32 * root_entries img) s,
      P \<mapsto> Obj_private (pr\<lparr>root_dir := mounted_root img k dir\<rparr>)) \<and>
    disk_var s' = disk_var s \<and> disk_address s' = disk_address s"
proof -
  let ?p = "512 * root_sector img" and ?n = "32 * root_entries img" and ?st = "directory_stream pr"
  have n: "0 < ?n" "?n \<le> 4096" "?p + ?n < 2 ^ 31" "?p + 32 * Suc k < 2 ^ 31"
    "\<And>i. i < k \<Longrightarrow> disk_byte img (?p + 32 * i) \<noteq> 0" "disk_byte img (?p + 32 * k) = 0"
    using disk by (simp_all add: fat16_disk_def)
  note h = header_fields [OF header]
  have P: "private_at s P = Some pr" using pr by (auto simp: disk_private_def bind_eq_Some_conv)
  let ?t = "put_obj ?st (stream_state ?p s) s"
  have "objs ?t ?st = Some (stream_state ?p ?t)" by (simp add: stream_state_def)
  then obtain io1 where "count_items dev ?st 0 ?t =
      Some (0 + used_items img ?p k, put_obj ?st (stream_state (?p + 32 * Suc k) ?t) (?t\<lparr>io := io1\<rparr>))"
    using count_items_used [OF dev, of ?t ?st ?p k 0] n(4-6) by (auto simp: mod_mult_left_eq)
  moreover define s1 where "s1 = put_obj ?st (stream_state (?p + 32 * Suc k) ?t) (?t\<lparr>io := io1\<rparr>)"
  ultimately have count: "fat16_get_total_items_for_directory dev d (int (root_sector img)) s = Some (used_items img ?p k, s1)"
    using dk pr seek_then [OF st, of ?p] by (simp add: fat16_get_total_items_for_directory_def Let_def mult.commute [of _ 512])
  have s1: "mem s1 = mem s" "klive s1 = klive s" "kroom s1 = kroom s" "kvacant s1 = kvacant s" "disk_var s1 = disk_var s" "disk_address s1 = disk_address s"
    "objs s1 = (objs s)(?st \<mapsto> stream_state (?p + 32 * Suc k) s)" "kheap_ok s1 = kheap_ok s"
    by (simp_all add: s1_def put_obj_def kheap_defs stream_state_def)
  have live: "klive s ?st \<noteq> None" using st object_live [OF ok] by (auto simp: stream_on_def)
  then have ok1: "machine_ok s1" using ok by (auto simp: machine_ok_def s1)
  obtain dir s2 where 2: "kzalloc s1 (of_nat ?n) = (dir, s2)" "dir \<noteq> 0" "grows s1 s2" "kroom s1 = kroom s2 + 1" "klive s1 dir = None"
    "klive s2 = (klive s1)(dir \<mapsto> 1)" "objs s2 = objs s1" "machine.more s2 = machine.more s1" "addrs dir 4096 \<subseteq> kvacant s1"
    using kzalloc_small [OF ok1 n(1,2)] room s1(3) by auto
  have keep2: "disk_var s2 = disk_var s" "disk_address s2 = disk_address s" using more_disk [OF 2(8)] s1 by simp_all
  have st2: "stream_on s2 ?st" by (simp add: stream_on_def 2(7) s1(7) stream_state_def keep2)
  let ?s3 = "put_obj ?st (stream_state ?p s2) s2"
  have "objs ?s3 ?st = Some (stream_state ?p ?s3)" by (simp add: stream_state_def)
  then obtain io2 where fetch: "disk_stream_fetch dev ?st (int ?n) ?s3 =
      Some (0, disk_bytes img ?p ?n, put_obj ?st (stream_state (?p + ?n) ?s3) (?s3\<lparr>io := io2\<rparr>))"
    using fetch_many [OF dev, of ?s3 ?st ?p ?n] n(3) by auto
  define s4 where "s4 = put_obj ?st (stream_state (?p + ?n) ?s3) (?s3\<lparr>io := io2\<rparr>)\<lparr>mem := write_bytes dir (disk_bytes img ?p ?n) (mem s2)\<rparr>"
  have read: "disk_stream_read dev ?st dir (int ?n) ?s3 = Some (0, s4)"
    using fetch by (simp add: disk_stream_read_def s4_def)
  have Pst: "P \<noteq> ?st" using P st by (auto simp: private_at_def stream_on_def)
  have P2: "private_at s2 P = Some pr" using P Pst by (simp add: private_at_def 2(7) s1(7))
  let ?s5 = "put_obj P (Obj_private (pr\<lparr>root_dir := mounted_root img k dir\<rparr>)) s4"
  have "int ?n sdiv 512 = int (?n div 512)" by (rule sdiv_512(1))
  then have run: "fat16_get_root_directory dev d P s = Some (0, ?s5)"
    using dk h count 2(1,2) P2 seek_then [OF st2, of ?p] read
    by (simp add: fat16_get_root_directory_def Let_def sizeof_item_def fat16_sector_to_absolute_def mounted_root_def mult.commute [of _ 512] mult.commute [of _ 32])
  have s4: "klive s4 = klive s2" "kroom s4 = kroom s2" "kvacant s4 = kvacant s2" "kheap_ok s4 = kheap_ok s2"
    "objs s4 = (objs s2)(?st \<mapsto> stream_state (?p + ?n) s2)" "mem s4 = write_bytes dir (disk_bytes img ?p ?n) (mem s2)"
    "disk_var s4 = disk_var s2" "disk_address s4 = disk_address s2"
    by (simp_all add: s4_def put_obj_def kheap_defs stream_state_def)
  have "machine_ok ?s5"
    using growsD(1) [OF 2(3)] live P object_live [OF ok, of P] 2(6)
    by (auto simp: machine_ok_def s4 private_at_def s1(2) split: option.splits)
  moreover have "mem ?s5 x = mem s x" if x: "x \<notin> kvacant s" for x
  proof -
    have "addrs dir ?n \<subseteq> addrs dir 4096" using n(2) by (rule addrs_mono)
    then have "x \<notin> addrs dir ?n" using x 2(9) s1(4) by blast
    then show ?thesis using x 2(3) by (simp add: s4 write_bytes_outside grows_def s1)
  qed
  moreover have "bytes_at (mem ?s5) dir ?n = disk_bytes img ?p ?n"
    using bytes_at_write_bytes [of "disk_bytes img ?p ?n" dir "mem s2"] n(2) by (simp add: s4)
  moreover have "stream_state (?p + ?n) s2 = stream_state (?p + ?n) s" using keep2 by (simp add: stream_state_def)
  ultimately show ?thesis
    using run 2(3-6,9) 2(7) keep2
    by (intro exI [of _ dir] exI [of _ ?s5]) (simp add: s1 s4 grows_def)
qed

section \<open>Mounting\<close>

lemma disk_var_heap [simp]:
  "machine_ok (s\<lparr>disk_var := v\<rparr>) = machine_ok s" "klive (s\<lparr>disk_var := v\<rparr>) = klive s" "kroom (s\<lparr>disk_var := v\<rparr>) = kroom s"
  "kvacant (s\<lparr>disk_var := v\<rparr>) = kvacant s"
  by (simp_all add: machine_ok_def kheap_defs)

lemma more_fs16: "machine.more s' = machine.more s \<Longrightarrow> fat16_fs_address s' = fat16_fs_address s"
  for s s' :: "'a disk_machine_scheme"
  by (cases s; cases s') simp

lemma header_read:
  assumes dev: "ata_ok dev img" and ok: "machine_ok s" and e: "objs s e = Some (stream_state 0 s)" and P: "addrs P 62 \<inter> kvacant s = {}"
  shows "\<exists>s'. disk_stream_read dev e P sizeof_fat_h s = Some (0, s') \<and> bytes_at (mem s') P 62 = disk_bytes img 0 62 \<and>
    machine_ok s' \<and> objs s' = (objs s)(e \<mapsto> stream_state 62 s) \<and> g_kernel_heap s' = g_kernel_heap s \<and>
    disk_var s' = disk_var s \<and> disk_address s' = disk_address s \<and> (\<forall>x. x \<notin> addrs P 62 \<longrightarrow> mem s' x = mem s x)"
proof -
  obtain h where "disk_stream_fetch dev e (int 62) s = Some (0, disk_bytes img 0 62, put_obj e (stream_state 62 s) (s\<lparr>io := h\<rparr>))"
    using fetch_one [OF dev e, of 62] by auto
  moreover define s' where "s' = put_obj e (stream_state 62 s) (s\<lparr>io := h\<rparr>)\<lparr>mem := write_bytes P (disk_bytes img 0 62) (mem s)\<rparr>"
  ultimately have "disk_stream_read dev e P sizeof_fat_h s = Some (0, s')" by (simp add: disk_stream_read_def sizeof_fat_h_def)
  moreover have "machine_ok s'" using ok object_live [OF ok e] by (auto simp: machine_ok_def s'_def kheap_defs put_obj_def)
  moreover have "bytes_at (mem s') P 62 = disk_bytes img 0 62"
    using bytes_at_write_bytes [of "disk_bytes img 0 62" P "mem s"] by (simp add: s'_def)
  ultimately show ?thesis
    by (intro exI [of _ s']) (simp add: s'_def put_obj_def write_bytes_outside)
qed

text \<open>What is left of \<open>fat16_resolve\<close> once the private data and the stream are there.\<close>

definition resolve_rest :: "device \<Rightarrow> u32 \<Rightarrow> u32 \<Rightarrow> u32 \<Rightarrow> 'a disk_machine_scheme \<Rightarrow> (int \<times> 'a disk_machine_scheme) option" where
  "resolve_rest dev d P stream s = do {
     (res, s) \<leftarrow> fat16_load_header dev d P stream s;
     s \<leftarrow> (if stream \<noteq> 0 then release_disk_stream stream s else Some s);
     if res < 0 then do {
       s \<leftarrow> kfree s P;
       let s = s\<lparr>disk_var := (disk_var s)\<lparr>fs_private_data := 0\<rparr>\<rparr>;
       Some (res, klog ''FAT16 filesystem is failed to resolve the disk.\<newline>'' s) }
     else Some (res, s) }"

lemma resolve_starts:
  assumes ok: "machine_ok s" and d: "d = disk_address s" "d \<noteq> 0" "disk_id (disk_var s) = 0" and room: "6 \<le> kroom s"
  shows "\<exists>P a b c e s5. fat16_resolve dev d s = resolve_rest dev d P e s5 \<and> machine_ok s5 \<and> e \<noteq> 0 \<and>
    klive s5 = (klive s)(P \<mapsto> 1, a \<mapsto> 1, b \<mapsto> 1, c \<mapsto> 1, e \<mapsto> 1) \<and> distinct [P, a, b, c, e] \<and>
    klive s P = None \<and> klive s a = None \<and> klive s b = None \<and> klive s c = None \<and> klive s e = None \<and>
    objs s5 = (objs s)(P \<mapsto> Obj_private \<lparr>root_dir = no_root, cluster_read_stream = a, fat_read_stream = b, directory_stream = c\<rparr>,
      a \<mapsto> stream_state 0 s, b \<mapsto> stream_state 0 s, c \<mapsto> stream_state 0 s, e \<mapsto> stream_state 0 s) \<and>
    disk_var s5 = (disk_var s)\<lparr>fs_private_data := P, disk_fs := fat16_fs_address s\<rparr> \<and> disk_address s5 = disk_address s \<and>
    kroom s = kroom s5 + 5 \<and> kvacant s5 \<subseteq> kvacant s \<and> addrs P 4096 \<subseteq> kvacant s \<and> addrs e 4096 \<subseteq> kvacant s \<and>
    (\<forall>x. x \<notin> kvacant s \<longrightarrow> mem s5 x = mem s x)"
proof -
  let ?z = "Obj_private \<lparr>root_dir = no_root, cluster_read_stream = 0, fat_read_stream = 0, directory_stream = 0\<rparr>"
  obtain co where log: "klog_number 0 (klog ''FAT16 filesystem is trying to resolve the disk: '' s) = Some (s\<lparr>con := co\<rparr>)"
    using klog_number_returns [of 0 "klog ''FAT16 filesystem is trying to resolve the disk: '' s"] by (auto simp: klog_def)
  define s1 where "s1 = klog ''.\<newline>'' (s\<lparr>con := co\<rparr>)"
  have s1: "machine_ok s1" "klive s1 = klive s" "kroom s1 = kroom s" "kvacant s1 = kvacant s" "mem s1 = mem s" "objs s1 = objs s"
    "machine.more s1 = machine.more s"
    using ok by (simp_all add: s1_def klog_def machine_ok_def)
  obtain P s2 where 2: "kzalloc_obj s1 92 ?z = (P, s2)" "P \<noteq> 0" "grows s1 s2" "kroom s1 = kroom s2 + 1" "klive s1 P = None"
    "klive s2 = (klive s1)(P \<mapsto> 1)" "objs s1 P = None" "objs s2 = (objs s1)(P \<mapsto> ?z)" "machine.more s2 = machine.more s1"
    using kzalloc_obj_fits [OF s1(1), of 92 ?z] room s1(3) by auto
  obtain t where "kzalloc s1 92 = (P, t)" using kzalloc_objE [OF 2(1,2)] .
  then have "addrs P (4096 * blocks_for 92) \<subseteq> kvacant s1" using kzalloc_vacant [OF machine_okD [OF s1(1)] _ 2(2)] by blast
  then have Pv: "addrs P 4096 \<subseteq> kvacant s" by (simp add: blocks_for_def s1(4))
  have d2: "private_at s2 P = Some \<lparr>root_dir = no_root, cluster_read_stream = 0, fat_read_stream = 0, directory_stream = 0\<rparr>"
      "d = disk_address s2" "disk_id (disk_var s2) = 0" "3 \<le> kroom s2"
    using 2(8) more_disk [OF 2(9)] more_disk [OF s1(7)] d 2(4) s1(3) room by (simp_all add: private_at_def)
  obtain s3 a b c where 3: "fat16_init_private_data d P s2 = Some s3" "machine_ok s3" "distinct [a, b, c]"
    "klive s2 a = None" "klive s2 b = None" "klive s2 c = None" "klive s3 = (klive s2)(a \<mapsto> 1, b \<mapsto> 1, c \<mapsto> 1)"
    "objs s3 = (objs s2)(a \<mapsto> stream_state 0 s2, b \<mapsto> stream_state 0 s2, c \<mapsto> stream_state 0 s2,
      P \<mapsto> Obj_private \<lparr>root_dir = no_root, cluster_read_stream = a, fat_read_stream = b, directory_stream = c\<rparr>)"
    "kroom s2 = kroom s3 + 3" "kvacant s3 \<subseteq> kvacant s2" "machine.more s3 = machine.more s2"
    "\<forall>y. y \<notin> kvacant s2 \<longrightarrow> y \<notin> addrs P 92 \<longrightarrow> mem s3 y = mem s2 y"
    using init_private_data [OF growsD(1) [OF 2(3)] d2(1,2) d(2) d2(3,4)] by blast
  let ?pr = "\<lparr>root_dir = no_root, cluster_read_stream = a, fat_read_stream = b, directory_stream = c\<rparr>"
  let ?dk = "(disk_var s)\<lparr>fs_private_data := P, disk_fs := fat16_fs_address s\<rparr>"
  have keep3: "disk_var s3 = disk_var s" "disk_address s3 = disk_address s" "fat16_fs_address s3 = fat16_fs_address s"
    using more_disk [OF 3(11)] more_disk [OF 2(9)] more_disk [OF s1(7)] more_fs16 [OF 3(11)] more_fs16 [OF 2(9)] more_fs16 [OF s1(7)] by simp_all
  define s4 where "s4 = s3\<lparr>disk_var := ?dk\<rparr>"
  have 4: "machine_ok s4" "disk_address s4 \<noteq> 0" "0 < kroom s4" using 3(2,9) keep3 d 2(4) s1(3) room by (simp_all add: s4_def)
  obtain e s5 where 5: "create_disk_stream 0 s4 = Some (e, s5)" "e \<noteq> 0" "grows s4 s5" "kroom s4 = kroom s5 + 1" "klive s4 e = None"
    "klive s5 = (klive s4)(e \<mapsto> 1)" "objs s5 = (objs s4)(e \<mapsto> stream_state 0 s4)" "machine.more s5 = machine.more s4"
    "addrs e 4096 \<subseteq> kvacant s4"
    using create_stream_fits [OF 4] by blast
  have keep5: "disk_var s5 = ?dk" "disk_address s5 = disk_address s" using more_disk [OF 5(8)] keep3 by (simp_all add: s4_def)
  have live5: "klive s5 = (klive s)(P \<mapsto> 1, a \<mapsto> 1, b \<mapsto> 1, c \<mapsto> 1, e \<mapsto> 1)" using 5(6) 3(7) 2(6) s1(2) by (simp add: s4_def)
  have fresh: "distinct [P, a, b, c, e]" "klive s P = None" "klive s a = None" "klive s b = None" "klive s c = None" "klive s e = None"
    using 2(5) 3(3-7) 5(5) by (auto simp: s4_def 2(6) s1(2) split: if_splits)
  have states: "stream_state 0 s2 = stream_state 0 s" "stream_state 0 (s3\<lparr>disk_var := ?dk\<rparr>) = stream_state 0 s"
    using d2(2) d(1) keep3 by (simp_all add: stream_state_def s4_def)
  have "objs s5 = (objs s)(P \<mapsto> Obj_private ?pr, a \<mapsto> stream_state 0 s, b \<mapsto> stream_state 0 s, c \<mapsto> stream_state 0 s, e \<mapsto> stream_state 0 s)"
    using fresh(1) by (auto simp: 5(7) s4_def 3(8) 2(8) s1(6) states fun_eq_iff)
  moreover have "fat16_resolve dev d s = resolve_rest dev d P e s5"
  proof -
    have "disk_at s d = Some (disk_var s)" using d(1) by (simp add: disk_at_def)
    moreover have "(disk_var s3)\<lparr>fs_private_data := P, disk_fs := fat16_fs_address s3\<rparr> = ?dk" by (simp only: keep3)
    ultimately show ?thesis
      using log d(3) 2(1) 3(1) 5(1) by (simp add: fat16_resolve_def resolve_rest_def s1_def s4_def Let_def)
  qed
  moreover have sub: "kvacant s3 \<subseteq> kvacant s" "kvacant s5 \<subseteq> kvacant s3"
    using 2(3) 3(10) 5(3) by (auto simp: grows_def s1(4) s4_def)
  moreover have "mem s5 x = mem s x" if x: "x \<notin> kvacant s" for x
  proof -
    have "addrs P 92 \<subseteq> addrs P 4096" by (rule addrs_mono) simp
    then have "x \<notin> addrs P 92" "x \<notin> kvacant s2" "x \<notin> kvacant s3" using x Pv sub(1) 2(3) by (auto simp: grows_def s1(4))
    then show ?thesis using x 5(3) 3(12) 2(3) by (simp add: grows_def s4_def s1)
  qed
  moreover have "addrs e 4096 \<subseteq> kvacant s" using 5(9) sub(1) by (simp add: s4_def)
  ultimately show ?thesis
    using growsD(1) [OF 5(3)] 5(2,4) live5 fresh keep5 Pv 2(4) 3(9) s1(3)
    by (intro exI [of _ P] exI [of _ a] exI [of _ b] exI [of _ c] exI [of _ e] exI [of _ s5]) (simp add: s4_def)
qed

lemma resolve_mounts:
  assumes dev: "ata_ok dev img" and disk: "fat16_disk img k" and ok: "machine_ok s"
    and d: "d = disk_address s" "d \<noteq> 0" "disk_id (disk_var s) = 0" "sector_size (disk_var s) = 512" and room: "6 \<le> kroom s"
  shows "\<exists>P dir pr s'. fat16_resolve dev d s = Some (0, s') \<and> machine_ok s' \<and> disk_private s' d = Some (P, pr) \<and>
    root_dir pr = mounted_root img k dir \<and> stream_on s' (cluster_read_stream pr) \<and> stream_on s' (fat_read_stream pr) \<and>
    stream_on s' (directory_stream pr) \<and> bytes_at (mem s') P 62 = disk_bytes img 0 62 \<and>
    bytes_at (mem s') dir (32 * root_entries img) = disk_bytes img (512 * root_sector img) (32 * root_entries img) \<and>
    disk_var s' = (disk_var s)\<lparr>fs_private_data := P, disk_fs := fat16_fs_address s\<rparr> \<and> disk_address s' = d \<and>
    klive s P = None \<and> klive s' P = Some 1 \<and> klive s dir = None \<and> klive s' dir = Some 1 \<and> P \<noteq> dir \<and>
    addrs P 4096 \<subseteq> kvacant s \<and> addrs dir 4096 \<subseteq> kvacant s \<and>
    kroom s = kroom s' + 5 \<and> kvacant s' \<subseteq> kvacant s \<and> (\<forall>x. x \<notin> kvacant s \<longrightarrow> mem s' x = mem s x) \<and>
    (\<forall>r. klive s r \<noteq> None \<longrightarrow> klive s' r = klive s r \<and> objs s' r = objs s r)"
proof -
  obtain P a b c e s5 where 5: "fat16_resolve dev d s = resolve_rest dev d P e s5" "machine_ok s5" "e \<noteq> 0"
    "klive s5 = (klive s)(P \<mapsto> 1, a \<mapsto> 1, b \<mapsto> 1, c \<mapsto> 1, e \<mapsto> 1)" "distinct [P, a, b, c, e]"
    "klive s P = None" "klive s a = None" "klive s b = None" "klive s c = None" "klive s e = None"
    "objs s5 = (objs s)(P \<mapsto> Obj_private \<lparr>root_dir = no_root, cluster_read_stream = a, fat_read_stream = b, directory_stream = c\<rparr>,
      a \<mapsto> stream_state 0 s, b \<mapsto> stream_state 0 s, c \<mapsto> stream_state 0 s, e \<mapsto> stream_state 0 s)"
    "disk_var s5 = (disk_var s)\<lparr>fs_private_data := P, disk_fs := fat16_fs_address s\<rparr>" "disk_address s5 = disk_address s"
    "kroom s = kroom s5 + 5" "kvacant s5 \<subseteq> kvacant s" "addrs P 4096 \<subseteq> kvacant s" "addrs e 4096 \<subseteq> kvacant s"
    "\<forall>x. x \<notin> kvacant s \<longrightarrow> mem s5 x = mem s x"
    using resolve_starts [OF ok d(1-3) room, of dev] by (elim exE conjE) (rule that)
  let ?pr = "\<lparr>root_dir = no_root, cluster_read_stream = a, fat_read_stream = b, directory_stream = c\<rparr>"
  let ?pr' = "\<lambda>dir. \<lparr>root_dir = mounted_root img k dir, cluster_read_stream = a, fat_read_stream = b, directory_stream = c\<rparr>"
  have e5: "objs s5 e = Some (stream_state 0 s5)" using 5(13) by (simp add: 5(11) stream_state_def)
  have P62: "addrs P 62 \<subseteq> addrs P 4096" by (rule addrs_mono) simp
  have "addrs P (4096 * 1) \<inter> kvacant s5 = {}"
    by (rule klive_vacant [OF machine_okD [OF 5(2)]]) (use 5(5) in \<open>simp add: 5(4)\<close>)
  then have P5: "addrs P 62 \<inter> kvacant s5 = {}" using P62 by auto
  obtain s6 where 6: "disk_stream_read dev e P sizeof_fat_h s5 = Some (0, s6)" "bytes_at (mem s6) P 62 = disk_bytes img 0 62"
    "machine_ok s6" "objs s6 = (objs s5)(e \<mapsto> stream_state 62 s5)" "g_kernel_heap s6 = g_kernel_heap s5" "disk_var s6 = disk_var s5"
    "disk_address s6 = disk_address s5" "\<forall>x. x \<notin> addrs P 62 \<longrightarrow> mem s6 x = mem s5 x"
    using header_read [OF dev 5(2) e5 P5] by blast
  define s7 where "s7 = klog ''FAT16 filesystem reads headers of boot sector successfully.\<newline>'' s6"
  have heap7: "klive s7 = klive s5" "kvacant s7 = kvacant s5" "kroom s7 = kroom s5" by (simp_all add: s7_def kheap_defs 6(5))
  have s7: "machine_ok s7" "objs s7 = objs s6" "mem s7 = mem s6" "disk_var s7 = disk_var s5" "disk_address s7 = disk_address s"
    using 6(3) 5(13) by (simp_all add: s7_def klog_def machine_ok_def 6(6,7))
  have dk7: "disk_at s7 d = Some (disk_var s7)" "sector_size (disk_var s7) = 512" using d s7 5(12) by (simp_all add: disk_at_def)
  have pr7: "disk_private s7 d = Some (P, ?pr)"
    using dk7(1) 5(5,12) by (simp add: disk_private_def private_at_def s7 6(4) 5(11))
  have st7: "stream_on s7 (directory_stream ?pr)" using 5(5) by (simp add: stream_on_def s7 6(4) 5(11) stream_state_def)
  have h7: "bytes_at (mem s7) P 62 = disk_bytes img 0 62" by (simp add: s7 6(2))
  obtain dir s8 where 8: "fat16_get_root_directory dev d P s7 = Some (0, s8)" "machine_ok s8" "klive s7 dir = None"
    "klive s8 = (klive s7)(dir \<mapsto> 1)" "kroom s7 = kroom s8 + 1" "kvacant s8 \<subseteq> kvacant s7" "addrs dir 4096 \<subseteq> kvacant s7"
    "bytes_at (mem s8) dir (32 * root_entries img) = disk_bytes img (512 * root_sector img) (32 * root_entries img)"
    "\<forall>x. x \<notin> kvacant s7 \<longrightarrow> mem s8 x = mem s7 x"
    "objs s8 = (objs s7)(c \<mapsto> stream_state (512 * root_sector img + 32 * root_entries img) s7, P \<mapsto> Obj_private (?pr' dir))"
    "disk_var s8 = disk_var s7" "disk_address s8 = disk_address s7"
    using root_directory_read [OF dev disk s7(1) dk7 pr7 st7 h7] room 5(14) heap7 by auto
  have total: "0 \<le> used_items img (512 * root_sector img) k" "used_items img (512 * root_sector img) k < 2 ^ 31"
  proof -
    have "int k < 2 ^ 31" using disk by (simp add: fat16_disk_def)
    moreover have "length (filter Q [0..<k]) \<le> k" for Q using length_filter_le [of Q "[0..<k]"] by simp
    ultimately show "used_items img (512 * root_sector img) k < 2 ^ 31" unfolding used_items_def
      by (metis le_less_trans of_nat_le_iff)
  qed (simp add: used_items_def)
  obtain s9 co where 9: "klog_number (used_items img (512 * root_sector img) k)
      (klog ''FAT16 filesystem loaded root directory successfully with total entry: '' s8) = Some s9" "klog ''.\<newline>'' s9 = s8\<lparr>con := co\<rparr>"
    using klog_number_returns [OF total, of "klog ''FAT16 filesystem loaded root directory successfully with total entry: '' s8"]
    by (auto simp: klog_def)
  let ?s10 = "s8\<lparr>con := co\<rparr>"
  have "private_at (klog t s8) P = Some (?pr' dir)" for t by (simp add: private_at_def 8(10))
  moreover have "h_signature (mem s6) P = FAT16_SIGNATURE"
    using header_fields(3) [OF 6(2)] disk by (simp add: fat16_disk_def FAT16_SIGNATURE_def)
  ultimately have load: "fat16_load_header dev d P e s5 = Some (0, ?s10)"
    using 5(3) 6(1) 8(1) 9 by (simp add: fat16_load_header_def s7_def mounted_root_def Let_def)
  have live10: "machine_ok ?s10" "klive ?s10 e = Some 1"
    using 8(2,3) 5(5) by (simp_all add: machine_ok_def 8(4) heap7 5(4))
  obtain s11 where 11: "kfree ?s10 e = Some s11" "machine_ok s11" "klive s11 = (klive ?s10)(e := None)" "kroom s11 = kroom ?s10 + 1"
    "objs s11 = (objs ?s10)(e := None)" "machine.more s11 = machine.more ?s10"
    using kfree_one [OF live10] .
  have run: "fat16_resolve dev d s = Some (0, s11)" using 5(1,3) load 11(1) by (simp add: resolve_rest_def release_disk_stream_def)
  have mem11: "mem s11 = mem s8" using kfree_mem [OF 11(1)] by simp
  have keep11: "disk_var s11 = disk_var s5" "disk_address s11 = disk_address s" using more_disk [OF 11(6)] 8(11,12) s7(4,5) by simp_all
  have objs11: "objs s11 = (objs s)(P \<mapsto> Obj_private (?pr' dir), a \<mapsto> stream_state 0 s, b \<mapsto> stream_state 0 s,
      c \<mapsto> stream_state (512 * root_sector img + 32 * root_entries img) s7, e := None)"
    using 5(5) by (auto simp: 11(5) 8(10) s7(2) 6(4) 5(11) fun_eq_iff)
  have live11: "klive s11 = (klive s)(P \<mapsto> 1, a \<mapsto> 1, b \<mapsto> 1, c \<mapsto> 1, dir \<mapsto> 1)"
    using 5(5,10) 8(3) by (auto simp: 11(3) 8(4) heap7 5(4) fun_eq_iff)
  have "kvacant s11 = kvacant ?s10 \<union> addrs e (4096 * 1)"
    using kfree_live [OF machine_okD [OF live10(1)] live10(2)] 11(1) by auto
  then have "kvacant s11 \<subseteq> kvacant s" using 8(6) 5(15,17) by (auto simp: heap7)
  moreover have "mem s11 x = mem s x" if x: "x \<notin> kvacant s" for x
  proof -
    have "x \<notin> kvacant s5" "x \<notin> addrs P 62" using x 5(15,16) P62 by blast+
    then show ?thesis using 5(18) 6(8) 8(9) x by (simp add: mem11 heap7 s7(3))
  qed
  moreover have "bytes_at (mem s11) P 62 = disk_bytes img 0 62"
  proof -
    have "bytes_at (mem s8) P 62 = bytes_at (mem s7) P 62" using P5 8(9) by (intro bytes_at_cong) (auto simp: heap7)
    then show ?thesis using h7 by (simp add: mem11)
  qed
  moreover have "disk_private s11 d = Some (P, ?pr' dir)"
    using d(1) 5(5) by (simp add: disk_private_def disk_at_def keep11 5(12) private_at_def objs11)
  moreover have "stream_on s11 a" "stream_on s11 b" "stream_on s11 c"
    using 5(5) by (simp_all add: stream_on_def objs11 keep11 stream_state_def s7(5))
  moreover have "klive s dir = None" "P \<noteq> dir" "\<forall>r. klive s r \<noteq> None \<longrightarrow> klive s11 r = klive s r \<and> objs s11 r = objs s r"
    using 8(3) 5(6-10) by (auto simp: heap7 5(4) live11 objs11 split: if_splits)
  moreover have "addrs dir 4096 \<subseteq> kvacant s" using 8(7) 5(15) by (simp add: heap7)
  ultimately show ?thesis
    using run 11(2,4) 8(5,8) 5(6,12,14,16) keep11 d(1) heap7(3)
    by (intro exI [of _ P] exI [of _ dir] exI [of _ "?pr' dir"] exI [of _ s11]) (simp add: live11 mem11)
qed

end
