(* ===== verification/Mount_Properties.thy ===== *)
theory Mount_Properties
  imports Fat16_Mount Example_Machine
begin

text \<open>
  What mounting promises: the private data of a mounted disk hold the header, the root directory and
  the place of that directory as they are on the disk.
\<close>

section \<open>An example disk\<close>

text \<open>
  The fields the boot sector of the system gives: 128 sectors per cluster, 200 reserved sectors, two
  copies of the table with 256 sectors each, 64 entries in the root directory. The directory, in
  sector 712, holds \<open>HELLO.TXT\<close>.
\<close>

definition boot_sector :: "u8 list" where
  "boot_sector = (replicate 512 0)[13 := 0x80, 14 := 200, 16 := 2, 17 := 64, 23 := 1, 38 := 0x29]"

definition boot_image :: "nat \<Rightarrow> u8 list" where
  "boot_image l = (if l = 0 then boot_sector else if l = 712 then hello_item @ replicate 480 0 else replicate 512 0)"

lemma boot_image_ok: "ata_ok (ata_disk boot_image) boot_image"
  by (rule ata_disk_ok) (simp add: boot_image_def boot_sector_def hello_item_def)

lemma boot_root: "root_entries boot_image = 64" "root_sector boot_image = 712"
  by (simp_all add: root_entries_def root_sector_def disk_word_def disk_byte_def boot_image_def boot_sector_def)

lemma boot_fat16: "fat16_disk boot_image 1"
  by (simp add: fat16_disk_def boot_root) (simp add: disk_byte_def boot_image_def boot_sector_def hello_item_def)

lemma boot_item: "disk_bytes boot_image (512 * 712) 32 = hello_item"
proof (rule nth_equalityI)
  have l: "length hello_item = 32" by (simp add: hello_item_def)
  fix i assume "i < length (disk_bytes boot_image (512 * 712) 32)"
  then have i: "i < 32" by simp
  then have "(512 * 712 + i) div 512 = 712" by (simp add: div_nat_eqI)
  moreover have "(512 * 712 + i) mod 512 = i" using i mod_mult_self4 [of 512 712 i] by simp
  ultimately show "disk_bytes boot_image (512 * 712) 32 ! i = hello_item ! i"
    using i l by (simp add: disk_bytes_def boot_image_def nth_append)
qed (simp add: hello_item_def)

lemma boot_total: "used_items boot_image (512 * 712) 1 = 1"
  by (simp add: used_items_def disk_byte_def boot_image_def hello_item_def)

section \<open>Properties\<close>

text \<open>
  C5. On a disk with the FAT16 signature and a root directory of at most a page in the first 2
  GB, and with six free blocks, \<open>fat16_resolve\<close> returns 0 and mounts the disk:
  the private data hold the header as it is in sector 0 and the root directory as it is in the
  sector that the header points to, with the number of its entries that are not deleted, and
  three streams on the disk; nothing that was in use changes.
\<close>

lemma mount_reads_disk:
  assumes "ata_ok dev img" and "fat16_disk img k" and "machine_ok s" and "d = disk_address s" "d \<noteq> 0"
    and "disk_id (disk_var s) = 0" "sector_size (disk_var s) = 512" and "6 \<le> kroom s"
  shows "\<exists>P dir pr s'. fat16_resolve dev d s = Some (0, s') \<and> machine_ok s' \<and> disk_private s' d = Some (P, pr) \<and>
    root_dir pr = mounted_root img k dir \<and> stream_on s' (cluster_read_stream pr) \<and> stream_on s' (fat_read_stream pr) \<and>
    stream_on s' (directory_stream pr) \<and> bytes_at (mem s') P 62 = disk_bytes img 0 62 \<and>
    bytes_at (mem s') dir (32 * root_entries img) = disk_bytes img (512 * root_sector img) (32 * root_entries img) \<and>
    disk_var s' = (disk_var s)\<lparr>fs_private_data := P, disk_fs := fat16_fs_address s\<rparr> \<and> kroom s = kroom s' + 5 \<and>
    (\<forall>x. x \<notin> kvacant s \<longrightarrow> mem s' x = mem s x) \<and>
    (\<forall>r. klive s r \<noteq> None \<longrightarrow> klive s' r = klive s r \<and> objs s' r = objs s r)"
  using resolve_mounts [OF assms] by (elim exE conjE) (intro exI conjI, assumption+)

lemma mount_reads_disk_witness:
  "\<exists>P pr s'. fat16_resolve (ata_disk boot_image) 0x8000 fat_machine = Some (0, s') \<and>
     disk_private s' 0x8000 = Some (P, pr) \<and> dir_total (root_dir pr) = 1 \<and> sector_pos (root_dir pr) = 712 \<and>
     bytes_at (mem s') (dir_item (root_dir pr)) 32 = hello_item"
proof -
  obtain P dir pr s' where 1: "fat16_resolve (ata_disk boot_image) 0x8000 fat_machine = Some (0, s')"
    "disk_private s' 0x8000 = Some (P, pr)" "root_dir pr = mounted_root boot_image 1 dir"
    "bytes_at (mem s') dir (32 * 64) = disk_bytes boot_image (512 * 712) (32 * 64)"
    using mount_reads_disk [OF boot_image_ok boot_fat16 fat_machine_ok(1), of "0x8000"]
    by (auto simp: fat_disk_def fat_machine_ok boot_root)
  have "take 32 (bytes_at (mem s') dir (32 * 64)) = take 32 (disk_bytes boot_image (512 * 712) (32 * 64))" by (simp only: 1(4))
  moreover have "take 32 (disk_bytes boot_image (512 * 712) (32 * 64)) = disk_bytes boot_image (512 * 712) 32"
    using disk_bytes_append [of boot_image "512 * 712" 32 2016] by simp
  moreover have "take 32 (bytes_at (mem s') dir (32 * 64)) = bytes_at (mem s') dir 32"
    using bytes_at_append [of "mem s'" dir 32 2016] by simp
  ultimately have "bytes_at (mem s') dir 32 = hello_item" by (simp only: boot_item)
  then show ?thesis using 1(1-3) boot_total by (auto simp: mounted_root_def boot_root)
qed

end
