(* ===== verification/Tasks.thy ===== *)
theory Tasks
  imports Vfs Descriptors Paging
begin

text \<open>
  Tasks, \<open>task/task.c\<close>: the linked list of tasks, the switch to a task's page directory, saving
  the registers of an interrupted task, and copying a string out of a task's memory. A
  \<open>struct task\<close> is an object of the store. The assembly routines are what they do to the
  machine: \<open>load_user_data_segment_registers\<close> loads the data segment registers, \<open>task_return\<close>
  leaves the kernel with the registers it is given. While a task's page directory is loaded the
  code reads and writes through the page tables; \<open>translate\<close> is the walk of the processor.
\<close>

section \<open>State and constants\<close>

definition PROGRAM_VIRTUAL_ADDRESS :: u32 where "PROGRAM_VIRTUAL_ADDRESS = 0x400000"
definition USER_PROGRAM_STACK_SIZE :: u32 where "USER_PROGRAM_STACK_SIZE = 1024 * 16"
definition PROGRAM_VIRTUAL_STACK_ADDRESS_START :: u32 where "PROGRAM_VIRTUAL_STACK_ADDRESS_START = 0x3FF000"
definition USER_DATA_SEGMENT :: u32 where "USER_DATA_SEGMENT = 0x23"
definition USER_CODE_SEGMENT :: u32 where "USER_CODE_SEGMENT = 0x1b"
definition KERNEL_DATA_SELECTOR :: u32 where "KERNEL_DATA_SELECTOR = 0x10"
definition MAX_PROCESSES :: nat where "MAX_PROCESSES = 20"

lemmas task_consts = PROGRAM_VIRTUAL_ADDRESS_def USER_PROGRAM_STACK_SIZE_def PROGRAM_VIRTUAL_STACK_ADDRESS_START_def
  USER_DATA_SEGMENT_def USER_CODE_SEGMENT_def KERNEL_DATA_SELECTOR_def MAX_PROCESSES_def

text \<open>
  The globals of \<open>paging.c\<close>, \<open>task.c\<close> and \<open>process.c\<close>, and the data segment registers, which
  are always loaded together. The last two fields are addresses that the build chooses: of the
  string literals, and of the local \<open>struct file_stat\<close> of \<open>process_load_binary\<close>.
\<close>

record kernel = fs_machine +
  paging :: vm
  data_segments :: u32
  current_task :: u32
  tail_task :: u32
  head_task :: u32
  current_process :: u32
  processes :: "u32 list"
  literal :: "string \<Rightarrow> u32"
  stat_local :: u32

text \<open>\<open>struct interrupt_frame\<close>: what the processor and \<open>pushad\<close> leave on the kernel stack.\<close>

record interrupt_frame =
  frame_edi :: u32
  frame_esi :: u32
  frame_ebp :: u32
  frame_reserved :: u32
  frame_ebx :: u32
  frame_edx :: u32
  frame_ecx :: u32
  frame_eax :: u32
  frame_ip :: u32
  frame_cs :: u32
  frame_flags :: u32
  frame_esp :: u32
  frame_ss :: u32

definition zero_task :: task where
  "zero_task = \<lparr>page_directory = 0,
     task_registers = \<lparr>reg_edi = 0, reg_esi = 0, reg_ebp = 0, reg_ebx = 0, reg_edx = 0, reg_ecx = 0, reg_eax = 0,
       reg_ip = 0, reg_cs = 0, reg_flags = 0, reg_esp = 0, reg_ss = 0\<rparr>,
     task_next = 0, task_prev = 0, task_proc = 0\<rparr>"

definition put_task :: "u32 \<Rightarrow> task \<Rightarrow> 'a machine_scheme \<Rightarrow> 'a machine_scheme" where
  "put_task p x = put_obj p (Obj_task x)"

section \<open>The list of tasks\<close>

definition get_current_task :: "'a kernel_scheme \<Rightarrow> u32" where
  "get_current_task s = current_task s"

definition get_next_task :: "'a kernel_scheme \<Rightarrow> u32 option" where
  "get_next_task s = do {
     x \<leftarrow> task_at s (current_task s);
     Some (if task_next x = 0 then head_task s else task_next x) }"

definition remove_task_from_linked_list :: "u32 \<Rightarrow> 'a kernel_scheme \<Rightarrow> 'a kernel_scheme option" where
  "remove_task_from_linked_list t s =
     (if t = 0 then Some s
      else do {
        x \<leftarrow> task_at s t;
        s \<leftarrow> (if task_prev x \<noteq> 0
               then do {
                 y \<leftarrow> task_at s (task_prev x);
                 Some (put_task (task_prev x) (y\<lparr>task_next := task_next x\<rparr>) s) }
               else Some s);
        x \<leftarrow> task_at s t;
        let s = (if t = head_task s then s\<lparr>head_task := task_next x\<rparr> else s);
        let s = (if t = tail_task s then s\<lparr>tail_task := task_prev x\<rparr> else s);
        if t = current_task s
        then do {
          n \<leftarrow> get_next_task s;
          Some (s\<lparr>current_task := n\<rparr>) }
        else Some s })"

definition release_task :: "u32 \<Rightarrow> 'a kernel_scheme \<Rightarrow> 'a kernel_scheme option" where
  "release_task t s =
     (if t = 0 then Some s
      else do {
        x \<leftarrow> task_at s t;
        s \<leftarrow> release_4GB_virtual_memory_address_space s (page_directory x);
        s \<leftarrow> remove_task_from_linked_list t s;
        kfree s t })"

section \<open>A new task\<close>

definition task_init :: "u32 \<Rightarrow> u32 \<Rightarrow> 'a kernel_scheme \<Rightarrow> (int \<times> 'a kernel_scheme) option" where
  "task_init t proc s = do {
     x \<leftarrow> task_at s t;
     let s = put_task t zero_task s;
     let (directory, s) = make_new_4GB_virtual_memory_address_space s (PAGING_IS_PRESENT OR PAGING_ACCESS_FROM_ALL);
     x \<leftarrow> task_at s t;
     let x = x\<lparr>page_directory := directory\<rparr>;
     let s = put_task t x s;
     if page_directory x = 0 then Some (- EIO, s)
     else do {
       let x = x\<lparr>task_registers := (task_registers x)\<lparr>reg_ip := PROGRAM_VIRTUAL_ADDRESS, reg_ss := USER_DATA_SEGMENT,
         reg_cs := USER_CODE_SEGMENT, reg_esp := PROGRAM_VIRTUAL_STACK_ADDRESS_START\<rparr>\<rparr>;
       Some (0, put_task t (x\<lparr>task_proc := proc\<rparr>) s) } }"

text \<open>The new task, or an error pointer.\<close>

definition make_new_task :: "u32 \<Rightarrow> 'a kernel_scheme \<Rightarrow> (u32 \<times> 'a kernel_scheme) option" where
  "make_new_task proc s = do {
     let (t, s) = kzalloc_obj s 64 (Obj_task zero_task);
     (res, s) \<leftarrow>
       (if t = 0 then Some (- ENOMEM, s)
        else do {
          (res, s) \<leftarrow> task_init t proc s;
          if res \<noteq> 0 then Some (res, s)
          else if head_task s = 0 then Some (res, s\<lparr>head_task := t, tail_task := t, current_task := t\<rparr>)
          else do {
            y \<leftarrow> task_at s (tail_task s);
            let s = put_task (tail_task s) (y\<lparr>task_next := t\<rparr>) s;
            x \<leftarrow> task_at s t;
            let s = put_task t (x\<lparr>task_prev := tail_task s\<rparr>) s;
            Some (res, s\<lparr>tail_task := t\<rparr>) } });
     if res < 0 then do {
       s \<leftarrow> release_task t s;
       Some (ERR_PTR res, s) }
     else Some (t, s) }"

section \<open>Running a task\<close>

definition load_user_data_segment_registers :: "'a kernel_scheme \<Rightarrow> 'a kernel_scheme" where
  "load_user_data_segment_registers s = s\<lparr>data_segments := USER_DATA_SEGMENT\<rparr>"

definition load_kernel_data_segment_registers :: "'a kernel_scheme \<Rightarrow> 'a kernel_scheme" where
  "load_kernel_data_segment_registers s = s\<lparr>data_segments := KERNEL_DATA_SELECTOR\<rparr>"

definition task_switch :: "u32 \<Rightarrow> 'a kernel_scheme \<Rightarrow> (int \<times> 'a kernel_scheme) option" where
  "task_switch t s = do {
     let s = s\<lparr>current_task := t\<rparr>;
     x \<leftarrow> task_at s t;
     Some (0, s\<lparr>paging := switch_to_page (mem s) (page_directory x) (paging s)\<rparr>) }"

definition load_user_task_page :: "'a kernel_scheme \<Rightarrow> (int \<times> 'a kernel_scheme) option" where
  "load_user_task_page s = do {
     let s = load_user_data_segment_registers s;
     (_, s) \<leftarrow> task_switch (current_task s) s;
     Some (0, s) }"

text \<open>
  The registers with which the first task starts to run.
\<close>

definition run_first_task :: "'a kernel_scheme \<Rightarrow> (registers \<times> 'a kernel_scheme) option" where
  "run_first_task s = do {
     s \<leftarrow> (if current_task s = 0 then arc_panic (literal s ''No current task exist!'') s else Some s);
     (_, s) \<leftarrow> task_switch (head_task s) s;
     x \<leftarrow> task_at s (head_task s);
     Some (task_registers x, s\<lparr>data_segments := reg_ss (task_registers x)\<rparr>) }"

definition task_save_state :: "u32 \<Rightarrow> interrupt_frame \<Rightarrow> 'a kernel_scheme \<Rightarrow> 'a kernel_scheme option" where
  "task_save_state t frame s = do {
     x \<leftarrow> task_at s t;
     let r = task_registers x;
     let r = r\<lparr>reg_ip := frame_ip frame, reg_cs := frame_cs frame, reg_flags := frame_flags frame,
       reg_esp := frame_esp frame, reg_ss := frame_ss frame, reg_eax := frame_eax frame, reg_ebp := frame_ebp frame,
       reg_ebx := frame_ebx frame, reg_ecx := frame_ecx frame, reg_edi := frame_edi frame, reg_edx := frame_edx frame,
       reg_esi := frame_esi frame\<rparr>;
     Some (put_task t (x\<lparr>task_registers := r\<rparr>) s) }"

section \<open>Memory through the page tables\<close>

text \<open>
  The walk of the processor from the directory in \<open>cr3\<close>; \<open>None\<close> is a page fault, when the
  present bit of an entry is clear.
\<close>

definition translate :: "memory \<Rightarrow> u32 \<Rightarrow> u32 \<Rightarrow> u32 option" where
  "translate m directory v =
     (let entry = load32 m (directory + 4 * (v div 0x400000)) in
      if \<not> bit entry 0 then None
      else
        let page = load32 m ((entry AND 0xFFFFF000) + 4 * (v mod 0x400000 div 4096)) in
        if \<not> bit page 0 then None else Some ((page AND 0xFFFFF000) + v mod 4096))"

definition mmu_load :: "u32 \<Rightarrow> memory \<Rightarrow> u32 \<Rightarrow> u8 option" where
  "mmu_load directory m v = map_option m (translate m directory v)"

definition mmu_store :: "u32 \<Rightarrow> memory \<Rightarrow> u32 \<Rightarrow> u8 \<Rightarrow> memory option" where
  "mmu_store directory m v b = map_option (\<lambda>p. m(p := b)) (translate m directory v)"

text \<open>\<open>strncpy\<close> of the C library, run on those.\<close>

fun strncpy_mmu_loop :: "u32 \<Rightarrow> nat \<Rightarrow> u32 \<Rightarrow> u32 \<Rightarrow> u32 \<Rightarrow> memory \<Rightarrow> (u32 \<times> memory) option" where
  "strncpy_mmu_loop directory 0 d s count m = Some (count, m)"
| "strncpy_mmu_loop directory (Suc k) d s count m = do {
     b \<leftarrow> mmu_load directory m (s + count);
     m \<leftarrow> mmu_store directory m (d + count) b;
     c \<leftarrow> mmu_load directory m (s + count);
     if c = 0 then Some (count, m) else strncpy_mmu_loop directory k d s (count + 1) m }"

definition strncpy_mmu :: "u32 \<Rightarrow> u32 \<Rightarrow> u32 \<Rightarrow> u32 \<Rightarrow> memory \<Rightarrow> (u32 \<times> memory) option" where
  "strncpy_mmu directory d s n m =
     (if d = 0 \<or> s = 0 then Some (0, m)
      else do {
        (count, m) \<leftarrow> strncpy_mmu_loop directory (unat (if n > 255 then 255 else n)) d s 0 m;
        Some (if count \<ge> 255 then 0 else d, m) })"

definition copy_from_user :: "u32 \<Rightarrow> u32 \<Rightarrow> u32 \<Rightarrow> int \<Rightarrow> 'a kernel_scheme \<Rightarrow> (int \<times> 'a kernel_scheme) option" where
  "copy_from_user t user_ptr to n s =
     (if n \<ge> 4096 then Some (- EINVAL, s)
      else
        let (tmp, s) = kzalloc s (word_of_int n) in
        if tmp = 0 then Some (- ENOMEM, s)
        else do {
          x \<leftarrow> task_at s t;
          let page = page_directory x;
          let old_entry = paging_get_entry_of_address (mem s) page tmp;
          let (_, m) = paging_map_page (mem s) page tmp tmp
            (ucast (PAGING_IS_WRITEABLE OR PAGING_IS_PRESENT OR PAGING_ACCESS_FROM_ALL));
          let v = switch_to_page m page (paging s);
          (_, m) \<leftarrow> strncpy_mmu (cr3 v) tmp user_ptr (word_of_int n) m;
          let v = switch_to_kernel_page m v;
          let (res, m) = paging_set_entry_for_virtual_address m page tmp old_entry;
          if res < 0 then do {
            s \<leftarrow> kfree (s\<lparr>mem := m, paging := v\<rparr>) tmp;
            Some (- EIO, s) }
          else do {
            let (_, m) = strncpy to tmp (word_of_int n) m;
            s \<leftarrow> kfree (s\<lparr>mem := m, paging := v\<rparr>) tmp;
            Some (res, s) } })"

end
