(* ===== verification/Processes.thy ===== *)
theory Processes
  imports Tasks
begin

text \<open>
  Processes, \<open>task/process.c\<close>: the table of 20 processes, and loading a program file into a new
  process with its task. A \<open>struct process\<close> is an object of the store; its \<open>binary_file\<close> is the
  100 bytes at offset 2 of its memory. \<open>load_process\<close> writes the new process through its
  second argument; the model returns what it writes, or \<open>None\<close> when it writes nothing.
\<close>

definition binary_file :: "u32 \<Rightarrow> u32" where "binary_file p = p + 2"
definition sizeof_process :: u32 where "sizeof_process = 4216"

definition zero_process :: process where
  "zero_process = \<lparr>proc_id = 0, proc_task = 0, physical_pointer = 0, proc_size = 0, stack_pointer = 0\<rparr>"

definition process_init :: "u32 \<Rightarrow> 'a kernel_scheme \<Rightarrow> 'a kernel_scheme option" where
  "process_init proc s = do {
     x \<leftarrow> proc_at s proc;
     Some (put_obj proc (Obj_proc zero_process) (s\<lparr>mem := memset proc 0 sizeof_process (mem s)\<rparr>)) }"

definition get_current_process :: "'a kernel_scheme \<Rightarrow> u32" where
  "get_current_process s = current_process s"

definition get_process_by_id :: "int \<Rightarrow> 'a kernel_scheme \<Rightarrow> u32" where
  "get_process_by_id i s = (if i < 0 \<or> i \<ge> int MAX_PROCESSES then 0 else processes s ! nat i)"

section \<open>Loading the program file\<close>

definition process_load_binary :: "'a kernel_scheme fs_table \<Rightarrow> u32 \<Rightarrow> u32 \<Rightarrow> 'a kernel_scheme \<Rightarrow>
    (int \<times> 'a kernel_scheme) option" where
  "process_load_binary fss filename process s = do {
     (fd, s) \<leftarrow> fopen fss filename (literal s ''r'') s;
     if fd \<le> 0 then Some (- EIO, s)
     else do {
       (res, s) \<leftarrow> fstat fss fd (stat_local s) s;
       if res < 0 then Some (res, s)
       else do {
         let filesize = load32 (mem s) (st_filesize (stat_local s));
         let (program_data_ptr, s) = kzalloc s filesize;
         if program_data_ptr = 0 then Some (- ENOMEM, s)
         else do {
           (r, s) \<leftarrow> fread fss fd program_data_ptr filesize 1 s;
           if r < 0 then Some (- EIO, s)
           else do {
             x \<leftarrow> proc_at s process;
             Some (res, put_obj process (Obj_proc (x\<lparr>physical_pointer := program_data_ptr,
               proc_size := load32 (mem s) (st_filesize (stat_local s))\<rparr>)) s) } } } } }"

definition process_load_data :: "'a kernel_scheme fs_table \<Rightarrow> u32 \<Rightarrow> u32 \<Rightarrow> 'a kernel_scheme \<Rightarrow>
    (int \<times> 'a kernel_scheme) option" where
  "process_load_data fss filename process s = process_load_binary fss filename process s"

section \<open>Mapping it\<close>

definition process_map_binary :: "u32 \<Rightarrow> 'a kernel_scheme \<Rightarrow> (int \<times> 'a kernel_scheme) option" where
  "process_map_binary process s = do {
     x \<leftarrow> proc_at s process;
     t \<leftarrow> task_at s (proc_task x);
     let (res, m) = paging_map_virtual_memory (mem s) (page_directory t) PROGRAM_VIRTUAL_ADDRESS
       (physical_pointer x) (paging_align_address (physical_pointer x + proc_size x))
       (ucast (PAGING_IS_PRESENT OR PAGING_ACCESS_FROM_ALL OR PAGING_IS_WRITEABLE));
     Some (res, s\<lparr>mem := m\<rparr>) }"

definition process_map_virtual_memory :: "u32 \<Rightarrow> 'a kernel_scheme \<Rightarrow> (int \<times> 'a kernel_scheme) option" where
  "process_map_virtual_memory process s = process_map_binary process s"

section \<open>A new process\<close>

text \<open>The part from the new \<open>struct process\<close> to the label \<open>out\<close>: the value of \<open>res\<close> there.\<close>

definition process_setup :: "'a kernel_scheme fs_table \<Rightarrow> u32 \<Rightarrow> int \<Rightarrow> u32 \<Rightarrow> 'a kernel_scheme \<Rightarrow>
    (int \<times> 'a kernel_scheme) option" where
  "process_setup fss filename slot tmp_process s = do {
     s \<leftarrow> process_init tmp_process s;
     (res, s) \<leftarrow> process_load_data fss filename tmp_process s;
     if res < 0 then Some (res, s)
     else do {
       let (program_stack_ptr, s) = kzalloc s USER_PROGRAM_STACK_SIZE;
       if program_stack_ptr = 0 then Some (- ENOMEM, s)
       else do {
         let (_, m) = strncpy (binary_file tmp_process) filename FILESYSTEM_MAX_PATH_LENGTH (mem s);
         let s = s\<lparr>mem := m\<rparr>;
         x \<leftarrow> proc_at s tmp_process;
         let s = put_obj tmp_process (Obj_proc (x\<lparr>stack_pointer := program_stack_ptr, proc_id := word_of_int slot\<rparr>)) s;
         (t, s) \<leftarrow> make_new_task tmp_process s;
         if IS_ERR t then Some (PTR_ERR t, s)
         else do {
           x \<leftarrow> proc_at s tmp_process;
           let s = put_obj tmp_process (Obj_proc (x\<lparr>proc_task := t\<rparr>)) s;
           process_map_virtual_memory tmp_process s } } } }"

definition process_load_for_slot :: "'a kernel_scheme fs_table \<Rightarrow> u32 \<Rightarrow> int \<Rightarrow> 'a kernel_scheme \<Rightarrow>
    (int \<times> u32 option \<times> 'a kernel_scheme) option" where
  "process_load_for_slot fss filename slot s =
     (if get_process_by_id slot s \<noteq> 0
      then do { s \<leftarrow> kfree s 0; Some (- ESRCH, None, s) }
      else
        let (tmp_process, s) = kzalloc_obj s sizeof_process (Obj_proc zero_process) in
        if tmp_process = 0
        then do { s \<leftarrow> kfree s 0; Some (- ENOMEM, None, s) }
        else do {
          (res, s) \<leftarrow> process_setup fss filename slot tmp_process s;
          if res < 0 then do {
            x \<leftarrow> proc_at s tmp_process;
            s \<leftarrow> (if proc_task x \<noteq> 0 then release_task (proc_task x) s else Some s);
            s \<leftarrow> kfree s tmp_process;
            Some (res, None, s) }
          else if slot < 0 \<or> slot \<ge> int MAX_PROCESSES then None
          else Some (res, Some tmp_process, s\<lparr>processes := (processes s)[nat slot := tmp_process]\<rparr>) })"

definition process_get_free_slot :: "'a kernel_scheme \<Rightarrow> int" where
  "process_get_free_slot s =
     (case List.find (\<lambda>i. processes s ! i = 0) [0..<MAX_PROCESSES] of None \<Rightarrow> - ENOMEM | Some i \<Rightarrow> int i)"

definition load_process :: "'a kernel_scheme fs_table \<Rightarrow> u32 \<Rightarrow> 'a kernel_scheme \<Rightarrow>
    (int \<times> u32 option \<times> 'a kernel_scheme) option" where
  "load_process fss filename s =
     (let slot = process_get_free_slot s in
      if slot < 0 then Some (slot, None, s) else process_load_for_slot fss filename slot s)"

end
