(* ===== verification/Task_Correct.thy ===== *)
theory Task_Correct
  imports Processes Fat16_Lookup Paging_Correct Vfs_Open
begin

text \<open>
  The list of tasks. \<open>task_list s ts\<close> says that the doubly linked list in the store, with its head
  and its tail, is the list \<open>ts\<close>; the operations of \<open>task.c\<close> then are operations on \<open>ts\<close>.
\<close>

section \<open>The list in the store\<close>

definition link :: "u32 list \<Rightarrow> nat \<Rightarrow> u32" where
  "link ts i = (if i < length ts then ts ! i else 0)"

definition links_ok :: "'a machine_scheme \<Rightarrow> u32 list \<Rightarrow> bool" where
  "links_ok s ts \<longleftrightarrow> (\<forall>i < length ts. \<exists>x. task_at s (ts ! i) = Some x \<and> task_next x = link ts (Suc i) \<and>
     task_prev x = (if i = 0 then 0 else ts ! (i - 1)))"

definition task_list :: "'a kernel_scheme \<Rightarrow> u32 list \<Rightarrow> bool" where
  "task_list s ts \<longleftrightarrow> distinct ts \<and> 0 \<notin> set ts \<and> links_ok s ts \<and>
     head_task s = (if ts = [] then 0 else hd ts) \<and> tail_task s = (if ts = [] then 0 else last ts)"

text \<open>A task of the list is running, unless there is none.\<close>

definition sched_ok :: "'a kernel_scheme \<Rightarrow> u32 list \<Rightarrow> bool" where
  "sched_ok s ts \<longleftrightarrow> machine_ok s \<and> task_list s ts \<and> (if ts = [] then current_task s = 0 else current_task s \<in> set ts)"

lemma task_at_iff: "task_at s p = Some x \<longleftrightarrow> objs s p = Some (Obj_task x)"
  by (auto simp: task_at_def split: option.splits kobj.splits)

lemma task_at_put [simp]: "task_at (put_task p x s) q = (if q = p then Some x else task_at s q)"
  by (simp add: task_at_def put_task_def)

lemma put_task_simps [simp]:
  "mem (put_task p x s) = mem s" "klive (put_task p x s) = klive s" "kroom (put_task p x s) = kroom s"
  "kvacant (put_task p x s) = kvacant s" "kheap_ok (put_task p x s) = kheap_ok s" "con (put_task p x s) = con s"
  by (simp_all add: put_task_def)

lemma put_task_kernel [simp]:
  "head_task (put_task p x s) = head_task s" "tail_task (put_task p x s) = tail_task s"
  "current_task (put_task p x s) = current_task s" "paging (put_task p x s) = paging s"
  "processes (put_task p x s) = processes s" "data_segments (put_task p x s) = data_segments s"
  by (simp_all add: put_task_def put_obj_def)

lemma machine_ok_put_task: "machine_ok s \<Longrightarrow> klive s p \<noteq> None \<Longrightarrow> machine_ok (put_task p x s)"
  by (auto simp: machine_ok_def put_task_def)

lemma more_kernel:
  "machine.more s' = machine.more s \<Longrightarrow> head_task s' = head_task s \<and> tail_task s' = tail_task s \<and>
     current_task s' = current_task s \<and> paging s' = paging s \<and> processes s' = processes s \<and>
     data_segments s' = data_segments s \<and> literal s' = literal s \<and> kernel.more s' = kernel.more s" for s s' :: "'a kernel_scheme"
  by (cases s; cases s') simp

lemma link_append: "i < length ts \<Longrightarrow> link (ts @ us) i = ts ! i"
  by (simp add: link_def nth_append)

text \<open>The store determines the list.\<close>

lemma task_list_step:
  assumes "task_list s ts" and "i < length ts"
  shows "\<exists>x. task_at s (ts ! i) = Some x \<and> task_next x = link ts (Suc i)"
  using assms by (auto simp: task_list_def links_ok_def)

lemma task_list_same:
  assumes ts: "task_list s ts" and us: "task_list s us"
  shows "i \<le> length ts \<Longrightarrow> link us i = link ts i"
proof (induction i)
  case 0
  show ?case using ts us by (auto simp: task_list_def link_def hd_conv_nth split: if_splits)
next
  case (Suc i)
  then have i: "i < length ts" "link us i = ts ! i" by (simp_all add: link_def)
  moreover have "ts ! i \<noteq> 0" using ts nth_mem [OF i(1)] by (auto simp: task_list_def)
  ultimately have "i < length us" by (simp add: link_def split: if_splits)
  then obtain x y where "task_at s (ts ! i) = Some x" "task_next x = link ts (Suc i)" "task_at s (us ! i) = Some y" "task_next y = link us (Suc i)"
    using task_list_step [OF ts i(1)] task_list_step [OF us] by blast
  then show ?case using i(2) \<open>i < length us\<close> by (simp add: link_def)
qed

lemma task_list_unique:
  assumes ts: "task_list s ts" and us: "task_list s us"
  shows "us = ts"
proof -
  have less: "length zs \<le> length ws" if "task_list s ws" "task_list s zs" for ws zs
  proof (rule ccontr)
    assume l: "\<not> length zs \<le> length ws"
    then have "link zs (length ws) = 0" using task_list_same [OF that, of "length ws"] by (simp add: link_def)
    then have "zs ! length ws = 0" using l by (simp add: link_def)
    then show False using that(2) l nth_mem [of "length ws" zs] by (simp add: task_list_def)
  qed
  have len: "length us = length ts" using less [OF ts us] less [OF us ts] by simp
  then have "us ! i = ts ! i" if "i < length ts" for i using task_list_same [OF ts us, of i] that by (simp add: link_def)
  then show ?thesis using len by (intro nth_equalityI) simp_all
qed

section \<open>Appending a task\<close>

lemma links_ok_frame:
  assumes "links_ok s ts" and "\<And>t. t \<in> set ts \<Longrightarrow> task_at s' t = task_at s t"
  shows "links_ok s' ts"
  using assms by (auto simp: links_ok_def)

lemma links_ok_snoc:
  assumes ok: "links_ok s ts" and d: "distinct (ts @ [t])" and ne: "ts \<noteq> []" and y: "task_at s (last ts) = Some y"
    and other: "\<And>u. u \<in> set ts \<Longrightarrow> u \<noteq> last ts \<Longrightarrow> task_at s' u = task_at s u"
    and last: "task_at s' (last ts) = Some (y\<lparr>task_next := t\<rparr>)"
    and new: "task_at s' t = Some x" "task_next x = 0" "task_prev x = last ts"
  shows "links_ok s' (ts @ [t])"
  unfolding links_ok_def
proof (intro allI impI)
  fix i assume i: "i < length (ts @ [t])"
  let ?n = "length ts"
  have l: "last ts = ts ! (?n - 1)" using ne by (simp add: last_conv_nth)
  consider "i = ?n" | "Suc i = ?n" | "Suc i < ?n" using i by fastforce
  then show "\<exists>x. task_at s' ((ts @ [t]) ! i) = Some x \<and> task_next x = link (ts @ [t]) (Suc i) \<and>
      task_prev x = (if i = 0 then 0 else (ts @ [t]) ! (i - 1))"
  proof cases
    case 1
    then show ?thesis using new ne l by (simp add: link_def nth_append)
  next
    case 2
    then have li: "ts ! i = last ts" using l by (metis diff_Suc_1)
    have "task_prev y = (if i = 0 then 0 else ts ! (i - 1))"
      using ok y 2 li by (auto simp: links_ok_def dest!: spec [where x = i])
    moreover have "link (ts @ [t]) (Suc i) = t" using 2 by (simp add: link_def nth_append)
    ultimately show ?thesis using last 2 by (auto simp: nth_append li)
  next
    case 3
    then have "ts ! i \<noteq> last ts" using d l by (auto simp: nth_eq_iff_index_eq)
    then have "task_at s' (ts ! i) = task_at s (ts ! i)" using other 3 by simp
    moreover obtain x where "task_at s (ts ! i) = Some x" "task_next x = link ts (Suc i)"
        "task_prev x = (if i = 0 then 0 else ts ! (i - 1))"
      using ok 3 by (auto simp: links_ok_def dest!: spec [where x = i])
    ultimately show ?thesis using 3 by (auto simp: nth_append link_def)
  qed
qed

text \<open>Making an address space changes memory and the heap, whatever room there is.\<close>

definition extends :: "'a machine_scheme \<Rightarrow> 'a machine_scheme \<Rightarrow> bool" where
  "extends s s' \<longleftrightarrow> machine_ok s' \<and> objs s' = objs s \<and> machine.more s' = machine.more s \<and>
     (\<forall>p. klive s p \<noteq> None \<longrightarrow> klive s' p \<noteq> None)"

lemma extends_refl: "machine_ok s \<Longrightarrow> extends s s"
  by (simp add: extends_def)

lemma extends_trans: "extends s s1 \<Longrightarrow> extends s1 s2 \<Longrightarrow> extends s s2"
  by (auto simp: extends_def)

lemma extends_mem: "extends s s1 \<Longrightarrow> extends s (s1\<lparr>mem := m\<rparr>)"
  unfolding extends_def machine_ok_def by (elim conjE, intro conjI) simp_all

lemma kzalloc_extends: "machine_ok s \<Longrightarrow> kzalloc s n = (p, s') \<Longrightarrow> extends s s'"
  using kzalloc_machine_ok [of s n p s'] kzalloc_frame [of s n p s'] kzalloc_more [of s n p s'] kzalloc_grows [of s n p s']
  by (auto simp: extends_def grows_def)

lemma make_page_table_extends:
  assumes ok: "machine_ok s" and make: "make_page_table d f i (o1, s) = (o2, s')"
  shows "extends s s'"
proof -
  obtain e s1 where a: "kzalloc s (4 * PAGING_TOTAL_ENTRIES_PER_TABLE) = (e, s1)" by fastforce
  then show ?thesis
    using make kzalloc_extends [OF ok a] by (auto simp: make_page_table_def intro: extends_mem)
qed

lemma make_tables_extends:
  "machine_ok s \<Longrightarrow> fold (make_page_table d f) js (o1, s) = (o2, s') \<Longrightarrow> extends s s'"
proof (induction js arbitrary: o1 s)
  case Nil
  then show ?case by (simp add: extends_refl)
next
  case (Cons i js)
  obtain o3 s1 where 1: "make_page_table d f i (o1, s) = (o3, s1)" by fastforce
  note step = make_page_table_extends [OF Cons.prems(1) 1]
  have "extends s1 s'" by (rule Cons.IH) (use step Cons.prems(2) 1 in \<open>simp_all add: extends_def\<close>)
  then show ?case using step by (rule extends_trans [rotated])
qed

lemma make_space_extends:
  assumes ok: "machine_ok s" and make: "make_new_4GB_virtual_memory_address_space s f = (p, s')"
  shows "extends s s'"
proof -
  obtain d s1 where 1: "kzalloc s (4 * PAGING_TOTAL_ENTRIES_PER_TABLE) = (d, s1)" by fastforce
  obtain off s2 where 2: "fold (make_page_table d f) [0..<1024] (0, s1) = (off, s2)" by fastforce
  obtain s3 where 3: "kzalloc s2 4 = (p, s3)" "s' = s3\<lparr>mem := store32 p d (mem s3)\<rparr>"
    using make 1 2 by (auto simp: make_new_4GB_virtual_memory_address_space_def split: prod.splits)
  have s1: "extends s s1" by (rule kzalloc_extends [OF ok 1])
  then have s2: "extends s1 s2" by (intro make_tables_extends [OF _ 2]) (simp add: extends_def)
  then have "extends s2 s3" by (intro kzalloc_extends [OF _ 3(1)]) (simp add: extends_def)
  then show ?thesis using s1 s2 3(2) by (blast intro: extends_trans extends_mem)
qed

section \<open>A new task\<close>

text \<open>The registers with which every task starts.\<close>

definition first_registers :: registers where
  "first_registers = (task_registers zero_task)\<lparr>reg_ip := PROGRAM_VIRTUAL_ADDRESS, reg_ss := USER_DATA_SEGMENT,
     reg_cs := USER_CODE_SEGMENT, reg_esp := PROGRAM_VIRTUAL_STACK_ADDRESS_START\<rparr>"

lemma task_init_done:
  assumes ok: "machine_ok s" and live: "klive s t \<noteq> None" and init: "task_init t proc s = Some (res, s')" and res: "res = 0"
  shows "machine_ok s' \<and> machine.more s' = machine.more s \<and>
    (\<exists>pd. pd \<noteq> 0 \<and> objs s' = (objs s)(t \<mapsto> Obj_task (zero_task\<lparr>page_directory := pd, task_registers := first_registers, task_proc := proc\<rparr>)))"
proof -
  obtain pd s1 where a: "make_new_4GB_virtual_memory_address_space (put_task t zero_task s) (PAGING_IS_PRESENT OR PAGING_ACCESS_FROM_ALL) = (pd, s1)"
    by fastforce
  have "machine_ok (put_task t zero_task s)" using ok live by (rule machine_ok_put_task)
  then have e: "extends (put_task t zero_task s) s1" using a by (rule make_space_extends)
  then have o: "objs s1 = (objs s)(t \<mapsto> Obj_task zero_task)" "machine.more s1 = machine.more s" "machine_ok s1" "klive s1 t \<noteq> None"
    using live by (auto simp: extends_def put_task_def)
  have t1: "task_at s1 t = Some zero_task" by (simp add: task_at_iff o(1))
  have "pd \<noteq> 0 \<and> s' = put_task t (zero_task\<lparr>page_directory := pd, task_registers := first_registers, task_proc := proc\<rparr>)
      (put_task t (zero_task\<lparr>page_directory := pd\<rparr>) s1)"
    using init a res t1 by (auto simp: task_init_def first_registers_def EIO_def Let_def elim!: bind_SomeE split: if_split_asm)
  then show ?thesis
    using o by (auto simp: put_task_def machine_ok_def)
qed

lemma task_init_res: "task_init t proc s = Some (res, s') \<Longrightarrow> res = 0 \<or> res = - EIO"
  by (auto simp: task_init_def Let_def elim!: bind_SomeE split: prod.split_asm if_split_asm)

lemma error_pointers: "IS_ERR (ERR_PTR (- ENOMEM))" "IS_ERR (ERR_PTR (- EIO))"
  by (simp_all add: IS_ERR_def IS_ERR_VALUE_def MAX_ERRNO_def ERR_PTR_def ENOMEM_def EIO_def)

text \<open>What \<open>make_new_task\<close> did when it returns a task.\<close>

lemma make_new_taskE:
  assumes "make_new_task proc s = Some (t, s')" and "\<not> IS_ERR t"
  obtains s1 s2 where "kzalloc_obj s 64 (Obj_task zero_task) = (t, s1)" "t \<noteq> 0" "task_init t proc s1 = Some (0, s2)"
    "head_task s2 = 0 \<longrightarrow> s' = s2\<lparr>head_task := t, tail_task := t, current_task := t\<rparr>"
    "head_task s2 \<noteq> 0 \<longrightarrow> (\<exists>x y. task_at s2 (tail_task s2) = Some y \<and>
       task_at (put_task (tail_task s2) (y\<lparr>task_next := t\<rparr>) s2) t = Some x \<and>
       s' = put_task t (x\<lparr>task_prev := tail_task s2\<rparr>) (put_task (tail_task s2) (y\<lparr>task_next := t\<rparr>) s2)\<lparr>tail_task := t\<rparr>)"
proof -
  obtain t1 s1 where a: "kzalloc_obj s 64 (Obj_task zero_task) = (t1, s1)" by fastforce
  have t1: "t1 \<noteq> 0" using assms a error_pointers(1) by (auto simp: make_new_task_def ENOMEM_def elim!: bind_SomeE)
  obtain res s2 where i: "task_init t1 proc s1 = Some (res, s2)"
    using assms(1) a t1 by (auto simp: make_new_task_def elim!: bind_SomeE)
  have res: "res = 0"
    using task_init_res [OF i] assms a t1 i error_pointers(2) by (auto simp: make_new_task_def EIO_def elim!: bind_SomeE)
  have "t = t1" using assms(1) a t1 i res by (auto simp: make_new_task_def Let_def elim!: bind_SomeE split: if_split_asm)
  then show ?thesis
    using a t1 i res assms(1) by (intro that [of s1 s2]) (auto simp: make_new_task_def Let_def elim!: bind_SomeE split: if_split_asm)
qed

text \<open>When \<open>make_new_task\<close> returns a task, it is at the end of the list.\<close>

lemma make_new_task_appends:
  assumes ok: "sched_ok s ts" and make: "make_new_task proc s = Some (t, s')" and good: "\<not> IS_ERR t"
  shows "sched_ok s' (ts @ [t]) \<and> t \<notin> set ts \<and> current_task s' = (if ts = [] then t else current_task s) \<and>
    (\<exists>x. task_at s' t = Some x \<and> page_directory x \<noteq> 0 \<and> task_registers x = first_registers \<and> task_proc x = proc)"
proof -
  have mok: "machine_ok s" and tl: "task_list s ts" using ok by (simp_all add: sched_ok_def)
  obtain s1 s2 where 1: "kzalloc_obj s 64 (Obj_task zero_task) = (t, s1)" "t \<noteq> 0" "task_init t proc s1 = Some (0, s2)"
    "head_task s2 = 0 \<longrightarrow> s' = s2\<lparr>head_task := t, tail_task := t, current_task := t\<rparr>"
    "head_task s2 \<noteq> 0 \<longrightarrow> (\<exists>x y. task_at s2 (tail_task s2) = Some y \<and>
       task_at (put_task (tail_task s2) (y\<lparr>task_next := t\<rparr>) s2) t = Some x \<and>
       s' = put_task t (x\<lparr>task_prev := tail_task s2\<rparr>) (put_task (tail_task s2) (y\<lparr>task_next := t\<rparr>) s2)\<lparr>tail_task := t\<rparr>)"
    using make_new_taskE [OF make good] by blast
  obtain s0 where 0: "kzalloc s 64 = (t, s0)" "s1 = put_obj t (Obj_task zero_task) s0" using kzalloc_objE [OF 1(1,2)] by blast
  note k = kzalloc_some [OF machine_okD [OF mok] 0(1) 1(2)] kzalloc_frame [OF 0(1)] kzalloc_more [OF 0(1)]
  have ok1: "machine_ok s1" by (rule kzalloc_obj_machine_ok [OF mok 1(1)])
  have fresh: "klive s t = None" "objs s t = None" using k(1) machine_ok_fresh [OF mok] by simp_all
  obtain pd where 2: "machine_ok s2" "machine.more s2 = machine.more s1" "pd \<noteq> 0"
    "objs s2 = (objs s1)(t \<mapsto> Obj_task (zero_task\<lparr>page_directory := pd, task_registers := first_registers, task_proc := proc\<rparr>))"
    using task_init_done [OF ok1 _ 1(3) refl] k(1) 0(2) by auto
  let ?x = "zero_task\<lparr>page_directory := pd, task_registers := first_registers, task_proc := proc\<rparr>"
  have o2: "objs s2 = (objs s)(t \<mapsto> Obj_task ?x)" using 2(4) 0(2) k(2) by simp
  have m2: "machine.more s2 = machine.more s" using 2(2) 0(2) k(3) by (simp add: put_obj_def)
  note g2 = more_kernel [OF m2]
  have at2: "task_at s2 u = (if u = t then Some ?x else task_at s u)" for u by (simp add: task_at_def o2)
  have t: "t \<notin> set ts"
  proof
    assume "t \<in> set ts"
    then obtain i where "i < length ts" "ts ! i = t" by (auto simp: in_set_conv_nth)
    then have "task_at s t \<noteq> None" using tl by (auto simp: task_list_def links_ok_def)
    then show False using fresh(2) by (simp add: task_at_def)
  qed
  have d: "distinct (ts @ [t])" "0 \<notin> set (ts @ [t])" using tl t 1(2) by (simp_all add: task_list_def)
  show ?thesis
  proof (cases "ts = []")
    case True
    then have "head_task s2 = 0" using tl g2 by (simp add: task_list_def)
    then have s': "s' = s2\<lparr>head_task := t, tail_task := t, current_task := t\<rparr>" using 1(4) by blast
    have "task_at s' t = Some ?x" "objs s' = objs s2" "machine_ok s' = machine_ok s2"
      by (simp_all add: s' task_at_def o2 machine_ok_def kheap_defs)
    then show ?thesis using True 2(1,3) 1(2)
      by (simp add: sched_ok_def task_list_def links_ok_def link_def s' zero_task_def)
  next
    case False
    have h: "head_task s2 = hd ts" "tail_task s2 = last ts" "hd ts \<in> set ts" "last ts \<in> set ts" "current_task s2 = current_task s"
      using tl g2 False by (simp_all add: task_list_def)
    then have "head_task s2 \<noteq> 0" using tl by (auto simp: task_list_def)
    then obtain x y where y: "task_at s2 (last ts) = Some y" "task_at (put_task (last ts) (y\<lparr>task_next := t\<rparr>) s2) t = Some x"
      "s' = put_task t (x\<lparr>task_prev := last ts\<rparr>) (put_task (last ts) (y\<lparr>task_next := t\<rparr>) s2)\<lparr>tail_task := t\<rparr>"
      using 1(5) h(2) by auto
    have lt: "last ts \<noteq> t" using h(4) t by blast
    have ys: "task_at s (last ts) = Some y" "x = ?x" using y(1,2) lt by (simp_all add: at2)
    have at': "task_at s' u = (if u = t then Some (?x\<lparr>task_prev := last ts\<rparr>) else if u = last ts then Some (y\<lparr>task_next := t\<rparr>) else task_at s u)" for u
      by (simp add: y(3) ys(2) task_at_def put_task_def o2)
    have "links_ok s' (ts @ [t])"
      by (rule links_ok_snoc [where y = y and s = s]) (use tl d False ys lt t in \<open>auto simp: task_list_def at' zero_task_def\<close>)
    moreover have "machine_ok s'"
    proof -
      have "klive s2 t \<noteq> None" "klive s2 (last ts) \<noteq> None"
        using object_live [OF 2(1), of t] object_live [OF 2(1), of "last ts"] y(1) by (auto simp: o2 task_at_iff)
      then have "machine_ok (put_task t (x\<lparr>task_prev := last ts\<rparr>) (put_task (last ts) (y\<lparr>task_next := t\<rparr>) s2))"
        by (intro machine_ok_put_task 2(1)) simp_all
      then show ?thesis by (simp add: y(3) machine_ok_def kheap_defs)
    qed
    moreover have "head_task s' = hd ts" "tail_task s' = t" "current_task s' = current_task s"
      using h(1,5) by (simp_all add: y(3))
    ultimately show ?thesis
      using ok d t False 2(3) by (simp add: sched_ok_def task_list_def at' zero_task_def)
  qed
qed

text \<open>With 1027 free blocks it does return one.\<close>

lemma make_new_task_returns:
  assumes ok: "sched_ok s ts" and room: "1027 \<le> kroom s"
  shows "\<exists>t s'. make_new_task proc s = Some (t, s') \<and> \<not> IS_ERR t"
proof -
  have mok: "machine_ok s" and tl: "task_list s ts" using ok by (simp_all add: sched_ok_def)
  obtain t s1 where 1: "kzalloc_obj s 64 (Obj_task zero_task) = (t, s1)" "t \<noteq> 0" "grows s s1" "kroom s = kroom s1 + 1"
    "klive s t = None" "klive s1 = (klive s)(t \<mapsto> 1)" "objs s1 = (objs s)(t \<mapsto> Obj_task zero_task)" "machine.more s1 = machine.more s"
    using kzalloc_obj_fits [OF mok, of 64 "Obj_task zero_task"] room by auto
  let ?s1 = "put_task t zero_task s1"
  have t1: "task_at s1 t = Some zero_task" by (simp add: task_at_iff 1(7))
  obtain pd s2 where a: "make_new_4GB_virtual_memory_address_space ?s1 (PAGING_IS_PRESENT OR PAGING_ACCESS_FROM_ALL) = (pd, s2)"
    by fastforce
  have k1: "kheap_ok ?s1" "1026 \<le> kroom ?s1" using machine_okD [OF growsD(1) [OF 1(3)]] room 1(4) by simp_all
  have n: "pd \<noteq> 0" "objs s2 = objs ?s1" "machine.more s2 = machine.more ?s1"
    using make_new_space [OF k1 a] by (simp_all add: new_space_def)
  have t2: "task_at s2 t = Some zero_task" using n(2) by (simp add: task_at_def put_task_def)
  obtain s3 where i: "task_init t proc s1 = Some (0, s3)"
    using t1 a t2 n(1) by (simp add: task_init_def Let_def)
  have ok1: "machine_ok s1" by (rule growsD(1) [OF 1(3)])
  obtain pd' where 3: "machine_ok s3" "machine.more s3 = machine.more s1" "objs s3 = (objs s1)(t \<mapsto> Obj_task (zero_task\<lparr>page_directory := pd', task_registers := first_registers, task_proc := proc\<rparr>))"
    using task_init_done [OF ok1 _ i refl] 1(6) by auto
  have m3: "machine.more s3 = machine.more s" using 3(2) 1(8) by simp
  have nr: "\<not> IS_ERR t" by (rule live_not_error [OF machine_okD [OF ok1]]) (simp add: 1(6))
  show ?thesis
  proof (cases "head_task s3 = 0")
    case True
    then show ?thesis using 1(1,2) i nr by (simp add: make_new_task_def)
  next
    case False
    then have ts: "ts \<noteq> []" using more_kernel [OF m3] tl by (auto simp: task_list_def)
    have "tail_task s3 = last ts" using more_kernel [OF m3] tl ts by (simp add: task_list_def)
    moreover have "\<exists>y. task_at s (last ts) = Some y"
    proof -
      have "length ts - 1 < length ts" using ts by simp
      then have "\<exists>y. task_at s (ts ! (length ts - 1)) = Some y" using tl unfolding task_list_def links_ok_def by blast
      then show ?thesis using ts by (simp add: last_conv_nth)
    qed
    moreover have "task_at s3 u = task_at s u \<or> u = t" for u by (auto simp: task_at_def 3(3) 1(7))
    moreover have "task_at s3 t \<noteq> None" by (simp add: task_at_def 3(3))
    ultimately obtain y x where "task_at s3 (tail_task s3) = Some y" "task_at (put_task (tail_task s3) (y\<lparr>task_next := t\<rparr>) s3) t = Some x"
      by (metis not_Some_eq task_at_put)
    then show ?thesis using False 1(1,2) i nr by (simp add: make_new_task_def)
  qed
qed

text \<open>With none it returns an error pointer and changes nothing.\<close>

lemma make_new_task_full:
  assumes ok: "sched_ok s ts" and full: "kroom s = 0"
  shows "make_new_task proc s = Some (ERR_PTR (- ENOMEM), s)"
proof -
  have kh: "kheap_ok s" using ok by (intro machine_okD) (simp add: sched_ok_def)
  obtain p s1 where a: "kzalloc s 64 = (p, s1)" by fastforce
  have "p = 0"
  proof (rule ccontr)
    assume "p \<noteq> 0"
    then have "kroom s = kroom s1 + blocks_for 64" using kzalloc_room [OF kh a] by simp
    moreover have "blocks_for 64 = 1" by (rule blocks_for_one) simp_all
    ultimately show False using full by simp
  qed
  moreover from this have "s1 = s" using kzalloc_null [OF kh] a by simp
  ultimately show ?thesis using a by (simp add: make_new_task_def kzalloc_obj_def release_task_def ENOMEM_def)
qed

section \<open>Taking turns\<close>

lemma task_list_next:
  assumes "task_list s ts" and "i < length ts" and "current_task s = ts ! i"
  shows "get_next_task s = Some (ts ! (Suc i mod length ts))"
proof -
  obtain x where x: "task_at s (ts ! i) = Some x" "task_next x = link ts (Suc i)"
    using assms(1,2) by (auto simp: task_list_def links_ok_def)
  have ne: "ts \<noteq> []" using assms(2) by auto
  show ?thesis
  proof (cases "Suc i < length ts")
    case True
    then have "ts ! Suc i \<noteq> 0" using assms(1) by (auto simp: task_list_def dest: nth_mem)
    then show ?thesis using x True assms(3) by (simp add: get_next_task_def link_def)
  next
    case False
    then have "Suc i = length ts" using assms(2) by simp
    then show ?thesis using x False assms(1,3) ne by (simp add: get_next_task_def link_def task_list_def hd_conv_nth)
  qed
qed

lemma task_at_update [simp]:
  "task_at (s\<lparr>current_task := a\<rparr>) p = task_at s p" "task_at (s\<lparr>paging := v\<rparr>) p = task_at s p"
  "task_at (s\<lparr>data_segments := d\<rparr>) p = task_at s p" "task_at (s\<lparr>head_task := a\<rparr>) p = task_at s p"
  "task_at (s\<lparr>tail_task := a\<rparr>) p = task_at s p"
  by (simp_all add: task_at_def)

lemma links_ok_update [simp]:
  "links_ok (s\<lparr>current_task := a\<rparr>) ts = links_ok s ts" "links_ok (s\<lparr>paging := v\<rparr>) ts = links_ok s ts"
  "links_ok (s\<lparr>data_segments := d\<rparr>) ts = links_ok s ts"
  by (simp_all add: links_ok_def)

lemma machine_ok_update [simp]:
  "machine_ok (s\<lparr>current_task := a\<rparr>) = machine_ok s" "machine_ok (s\<lparr>paging := v\<rparr>) = machine_ok s"
  "machine_ok (s\<lparr>data_segments := d\<rparr>) = machine_ok s"
  by (simp_all add: machine_ok_def kheap_defs)

lemma task_list_update [simp]:
  "task_list (s\<lparr>current_task := a\<rparr>) ts = task_list s ts" "task_list (s\<lparr>paging := v\<rparr>) ts = task_list s ts"
  "task_list (s\<lparr>data_segments := d\<rparr>) ts = task_list s ts"
  by (simp_all add: task_list_def)

lemma task_switch_list:
  assumes "sched_ok s ts" and "t \<in> set ts"
  shows "\<exists>x. task_at s t = Some x \<and> task_switch t s = Some (0, s\<lparr>current_task := t,
    paging := switch_to_page (mem s) (page_directory x) (paging s)\<rparr>) \<and>
    sched_ok (s\<lparr>current_task := t, paging := switch_to_page (mem s) (page_directory x) (paging s)\<rparr>) ts"
proof -
  obtain i where "i < length ts" "ts ! i = t" using assms(2) by (auto simp: in_set_conv_nth)
  then obtain x where x: "task_at s t = Some x" using assms(1) by (auto simp: sched_ok_def task_list_def links_ok_def)
  then show ?thesis using assms by (auto simp: task_switch_def sched_ok_def)
qed

text \<open>Saving the registers of a task leaves the list as it is.\<close>

lemma task_save_state_list:
  assumes ok: "sched_ok s ts" and save: "task_save_state t frame s = Some s'"
  shows "sched_ok s' ts"
proof -
  obtain x r where s': "s' = put_task t (x\<lparr>task_registers := r\<rparr>) s" and x: "task_at s t = Some x"
    using save by (auto simp: task_save_state_def Let_def elim!: bind_SomeE)
  have "klive s t \<noteq> None" using object_live [of s t "Obj_task x"] ok x by (auto simp: sched_ok_def task_at_iff)
  then have "machine_ok s'" unfolding s' using ok by (intro machine_ok_put_task) (simp_all add: sched_ok_def)
  moreover have "links_ok s' ts"
    unfolding links_ok_def s'
    using ok x by (fastforce simp: sched_ok_def task_list_def links_ok_def)
  ultimately show ?thesis using ok by (simp add: sched_ok_def task_list_def s')
qed

section \<open>The scheduler as a transition system\<close>

text \<open>
  What the kernel does with tasks while it runs: it makes one, switches to the next, returns to
  the current one, goes back to its own pages, or saves the registers of an interrupted one.
\<close>

inductive sched_step :: "'a kernel_scheme \<Rightarrow> 'a kernel_scheme \<Rightarrow> bool" where
  spawn: "make_new_task proc s = Some (t, s') \<Longrightarrow> \<not> IS_ERR t \<Longrightarrow> sched_step s s'"
| next_task: "get_next_task s = Some t \<Longrightarrow> task_switch t s = Some (r, s') \<Longrightarrow> sched_step s s'"
| to_user: "load_user_task_page s = Some (r, s') \<Longrightarrow> sched_step s s'"
| to_kernel: "sched_step s ((load_kernel_data_segment_registers s)\<lparr>paging := switch_to_kernel_page (mem s) (paging s)\<rparr>)"
| save: "task_save_state (get_current_task s) frame s = Some s' \<Longrightarrow> sched_step s s'"

inductive reachable :: "'a kernel_scheme \<Rightarrow> 'a kernel_scheme \<Rightarrow> bool" for s0 where
  start: "reachable s0 s0"
| step: "reachable s0 s \<Longrightarrow> sched_step s s' \<Longrightarrow> reachable s0 s'"

lemma task_switch_current:
  assumes "sched_ok s ts" and "task_switch t s = Some (r, s')" and "t \<in> set ts"
  shows "sched_ok s' ts"
  using task_switch_list [OF assms(1,3)] assms(2) by auto

lemma current_in_list:
  assumes "sched_ok s ts" and "task_at s (current_task s) = Some x"
  shows "current_task s \<in> set ts"
proof (rule ccontr)
  assume "current_task s \<notin> set ts"
  then have "current_task s = 0" using assms(1) by (auto simp: sched_ok_def split: if_splits)
  then have "objs s 0 = Some (Obj_task x)" using assms(2) by (simp add: task_at_iff)
  moreover have mok: "machine_ok s" using assms(1) by (simp add: sched_ok_def)
  ultimately obtain k where "klive s 0 = Some k" using object_live [OF mok] by blast
  then show False using live_block_facts [of "g_kernel_heap s" 0 k] mok by (simp add: machine_ok_def kheap_defs)
qed

lemma sched_step_ok:
  assumes ok: "sched_ok s ts" and step: "sched_step s s'"
  shows "sched_ok s' ts \<or> (\<exists>t. t \<notin> set ts \<and> sched_ok s' (ts @ [t]))"
  using step
proof cases
  case (spawn proc t)
  then show ?thesis using make_new_task_appends [OF ok] by blast
next
  case (next_task t r)
  then have "\<exists>x. task_at s (current_task s) = Some x" by (auto simp: get_next_task_def elim!: bind_SomeE)
  then obtain i where i: "i < length ts" "current_task s = ts ! i"
    using current_in_list [OF ok] by (auto simp: in_set_conv_nth)
  then have "t = ts ! (Suc i mod length ts)" using task_list_next [of s ts i] ok next_task(1) by (simp add: sched_ok_def)
  moreover have "Suc i mod length ts < length ts" using i(1) by (intro mod_less_divisor) auto
  ultimately have "t \<in> set ts" by simp
  then show ?thesis using task_switch_current [OF ok next_task(2)] by blast
next
  case (to_user r)
  let ?s = "load_user_data_segment_registers s"
  have ok': "sched_ok ?s ts" using ok by (simp add: sched_ok_def load_user_data_segment_registers_def)
  obtain r' where sw: "task_switch (current_task ?s) ?s = Some (r', s')"
    using to_user by (auto simp: load_user_task_page_def Let_def elim!: bind_SomeE)
  then have "\<exists>x. task_at ?s (current_task ?s) = Some x" by (auto simp: task_switch_def Let_def elim!: bind_SomeE)
  then have "current_task ?s \<in> set ts" using current_in_list [OF ok'] by blast
  then show ?thesis using task_switch_current [OF ok' sw] by blast
next
  case to_kernel
  then show ?thesis using ok by (simp add: sched_ok_def load_kernel_data_segment_registers_def)
next
  case (save frame)
  then show ?thesis using task_save_state_list [OF ok] by blast
qed

lemma reachable_ok:
  assumes "reachable s0 s" and "sched_ok s0 ts0"
  shows "\<exists>us. sched_ok s (ts0 @ us)"
  using assms(1)
proof induction
  case start
  then show ?case using assms(2) by (intro exI [of _ "[]"]) simp
next
  case (step s s')
  then obtain us where us: "sched_ok s (ts0 @ us)" by blast
  show ?case
    using sched_step_ok [OF us step.hyps(2)]
  proof (elim disjE exE conjE)
    fix t assume "sched_ok s' ((ts0 @ us) @ [t])"
    then show ?thesis by (intro exI [of _ "us @ [t]"]) simp
  qed blast
qed

section \<open>Turns\<close>

text \<open>\<open>n\<close> switches to the next task.\<close>

fun take_turns :: "nat \<Rightarrow> 'a kernel_scheme \<Rightarrow> 'a kernel_scheme option" where
  "take_turns 0 s = Some s"
| "take_turns (Suc n) s = do {
     t \<leftarrow> get_next_task s;
     (_, s) \<leftarrow> task_switch t s;
     take_turns n s }"

lemma take_turns_list:
  assumes "sched_ok s ts" and "i < length ts" and "current_task s = ts ! i"
  shows "\<exists>s'. take_turns n s = Some s' \<and> sched_ok s' ts \<and> current_task s' = ts ! ((i + n) mod length ts) \<and> mem s' = mem s \<and>
    (0 < n \<longrightarrow> (\<exists>x. task_at s' (current_task s') = Some x \<and> cr3 (paging s') = load32 (mem s) (page_directory x)))"
  using assms
proof (induction n arbitrary: s i)
  case 0
  then show ?case by simp
next
  case (Suc n)
  let ?j = "Suc i mod length ts"
  have j: "?j < length ts" using Suc.prems(2) by (intro mod_less_divisor) auto
  have next_t: "get_next_task s = Some (ts ! ?j)"
    by (rule task_list_next) (use Suc.prems in \<open>simp_all add: sched_ok_def\<close>)
  obtain x where x: "task_at s (ts ! ?j) = Some x"
    "task_switch (ts ! ?j) s = Some (0, s\<lparr>current_task := ts ! ?j, paging := switch_to_page (mem s) (page_directory x) (paging s)\<rparr>)"
    "sched_ok (s\<lparr>current_task := ts ! ?j, paging := switch_to_page (mem s) (page_directory x) (paging s)\<rparr>) ts"
    using task_switch_list [OF Suc.prems(1) nth_mem [OF j]] by blast
  let ?s = "s\<lparr>current_task := ts ! ?j, paging := switch_to_page (mem s) (page_directory x) (paging s)\<rparr>"
  obtain s' where s': "take_turns n ?s = Some s'" "sched_ok s' ts" "current_task s' = ts ! ((?j + n) mod length ts)" "mem s' = mem s"
    "0 < n \<longrightarrow> (\<exists>x. task_at s' (current_task s') = Some x \<and> cr3 (paging s') = load32 (mem s) (page_directory x))"
    using Suc.IH [OF x(3) j] by auto
  have mod: "(?j + n) mod length ts = (i + Suc n) mod length ts" by (simp add: mod_simps)
  have "n = 0 \<Longrightarrow> s' = ?s" using s'(1) by simp
  then have "\<exists>x. task_at s' (current_task s') = Some x \<and> cr3 (paging s') = load32 (mem s) (page_directory x)"
    using s'(5) x(1) by (cases "n = 0") (simp_all add: switch_to_page_def)
  then show ?case using next_t x(2) s'(1-4) by (simp add: mod)
qed

section \<open>Taking a task out\<close>

lemma remove_task_heap:
  assumes ok: "machine_ok s" and rm: "remove_task_from_linked_list t s = Some s'"
  shows "machine_ok s' \<and> klive s' = klive s"
proof -
  have live: "klive s p \<noteq> None" if "task_at s p = Some x" for p x
    using that object_live [OF ok] by (auto simp: task_at_iff)
  have heads: "machine_ok (s\<lparr>head_task := a\<rparr>) = machine_ok s" "machine_ok (s\<lparr>tail_task := a\<rparr>) = machine_ok s"
    "klive (s\<lparr>head_task := a\<rparr>) = klive s" "klive (s\<lparr>tail_task := a\<rparr>) = klive s" "klive (s\<lparr>current_task := a\<rparr>) = klive s"
    for a and s :: "'a kernel_scheme"
    by (simp_all add: machine_ok_def kheap_defs)
  show ?thesis
    using rm ok live machine_ok_put_task [OF ok]
    by (auto simp: remove_task_from_linked_list_def Let_def heads elim!: bind_SomeE split: if_split_asm)
qed

lemma remove_task_middle:
  assumes tl: "task_list s ts" and i: "0 < i" "Suc i < length ts"
    and rm: "remove_task_from_linked_list (ts ! i) s = Some s'"
  shows "(\<exists>x. task_at s' (ts ! (i - 1)) = Some x \<and> task_next x = ts ! Suc i) \<and>
    (\<exists>x. task_at s' (ts ! Suc i) = Some x \<and> task_prev x = ts ! i) \<and> head_task s' = head_task s \<and> tail_task s' = tail_task s"
proof -
  have at: "\<exists>x. task_at s (ts ! k) = Some x \<and> task_next x = link ts (Suc k) \<and> task_prev x = (if k = 0 then 0 else ts ! (k - 1))"
    if "k < length ts" for k using tl that by (auto simp: task_list_def links_ok_def)
  obtain x where x: "task_at s (ts ! i) = Some x" "task_next x = ts ! Suc i" "task_prev x = ts ! (i - 1)"
    using at [of i] i by (auto simp: link_def)
  have "i - 1 < length ts" using i by simp
  then obtain y where y: "task_at s (ts ! (i - 1)) = Some y" using at [of "i - 1"] by blast
  obtain z where z: "task_at s (ts ! Suc i) = Some z" "task_prev z = ts ! i" using at [of "Suc i"] i by auto
  have d: "distinct ts" "0 \<notin> set ts" using tl by (simp_all add: task_list_def)
  have len: "0 < length ts" using i by linarith
  have ne: "ts ! (i - 1) \<noteq> ts ! i" "ts ! (i - 1) \<noteq> ts ! Suc i" "ts ! i \<noteq> ts ! Suc i" "ts ! i \<noteq> ts ! 0" "ts ! i \<noteq> ts ! (length ts - 1)"
    using d(1) i len nth_eq_iff_index_eq [OF d(1), of i 0] by (auto simp: nth_eq_iff_index_eq)
  have n0: "ts ! i \<noteq> 0" "ts ! (i - 1) \<noteq> 0" using d(2) i nth_mem [of i ts] nth_mem [of "i - 1" ts] by fastforce+
  have "ts \<noteq> []" using i by auto
  then have ht: "head_task s = ts ! 0" "tail_task s = ts ! (length ts - 1)" using tl by (simp_all add: task_list_def hd_conv_nth last_conv_nth)
  show ?thesis
    using rm x y z ne n0 ht by (auto simp: remove_task_from_linked_list_def Let_def elim!: bind_SomeE split: if_split_asm)
qed

text \<open>Its successor still points back to it, and cannot be taken out once it is freed.\<close>

lemma remove_after_freed:
  assumes "task_at s' u = Some x" and "task_prev x = t" and "t \<noteq> 0" and "u \<noteq> 0" and "kfree s' t = Some s''" and "u \<noteq> t"
  shows "remove_task_from_linked_list u s'' = None"
proof -
  have "objs s'' = (objs s')(t := None)" using kfree_frame [OF assms(5)] by simp
  then have "task_at s'' t = None" "task_at s'' u = Some x" using assms(1,6) by (simp_all add: task_at_def)
  then show ?thesis using assms(2-4) by (simp add: remove_task_from_linked_list_def)
qed

end
