(* ===== verification/User_Memory.thy ===== *)
theory User_Memory
  imports Task_Correct Paging_Correct
begin

text \<open>
  Memory as a task sees it: the walk of the processor through the tables of an address space, the
  mapping of one page, and \<open>copy_from_user\<close>, which borrows a page of the task's space to copy a
  string through it.
\<close>

section \<open>The walk of the processor\<close>

text \<open>Every directory entry is present, as it is in a space that the kernel makes.\<close>

definition space_present :: "memory \<Rightarrow> u32 \<Rightarrow> bool" where
  "space_present m page \<longleftrightarrow> (\<forall>i < 1024. bit (load32 m (cell (space_dir m page) i)) 0)"

definition page_of :: "u32 \<Rightarrow> u32" where
  "page_of v = v - v mod 4096"

lemma unat_page_of: "unat (page_of v) = 4096 * (unat v div 4096)"
proof -
  have "unat (v mod 4096) = unat v mod 4096" by (simp add: unat_mod)
  then have "unat (page_of v) = unat v - unat v mod 4096"
    unfolding page_of_def by (subst unat_sub) (simp_all add: word_le_nat_alt)
  then show ?thesis by (simp add: minus_mod_eq_mult_div)
qed

lemma page_of_facts:
  "page_of v mod 4096 = 0" "page_of v div 0x400000 = v div 0x400000" "page_of v mod 0x400000 div 4096 = v mod 0x400000 div 4096"
  "v = page_of v + v mod 4096"
proof -
  let ?q = "unat v div 4096"
  have "unat (page_of v mod 4096) = 0" by (simp add: unat_mod unat_page_of)
  then show "page_of v mod 4096 = 0" by (simp only: unat_eq_0)
  have "unat (page_of v div 0x400000) = unat (v div 0x400000)"
    by (simp add: unat_div unat_page_of div_mult2_eq [of _ 4096 1024, simplified])
  then show "page_of v div 0x400000 = v div 0x400000" by (simp only: word_unat_eq_iff)
  have "unat (page_of v mod 0x400000 div 4096) = unat (v mod 0x400000 div 4096)"
    by (simp add: unat_div unat_mod unat_page_of mod_mult2_eq [of _ 4096 1024, simplified])
  then show "page_of v mod 0x400000 div 4096 = v mod 0x400000 div 4096" by (simp only: word_unat_eq_iff)
  show "v = page_of v + v mod 4096" by (simp add: page_of_def)
qed

lemma page_of_page:
  assumes "p mod 4096 = 0" and "i < 4096"
  shows "page_of (p + of_nat i) = p" and "(p + of_nat i) mod 4096 = of_nat i"
proof -
  have m: "unat p mod 4096 = 0" using arg_cong [OF assms(1), of unat] by (simp add: unat_mod)
  then obtain k where k: "unat p = 4096 * k" by auto
  then have "4096 * k < 4096 * 1048576" using unat_u32_less [of p] by simp
  then have "k < 1048576" by simp
  then have "unat p \<le> 4294963200" using k by simp
  then have "unat (p + of_nat i) = unat p + i"
    using assms(2) unat_of_nat_u32 [of i] by (simp add: unat_word_ariths(1))
  then have "unat ((p + of_nat i) mod 4096) = i" using m assms(2) by (simp add: unat_mod mod_add_left_eq [of "unat p", symmetric])
  then show "(p + of_nat i) mod 4096 = of_nat i" by (metis of_nat_unat_id)
  then show "page_of (p + of_nat i) = p" by (simp add: page_of_def)
qed

lemma translate_entry:
  assumes "space_present m page"
  shows "translate m (space_dir m page) v =
    (let e = paging_get_entry_of_address m page (page_of v)
     in if bit e 0 then Some ((e AND 0xFFFFF000) + v mod 4096) else None)"
proof -
  obtain i j where ij: "i < 1024" "j < 1024" "page_of v = word_of_nat i * 0x400000 + word_of_nat j * 4096"
    "page_of v div 0x400000 = word_of_nat i" "page_of v mod 0x400000 div 4096 = word_of_nat j"
    using page_of_facts(1) by (rule page_decompose)
  have "bit (load32 m (cell (space_dir m page) i)) 0" using assms ij(1) by (simp add: space_present_def)
  then show ?thesis
    using ij(4,5) unfolding get_entry_cell [OF page_of_facts(1) ij(1,2,4,5)]
    by (simp add: translate_def page_of_facts(2,3) space_table_def Let_def)
qed

section \<open>The two copies\<close>

text \<open>
  What \<open>strncpy\<close> with the limit \<open>N\<close> copies of a string: its bytes and its terminator, cut after \<open>N\<close>
  bytes. \<open>strncpy\<close> itself takes no more than 255.
\<close>

definition copied :: "nat \<Rightarrow> u8 list \<Rightarrow> u8 list" where
  "copied N cs = take N (cs @ [0])"

lemma length_copied: "length (copied N cs) = min N (Suc (length cs))"
  by (simp add: copied_def)

lemma copied_all: "length cs < N \<Longrightarrow> copied N cs = cs @ [0]"
  by (simp add: copied_def)

lemma copied_take: "j \<le> length cs \<Longrightarrow> copied j cs = take j cs"
  by (simp add: copied_def)

lemma copied_nth: "i < N \<Longrightarrow> copied N cs ! i = (cs @ [0]) ! i"
  by (simp only: copied_def nth_take)

lemma copied_Suc: "j \<le> length cs \<Longrightarrow> copied (Suc j) cs = copied j cs @ [(cs @ [0]) ! j]"
  unfolding copied_def by (rule take_Suc_conv_app_nth) simp

lemma copied_past: "length cs < i \<Longrightarrow> length cs < j \<Longrightarrow> copied i cs = copied j cs"
  by (simp add: copied_def)

lemma strncpy_loop_text:
  assumes src: "\<And>i. i \<le> length cs \<Longrightarrow> i < N \<Longrightarrow> m (s + of_nat i) = (cs @ [0]) ! i" and cs: "0 \<notin> set cs" and N: "N < 2 ^ 32"
    and apart: "addrs d (length (copied N cs)) \<inter> addrs s (length (copied N cs)) = {}"
  shows "j \<le> length cs \<Longrightarrow> j + k = N \<Longrightarrow>
    strncpy_loop k d s (of_nat j) (write_bytes d (copied j cs) m) = (of_nat (min (length cs) N), write_bytes d (copied N cs) m)"
proof (induction k arbitrary: j)
  case 0
  then show ?case by (simp add: min_def)
next
  case (Suc k)
  let ?w = "\<lambda>i. write_bytes d (copied i cs) m"
  have j: "j < N" "j < length (copied N cs)" using Suc.prems by (simp_all add: length_copied)
  have old: "?w i (s + of_nat j) = (cs @ [0]) ! j" if "i \<le> N" for i
  proof -
    have "s + of_nat j \<in> addrs s (length (copied N cs))" using j(2) N by (intro in_addrs_offset) (simp_all add: length_copied)
    moreover have "addrs d (length (copied i cs)) \<subseteq> addrs d (length (copied N cs))" using that by (intro addrs_mono) (simp add: length_copied)
    ultimately have "?w i (s + of_nat j) = m (s + of_nat j)" using apart by (intro write_bytes_outside) blast
    then show ?thesis using src [OF Suc.prems(1) j(1)] by simp
  qed
  have "(?w j)(d + of_nat j := (cs @ [0]) ! j) = ?w (Suc j)"
    using write_bytes_snoc [of "copied j cs" d "(cs @ [0]) ! j" m] Suc.prems N
    by (simp add: copied_Suc length_copied min_absorb1)
  then have step: "strncpy_loop (Suc k) d s (of_nat j) (?w j) =
      (if (cs @ [0]) ! j = 0 then (of_nat j, ?w (Suc j)) else strncpy_loop k d s (of_nat (Suc j)) (?w (Suc j)))"
    using old [of j] old [of "Suc j"] j(1) by (simp add: Let_def add.commute)
  show ?case
  proof (cases "j = length cs")
    case True
    then show ?thesis using step Suc.prems(2) copied_past [of cs "Suc j" N] by (simp add: nth_append)
  next
    case False
    then have lt: "j < length cs" using Suc.prems(1) by simp
    then have "(cs @ [0]) ! j \<noteq> 0" using cs nth_mem [OF lt] by (metis nth_append)
    then show ?thesis using step Suc.IH [of "Suc j"] lt Suc.prems(2) by simp
  qed
qed

lemma strncpy_text:
  assumes src: "\<And>i. i \<le> length cs \<Longrightarrow> i < min n 255 \<Longrightarrow> m (s + of_nat i) = (cs @ [0]) ! i" and cs: "0 \<notin> set cs" and n: "n < 4096"
    and nz: "d \<noteq> 0" "s \<noteq> 0"
    and apart: "addrs d (length (copied (min n 255) cs)) \<inter> addrs s (length (copied (min n 255) cs)) = {}"
  shows "snd (strncpy d s (of_nat n) m) = write_bytes d (copied (min n 255) cs) m"
proof -
  have "unat (of_nat n :: u32) = n" using n by (intro unat_of_nat_u32) simp
  then have "unat (if (of_nat n :: u32) > 255 then 255 else of_nat n :: u32) = min n 255" by (simp add: word_less_nat_alt)
  moreover have "write_bytes d (copied 0 cs) m = m" by (simp add: copied_def write_bytes_def addrs_def)
  ultimately show ?thesis
    using strncpy_loop_text [OF src cs _ apart, of 0 "min n 255"] nz by (simp add: strncpy_def Let_def)
qed

text \<open>
  The copy through the page tables. \<open>B\<close> holds the bytes that it writes, which the tables do not
  lie in; the source lies outside, the destination at \<open>q\<close>.
\<close>

lemma strncpy_mmu_loop_text:
  assumes stable: "\<And>m' v. (\<forall>a. a \<notin> B \<longrightarrow> m' a = m a) \<Longrightarrow> translate m' dir v = translate m dir v"
    and src: "\<And>i. i \<le> length cs \<Longrightarrow> i < N \<Longrightarrow> \<exists>p. translate m dir (s + of_nat i) = Some p \<and> p \<notin> B \<and> m p = (cs @ [0]) ! i"
    and dst: "\<And>i. i < N \<Longrightarrow> translate m dir (d + of_nat i) = Some (q + of_nat i)"
    and cs: "0 \<notin> set cs" and N: "N < 2 ^ 32" and B: "addrs q N \<subseteq> B"
  shows "j \<le> length cs \<Longrightarrow> j + k = N \<Longrightarrow>
    strncpy_mmu_loop dir k d s (of_nat j) (write_bytes q (copied j cs) m) = Some (of_nat (min (length cs) N), write_bytes q (copied N cs) m)"
proof (induction k arbitrary: j)
  case 0
  then show ?case by (simp add: min_def)
next
  case (Suc k)
  let ?w = "\<lambda>i. write_bytes q (copied i cs) m"
  have j: "j < N" using Suc.prems by simp
  have out: "?w i a = m a" if "a \<notin> B" "i \<le> N" for i a
  proof (rule write_bytes_outside)
    have "addrs q (length (copied i cs)) \<subseteq> addrs q N" using that(2) by (intro addrs_mono) (simp add: length_copied)
    then show "a \<notin> addrs q (length (copied i cs))" using that(1) B by blast
  qed
  have tr: "translate (?w i) dir v = translate m dir v" if "i \<le> N" for i v
    using out that by (intro stable) blast
  obtain p where p: "translate m dir (s + of_nat j) = Some p" "p \<notin> B" "m p = (cs @ [0]) ! j" using src [of j] Suc.prems(1) j by blast
  have load: "mmu_load dir (?w i) (s + of_nat j) = Some ((cs @ [0]) ! j)" if "i \<le> N" for i
    using p tr [OF that] out [OF p(2) that] by (simp add: mmu_load_def)
  have "mmu_store dir (?w j) (d + of_nat j) ((cs @ [0]) ! j) = Some (?w (Suc j))"
    unfolding mmu_store_def using Suc.prems(1) N dst [of j] tr [of j] j
      write_bytes_snoc [of "copied j cs" q "(cs @ [0]) ! j" m] by (simp add: copied_Suc length_copied min_absorb1)
  then have step: "strncpy_mmu_loop dir (Suc k) d s (of_nat j) (?w j) =
      (if (cs @ [0]) ! j = 0 then Some (of_nat j, ?w (Suc j)) else strncpy_mmu_loop dir k d s (of_nat (Suc j)) (?w (Suc j)))"
    using load [of j] load [of "Suc j"] j by (simp add: add.commute)
  show ?case
  proof (cases "j = length cs")
    case True
    then show ?thesis using step Suc.prems(2) copied_past [of cs "Suc j" N] by (simp add: nth_append)
  next
    case False
    then have lt: "j < length cs" using Suc.prems(1) by simp
    then have "(cs @ [0]) ! j \<noteq> 0" using cs nth_mem [OF lt] by (metis nth_append)
    then show ?thesis using step Suc.IH [of "Suc j"] lt Suc.prems(2) by simp
  qed
qed

lemma store32_restores: "a \<in> addrs p 4 \<Longrightarrow> store32 p (load32 m p) m' a = m a"
proof -
  assume "a \<in> addrs p 4"
  then obtain i where i: "i < 4" "a = p + of_nat i" by (auto simp: addrs_iff)
  have byte: "ucast (drop_bit 0 (load32 m p)) = m p" "ucast (drop_bit 8 (load32 m p)) = m (p + 1)"
    "ucast (drop_bit 16 (load32 m p)) = m (p + 2)" "ucast (drop_bit 24 (load32 m p)) = m (p + 3)"
    by (rule bit_word_eqI, auto simp: load32_def bit_simps dest: bit_imp_le_length)+
  consider "i = 0" | "i = 1" | "i = 2" | "i = 3" using i(1) by linarith
  then show ?thesis
    by cases (use byte i(2) in \<open>simp_all add: store32_def\<close>)
qed

section \<open>Borrowing a page of the task\<close>

lemma translate_cong:
  assumes dir: "space_dir m page = dir"
    and same: "\<And>a. a \<in> addrs dir 4096 \<Longrightarrow> m' a = m a"
      "\<And>a k. k < 1024 \<Longrightarrow> a \<in> addrs (space_table m page k) 4096 \<Longrightarrow> m' a = m a"
  shows "translate m' dir v = translate m dir v"
proof -
  obtain i j where ij: "i < 1024" "j < 1024" "page_of v = word_of_nat i * 0x400000 + word_of_nat j * 4096"
    "v div 0x400000 = word_of_nat i" "v mod 0x400000 div 4096 = word_of_nat j"
    using page_decompose [OF page_of_facts(1) [of v]] unfolding page_of_facts(2,3) by metis
  have "load32 m' (cell dir i) = load32 m (cell dir i)" using same(1) by (rule load_cell_cong [OF ij(1)])
  moreover have "load32 m' (cell (space_table m page i) j) = load32 m (cell (space_table m page i) j)"
    using same(2) [OF ij(1)] by (rule load_cell_cong [OF ij(2)])
  ultimately show ?thesis by (simp add: translate_def ij(4,5) space_table_def dir Let_def)
qed

abbreviation user_flags :: u32 where
  "user_flags \<equiv> ucast (PAGING_IS_WRITEABLE OR PAGING_IS_PRESENT OR PAGING_ACCESS_FROM_ALL)"

lemma page_frame: "p mod 4096 = 0 \<Longrightarrow> (p OR user_flags) AND 0xFFFFF000 = p \<and> bit (p OR user_flags) 0"
  using table_of_entry [of p "PAGING_IS_WRITEABLE OR PAGING_IS_PRESENT OR PAGING_ACCESS_FROM_ALL" 0]
  by (simp add: bit_simps paging_consts)

lemma set_entry_present:
  assumes ok: "kheap_ok s" and sp: "space_ok s page" and pr: "space_present (mem s) page" and va: "va mod 4096 = 0"
    and set: "paging_set_entry_for_virtual_address (mem s) page va v = (r, m')"
  shows "space_present m' page" and "space_dir m' page = space_dir (mem s) page"
    and "\<And>a. a \<in> addrs page 4096 \<union> addrs (space_dir (mem s) page) 4096 \<Longrightarrow> m' a = mem s a"
proof -
  note t = set_entry_translation [OF ok sp va set]
  show keep: "\<And>a. a \<in> addrs page 4096 \<union> addrs (space_dir (mem s) page) 4096 \<Longrightarrow> m' a = mem s a"
    using t(4) space_blocks_apart(1) [OF ok sp] by blast
  show dir: "space_dir m' page = space_dir (mem s) page" using keep by (rule space_blocks_cong(1))
  have "load32 m' (cell (space_dir (mem s) page) i) = load32 (mem s) (cell (space_dir (mem s) page) i)" if "i < 1024" for i
    using keep by (intro load_cell_cong [OF that]) blast
  then show "space_present m' page" using pr by (simp add: space_present_def dir)
qed

lemma translate_mapped:
  assumes ok: "kheap_ok s" and sp: "space_ok s page" and pr: "space_present (mem s) page" and tmp: "tmp mod 4096 = 0"
    and map: "paging_map_page (mem s) page tmp tmp user_flags = (r, m')"
  shows "page_of v \<noteq> tmp \<Longrightarrow> translate m' (space_dir (mem s) page) v = translate (mem s) (space_dir (mem s) page) v"
    and "i < 4096 \<Longrightarrow> translate m' (space_dir (mem s) page) (tmp + of_nat i) = Some (tmp + of_nat i)"
proof -
  have set: "paging_set_entry_for_virtual_address (mem s) page tmp (tmp OR user_flags) = (r, m')"
    using map tmp by (simp add: paging_map_page_def paging_consts)
  note p = set_entry_present [OF ok sp pr tmp set] and t = set_entry_translation(3) [OF ok sp tmp set]
  show "page_of v \<noteq> tmp \<Longrightarrow> translate m' (space_dir (mem s) page) v = translate (mem s) (space_dir (mem s) page) v"
    using translate_entry [OF p(1), of v] translate_entry [OF pr, of v] t [OF page_of_facts(1), of v] by (simp add: p(2))
  assume i: "i < 4096"
  show "translate m' (space_dir (mem s) page) (tmp + of_nat i) = Some (tmp + of_nat i)"
    using translate_entry [OF p(1), of "tmp + of_nat i"] t [OF tmp] page_frame [OF tmp] page_of_page [OF tmp i] by (simp add: p(2) Let_def)
qed

text \<open>Setting the old entry again undoes the mapping, whatever was written to the page meanwhile.\<close>

lemma map_page_undone:
  assumes ok: "kheap_ok s" and sp: "space_ok s page" and tmp: "klive s tmp = Some 1" "tmp \<notin> set (space_blocks (mem s) page)"
    and map: "paging_map_page (mem s) page tmp tmp user_flags = (r, m')"
    and m3: "\<And>a. a \<notin> addrs tmp 4096 \<Longrightarrow> m3 a = m' a"
  shows "\<exists>m4. paging_set_entry_for_virtual_address m3 page tmp (paging_get_entry_of_address (mem s) page tmp) = (0, m4) \<and>
    (\<forall>a. m4 a = (if a \<in> addrs tmp 4096 then m3 a else mem s a))"
proof -
  have page: "tmp mod 4096 = 0" using klive_block [OF ok tmp(1)] by simp
  obtain i j where ij: "i < 1024" "j < 1024" "tmp = word_of_nat i * 0x400000 + word_of_nat j * 4096"
    "tmp div 0x400000 = word_of_nat i" "tmp mod 0x400000 div 4096 = word_of_nat j"
    using page by (rule page_decompose)
  let ?T = "space_table (mem s) page i"
  let ?c = "cell ?T j"
  have apart: "addrs tmp 4096 \<inter> addrs q 4096 = {}" if "q \<in> set (space_blocks (mem s) page)" for q
    using klive_apart [OF ok tmp(1), of q 1] sp that tmp(2) by (auto simp: space_ok_def)
  have blocks: "page \<in> set (space_blocks (mem s) page)" "space_dir (mem s) page \<in> set (space_blocks (mem s) page)"
    "?T \<in> set (space_blocks (mem s) page)"
    using ij(1) by (simp_all add: space_blocks_def)
  have m': "m' = store32 ?c (tmp OR user_flags) (mem s)"
    using map page set_entry_cell [OF page ij(1,2,4,5), of "mem s" page] by (simp add: paging_map_page_def paging_consts)
  have cin: "addrs ?c 4 \<subseteq> addrs ?T 4096" using cell_addrs [of j 1024 ?T] ij(2) by simp
  have keep: "m3 a = mem s a" if "a \<in> addrs page 4096 \<union> addrs (space_dir (mem s) page) 4096" for a
  proof -
    have "a \<notin> addrs tmp 4096" using that apart blocks(1,2) by blast
    moreover have "a \<notin> addrs ?c 4" using that cin space_blocks_apart(1) [OF ok sp ij(1)] by blast
    ultimately show ?thesis by (simp add: m3 m' store32_apply_other)
  qed
  have "space_table m3 page i = ?T" using keep ij(1) by (intro space_blocks_cong(2)) auto
  then have set: "paging_set_entry_for_virtual_address m3 page tmp v = (0, store32 ?c v m3)" for v
    using set_entry_cell [OF page ij(1,2,4,5), of m3 page] by simp
  have old: "paging_get_entry_of_address (mem s) page tmp = load32 (mem s) ?c" by (rule get_entry_cell [OF page ij(1,2,4,5)])
  have "store32 ?c (load32 (mem s) ?c) m3 a = (if a \<in> addrs tmp 4096 then m3 a else mem s a)" for a
  proof (cases "a \<in> addrs ?c 4")
    case True
    then show ?thesis using store32_restores cin apart [OF blocks(3)] by auto
  next
    case False
    then show ?thesis by (simp add: store32_apply_other m3 m')
  qed
  then show ?thesis unfolding set old by blast
qed

section \<open>Copying from a task\<close>

text \<open>
  The string \<open>cs\<close> at the virtual address \<open>v\<close> of the address space, in memory that is in use
  and apart from the space's own tables. No address of it is that of a free block of the heap.
\<close>

definition user_str :: "'a kernel_scheme \<Rightarrow> u32 \<Rightarrow> u32 \<Rightarrow> u8 list \<Rightarrow> bool" where
  "user_str s page v cs \<longleftrightarrow> 0 \<notin> set cs \<and> (\<forall>i \<le> length cs. v + of_nat i \<notin> kvacant s \<and>
     (\<exists>p. translate (mem s) (space_dir (mem s) page) (v + of_nat i) = Some p \<and> mem s p = (cs @ [0]) ! i \<and>
        p \<notin> kvacant s \<and> (\<forall>q \<in> set (space_blocks (mem s) page). p \<notin> addrs q 4096)))"

lemma space_same:
  assumes keep: "\<And>a q. q \<in> set (space_blocks (mem s) page) \<Longrightarrow> a \<in> addrs q 4096 \<Longrightarrow> mem s' a = mem s a"
  shows "space_blocks (mem s') page = space_blocks (mem s) page" and "space_dir (mem s') page = space_dir (mem s) page"
    and "translate (mem s') (space_dir (mem s) page) v = translate (mem s) (space_dir (mem s) page) v"
    and "space_present (mem s) page \<Longrightarrow> space_present (mem s') page"
proof -
  have blocks: "page \<in> set (space_blocks (mem s) page)" "space_dir (mem s) page \<in> set (space_blocks (mem s) page)"
    "i < 1024 \<Longrightarrow> space_table (mem s) page i \<in> set (space_blocks (mem s) page)" for i
    by (simp_all add: space_blocks_def)
  have two: "\<And>a. a \<in> addrs page 4096 \<union> addrs (space_dir (mem s) page) 4096 \<Longrightarrow> mem s' a = mem s a"
    using keep blocks(1,2) by blast
  show "space_blocks (mem s') page = space_blocks (mem s) page" using two by (rule space_blocks_cong(3))
  show dir: "space_dir (mem s') page = space_dir (mem s) page" using two by (rule space_blocks_cong(1))
  show "translate (mem s') (space_dir (mem s) page) v = translate (mem s) (space_dir (mem s) page) v"
    using keep blocks(2,3) by (intro translate_cong [of _ page]) blast+
  show "space_present (mem s) page \<Longrightarrow> space_present (mem s') page"
    using load_cell_cong [of _ "space_dir (mem s) page" "mem s'" "mem s"] two by (simp add: space_present_def dir)
qed

lemma space_kept:
  assumes ok: "kheap_ok s" and sp: "space_ok s page" and mem: "\<forall>a. a \<notin> kvacant s \<longrightarrow> mem s' a = mem s a"
  shows "space_blocks (mem s') page = space_blocks (mem s) page" and "space_dir (mem s') page = space_dir (mem s) page"
    and "translate (mem s') (space_dir (mem s) page) v = translate (mem s) (space_dir (mem s) page) v"
    and "space_present (mem s) page \<Longrightarrow> space_present (mem s') page"
proof -
  have keep: "mem s' a = mem s a" if "q \<in> set (space_blocks (mem s) page)" "a \<in> addrs q 4096" for a q
    using mem klive_vacant [OF ok, of q 1] sp that by (auto simp: space_ok_def)
  show "space_blocks (mem s') page = space_blocks (mem s) page" by (rule space_same(1)) (rule keep)
  show "space_dir (mem s') page = space_dir (mem s) page" by (rule space_same(2)) (rule keep)
  show "translate (mem s') (space_dir (mem s) page) v = translate (mem s) (space_dir (mem s) page) v"
    by (rule space_same(3)) (rule keep)
  show "space_present (mem s) page \<Longrightarrow> space_present (mem s') page" by (rule space_same(4)) (rule keep)
qed

lemma copy_in:
  assumes ok: "kheap_ok s1" and sp: "space_ok s1 page" and pr: "space_present (mem s1) page"
    and tmp: "klive s1 tmp = Some 1" "tmp \<notin> set (space_blocks (mem s1) page)"
    and src: "\<And>i. i \<le> length cs \<Longrightarrow> v + of_nat i \<notin> addrs tmp 4096 \<and>
      (\<exists>p. translate (mem s1) (space_dir (mem s1) page) (v + of_nat i) = Some p \<and> mem s1 p = (cs @ [0]) ! i \<and>
        p \<notin> addrs tmp 4096 \<and> (\<forall>q \<in> set (space_blocks (mem s1) page). p \<notin> addrs q 4096))"
    and n: "n < 4096" and cs: "0 \<notin> set cs" and v: "v \<noteq> 0"
    and map: "paging_map_page (mem s1) page tmp tmp user_flags = (r, m2)"
  shows "space_dir m2 page = space_dir (mem s1) page \<and>
    (\<exists>r. strncpy_mmu (space_dir (mem s1) page) tmp v (of_nat n) m2 = Some (r, write_bytes tmp (copied (min n 255) cs) m2)) \<and>
    (\<forall>a. (\<forall>q \<in> set (space_blocks (mem s1) page). a \<notin> addrs q 4096) \<longrightarrow> m2 a = mem s1 a)"
proof -
  let ?D = "space_dir (mem s1) page"
  have page: "tmp mod 4096 = 0" using klive_block [OF ok tmp(1)] by simp
  have set: "paging_set_entry_for_virtual_address (mem s1) page tmp (tmp OR user_flags) = (r, m2)"
    using map page by (simp add: paging_map_page_def paging_consts)
  note p2 = set_entry_present [OF ok sp pr page set] and t2 = translate_mapped [OF ok sp pr page map]
    and e2 = set_entry_translation [OF ok sp page set]
  have apart: "addrs tmp 4096 \<inter> addrs q 4096 = {}" if "q \<in> set (space_blocks (mem s1) page)" for q
    using klive_apart [OF ok tmp(1), of q 1] sp that tmp(2) by (auto simp: space_ok_def)
  have stable: "translate m' ?D w = translate m2 ?D w" if "\<forall>a. a \<notin> addrs tmp 4096 \<longrightarrow> m' a = m2 a" for m' w
  proof (rule translate_cong [OF p2(2)])
    have blocks: "?D \<in> set (space_blocks (mem s1) page)" by (simp add: space_blocks_def)
    show "a \<in> addrs ?D 4096 \<Longrightarrow> m' a = m2 a" for a using that apart [OF blocks] by blast
    show "m' a = m2 a" if k: "k < 1024" and a: "a \<in> addrs (space_table m2 page k) 4096" for a k
    proof -
      have "space_table m2 page k \<in> set (space_blocks m2 page)" using k by (simp add: space_blocks_def)
      then have "addrs tmp 4096 \<inter> addrs (space_table m2 page k) 4096 = {}" using apart e2(2) by simp
      then show ?thesis using \<open>\<forall>a. a \<notin> addrs tmp 4096 \<longrightarrow> m' a = m2 a\<close> a by blast
    qed
  qed
  have src2: "\<exists>p. translate m2 ?D (v + of_nat i) = Some p \<and> p \<notin> addrs tmp 4096 \<and> m2 p = (cs @ [0]) ! i" if le: "i \<le> length cs" for i
  proof -
    obtain p where p: "translate (mem s1) ?D (v + of_nat i) = Some p" "mem s1 p = (cs @ [0]) ! i" "p \<notin> addrs tmp 4096"
        "\<forall>q \<in> set (space_blocks (mem s1) page). p \<notin> addrs q 4096"
      using src [OF le] by blast
    have "page_of (v + of_nat i) \<noteq> tmp"
    proof
      assume "page_of (v + of_nat i) = tmp"
      then have "v + of_nat i - tmp = (v + of_nat i) mod 4096" using page_of_facts(4) [of "v + of_nat i"] by (metis add_diff_cancel_left')
      then have "unat (v + of_nat i - tmp) < 4096" by (simp add: unat_mod)
      then have "v + of_nat i \<in> addrs tmp 4096" by (simp add: addrs_def)
      then show False using src [OF le] by blast
    qed
    then have "translate m2 ?D (v + of_nat i) = Some p" using t2(1) p(1) by simp
    moreover have "m2 p = mem s1 p" using p(4) by (intro e2(4)) (auto simp: space_blocks_def)
    ultimately show ?thesis using p(2,3) by auto
  qed
  have dst: "translate m2 ?D (tmp + of_nat i) = Some (tmp + of_nat i)" if "i < min n 255" for i
    using t2(2) [of i] that by simp
  have B: "addrs tmp (min n 255) \<subseteq> addrs tmp 4096" by (intro addrs_mono) simp
  have "write_bytes tmp (copied 0 cs) m2 = m2" by (simp add: copied_def write_bytes_def addrs_def)
  then have "strncpy_mmu_loop ?D (min n 255) tmp v 0 m2 = Some (of_nat (min (length cs) (min n 255)), write_bytes tmp (copied (min n 255) cs) m2)"
    using strncpy_mmu_loop_text [OF stable src2 dst cs _ B, where j = 0 and k = "min n 255"] by simp
  moreover have "unat (of_nat n :: u32) = n" using n by (intro unat_of_nat_u32) simp
  then have "unat (if (of_nat n :: u32) > 255 then 255 else of_nat n :: u32) = min n 255" by (simp add: word_less_nat_alt)
  moreover have "tmp \<noteq> 0" using klive_block [OF ok tmp(1)] by simp
  moreover have "m2 a = mem s1 a" if "\<forall>q \<in> set (space_blocks (mem s1) page). a \<notin> addrs q 4096" for a
    using that by (intro e2(4)) (auto simp: space_blocks_def)
  ultimately show ?thesis using v p2(2) by (simp add: strncpy_mmu_def)
qed

lemma copy_from_user_runs:
  assumes mok: "machine_ok s" and t: "task_at s t = Some x" and sp: "space_ok s (page_directory x)"
    and pr: "space_present (mem s) (page_directory x)" and us: "user_str s (page_directory x) user_ptr cs"
    and n: "0 < n" "n < 4096" and room: "0 < kroom s" and nz: "user_ptr \<noteq> 0" "to \<noteq> 0"
    and to: "addrs to (length (copied (min n 255) cs)) \<inter> kvacant s = {}"
    and kd: "addrs (kernel_directory (paging s)) 4 \<inter> kvacant s = {}"
      "\<forall>q \<in> set (space_blocks (mem s) (page_directory x)). addrs (kernel_directory (paging s)) 4 \<inter> addrs q 4096 = {}"
  shows "\<exists>s'. copy_from_user t user_ptr to (int n) s = Some (0, s') \<and>
    bytes_at (mem s') to (length (copied (min n 255) cs)) = copied (min n 255) cs \<and>
    (length cs < min n 255 \<longrightarrow> str_at (mem s') to cs) \<and>
    (\<forall>a. a \<notin> kvacant s \<longrightarrow> a \<notin> addrs to (length (copied (min n 255) cs)) \<longrightarrow> mem s' a = mem s a) \<and>
    machine_ok s' \<and> klive s' = klive s \<and> objs s' = objs s \<and>
    cr3 (paging s') = load32 (mem s) (kernel_directory (paging s))"
proof -
  let ?page = "page_directory x"
  define bs where "bs = copied (min n 255) cs"
  have bs: "length bs \<le> 255" "length bs = min (min n 255) (Suc (length cs))" by (simp_all add: bs_def length_copied)
  have ok: "kheap_ok s" by (rule machine_okD [OF mok])
  have un: "unat (of_nat n :: u32) = n" using n by (intro unat_of_nat_u32) simp
  have size: "0 < (of_nat n :: u32)" "(of_nat n :: u32) \<le> 4096" using un n by (simp_all only: word_less_nat_alt word_le_nat_alt) simp_all
  obtain tmp s1 where a: "kzalloc s (of_nat n) = (tmp, s1)" by fastforce
  have tmp0: "tmp \<noteq> 0" using kzalloc_one [OF ok size room] a by simp
  have one: "blocks_for (of_nat n) = 1" by (rule blocks_for_one [OF size])
  have live: "kheap_ok s1" "klive s tmp = None" "klive s1 = (klive s)(tmp \<mapsto> 1)" using kzalloc_some [OF ok a tmp0] one by simp_all
  have vac: "addrs tmp 4096 \<subseteq> kvacant s" using kzalloc_vacant [OF ok a tmp0] one by simp
  have "addrs tmp n \<subseteq> addrs tmp 4096" using n by (intro addrs_mono) simp
  then have m1: "mem s1 b = mem s b" if "b \<notin> kvacant s" for b
    using that vac kzalloc_zero [OF ok a tmp0] un by auto
  have "\<forall>b. b \<notin> kvacant s \<longrightarrow> mem s1 b = mem s b" using m1 by blast
  note kept = space_kept [OF ok sp this]
  have sp1: "space_ok s1 ?page" using sp live(2) by (auto simp: space_ok_def kept(1) live(3))
  have tmp1: "klive s1 tmp = Some 1" "tmp \<notin> set (space_blocks (mem s1) ?page)"
    using sp live(2) by (auto simp: space_ok_def kept(1) live(3))
  have same: "objs s1 = objs s" "paging s1 = paging s" using kzalloc_frame [OF a] more_kernel [OF kzalloc_more [OF a]] by simp_all
  obtain r m2 where map: "paging_map_page (mem s1) ?page tmp tmp user_flags = (r, m2)" by fastforce
  have src: "user_ptr + of_nat i \<notin> addrs tmp 4096 \<and>
      (\<exists>p. translate (mem s1) (space_dir (mem s1) ?page) (user_ptr + of_nat i) = Some p \<and> mem s1 p = (cs @ [0]) ! i \<and>
        p \<notin> addrs tmp 4096 \<and> (\<forall>q \<in> set (space_blocks (mem s1) ?page). p \<notin> addrs q 4096))" if le: "i \<le> length cs" for i
  proof -
    obtain p where p: "translate (mem s) (space_dir (mem s) ?page) (user_ptr + of_nat i) = Some p" "mem s p = (cs @ [0]) ! i"
        "p \<notin> kvacant s" "\<forall>q \<in> set (space_blocks (mem s) ?page). p \<notin> addrs q 4096"
      using us le unfolding user_str_def by blast
    have "user_ptr + of_nat i \<notin> kvacant s" using us le by (simp add: user_str_def)
    then show ?thesis
      using p vac m1 [OF p(3)] by (intro conjI exI [of _ p]) (auto simp: kept(1-3))
  qed
  have cs: "0 \<notin> set cs" using us by (simp add: user_str_def)
  note cin = copy_in [OF live(1) sp1 kept(4) [OF pr] tmp1 src n(2) cs nz(1) map, folded bs_def]
  let ?m3 = "write_bytes tmp bs m2"
  have tstr: "addrs tmp (length bs) \<subseteq> addrs tmp 4096" using bs(1) by (intro addrs_mono) simp
  then have m3: "?m3 b = m2 b" if "b \<notin> addrs tmp 4096" for b using that by (intro write_bytes_outside) blast
  obtain m4 where m4: "paging_set_entry_for_virtual_address ?m3 ?page tmp (paging_get_entry_of_address (mem s1) ?page tmp) = (0, m4)"
    "\<And>b. m4 b = (if b \<in> addrs tmp 4096 then ?m3 b else mem s1 b)"
    using map_page_undone [OF live(1) sp1 tmp1 map m3] by blast
  have src4: "m4 (tmp + of_nat i) = (cs @ [0]) ! i" if "i \<le> length cs" "i < min n 255" for i
  proof -
    have i: "i < length bs" using that by (simp add: bs(2))
    then have "tmp + of_nat i \<in> addrs tmp 4096" using bs(1) by (intro in_addrs_offset) simp_all
    moreover have "?m3 (tmp + of_nat i) = bs ! i" using i bs(1) by (intro write_bytes_nth) simp_all
    moreover have "bs ! i = (cs @ [0]) ! i" unfolding bs_def using that(2) by (rule copied_nth)
    ultimately show ?thesis by (simp add: m4(2))
  qed
  have "addrs to (length bs) \<inter> addrs tmp (length bs) = {}" using to vac tstr by (auto simp: bs_def)
  then have out: "snd (strncpy to tmp (of_nat n) m4) = write_bytes to bs m4"
    unfolding bs_def by (intro strncpy_text src4 cs n(2) nz(2) tmp0)
  let ?m5 = "write_bytes to bs m4"
  define v where "v = switch_to_kernel_page ?m3 (switch_to_page m2 ?page (paging s1))"
  have mok1: "machine_ok (s1\<lparr>mem := ?m5, paging := v\<rparr>)"
    using kzalloc_machine_ok [OF mok a] by (simp add: machine_ok_def kheap_defs)
  have "klive (s1\<lparr>mem := ?m5, paging := v\<rparr>) tmp = Some 1" using live(3) by (simp add: kheap_defs)
  then obtain s' where s': "kfree (s1\<lparr>mem := ?m5, paging := v\<rparr>) tmp = Some s'" "machine_ok s'"
      "klive s' = (klive (s1\<lparr>mem := ?m5, paging := v\<rparr>))(tmp := None)"
    using kfree_machine_ok [OF mok1] by blast
  have run: "copy_from_user t user_ptr to (int n) s = Some (0, s')"
    using a n t tmp0 cin map m4(1) out s'(1) same
    by (auto simp: copy_from_user_def task_at_def switch_to_page_def space_dir_def v_def Let_def split_beta)
  have "mem s' = ?m5" using kfree_mem [OF s'(1)] by simp
  moreover have "bytes_at ?m5 to (length bs) = bs" using bs(1) by (intro bytes_at_write_bytes) simp
  moreover have "str_at ?m5 to cs" if "length cs < min n 255"
    using that cs copied_all [OF that] by (simp add: bs_def) (intro str_at_write_bytes; simp)
  moreover have "?m5 b = mem s b" if "b \<notin> kvacant s" "b \<notin> addrs to (length bs)" for b
    using that vac m1 m4(2) by (auto simp: write_bytes_outside)
  moreover have "klive s' = klive s" using s'(3) live(2,3) by (auto simp: kheap_defs)
  moreover have "objs s' = objs s" using kfree_frame [OF s'(1)] same(1) machine_ok_fresh [OF mok live(2)] by auto
  moreover have "cr3 (paging s') = load32 (mem s) (kernel_directory (paging s))"
  proof -
    let ?kd = "kernel_directory (paging s)"
    have "?m3 b = mem s b" if b: "b \<in> addrs ?kd 4" for b
    proof -
      have "b \<notin> kvacant s" "\<forall>q \<in> set (space_blocks (mem s1) ?page). b \<notin> addrs q 4096" using b kd by (auto simp: kept(1))
      then show ?thesis using cin m1 m3 vac by (metis subsetD)
    qed
    then have "load32 ?m3 ?kd = load32 (mem s) ?kd" by (rule load32_cong)
    moreover have "paging s' = v" using more_kernel [of s' "s1\<lparr>mem := ?m5, paging := v\<rparr>"] kfree_frame [OF s'(1)] by simp
    ultimately show ?thesis using same(2) by (simp add: v_def switch_to_kernel_page_def switch_to_page_def)
  qed
  ultimately show ?thesis using run s'(2) unfolding bs_def by (intro exI [of _ s']) simp
qed

end
