(* ===== verification/Task_Space.thy ===== *)
theory Task_Space
  imports User_Memory
begin

text \<open>
  The address space of a new task: fresh blocks, every page mapped to itself for user and kernel,
  and no byte in use changed.
\<close>

abbreviation task_flags :: u8 where
  "task_flags \<equiv> PAGING_IS_PRESENT OR PAGING_ACCESS_FROM_ALL"

definition fresh_space :: "'a machine_scheme \<Rightarrow> u32 \<Rightarrow> 'a machine_scheme \<Rightarrow> bool" where
  "fresh_space s page s' \<longleftrightarrow> space_ok s' page \<and> space_present (mem s') page \<and>
     (\<forall>va. va mod 4096 = 0 \<longrightarrow> paging_get_entry_of_address (mem s') page va = va OR ucast task_flags) \<and>
     (\<forall>q \<in> set (space_blocks (mem s') page). klive s q = None \<and> addrs q 4096 \<subseteq> kvacant s) \<and>
     (\<forall>a. a \<notin> kvacant s \<longrightarrow> mem s' a = mem s a) \<and> kvacant s' \<subseteq> kvacant s \<and>
     (\<forall>p. klive s p \<noteq> None \<longrightarrow> klive s' p = klive s p)"

lemma present_entry: "bit (t OR ucast task_flags OR w) 0" for t w :: u32
  by (simp add: bit_simps paging_consts)

lemma new_space_fresh:
  assumes "new_space s task_flags page s'"
  shows "fresh_space s page s'"
proof -
  have "space_present (mem s') page"
    using assms present_entry by (simp add: new_space_def space_present_def)
  moreover have "\<forall>p. klive s p \<noteq> None \<longrightarrow> klive s' p = klive s p"
    using assms by (auto simp: new_space_def)
  moreover have "\<forall>a. a \<notin> kvacant s \<longrightarrow> mem s' a = mem s a"
    using assms unfolding new_space_def by blast
  ultimately show ?thesis using assms unfolding new_space_def fresh_space_def by (elim conjE) (intro conjI)
qed

lemma fresh_translate:
  assumes "fresh_space s page s'"
  shows "translate (mem s') (space_dir (mem s') page) v = Some v"
proof -
  have pr: "space_present (mem s') page" and e: "paging_get_entry_of_address (mem s') page (page_of v) = page_of v OR ucast task_flags"
    using assms page_of_facts(1) [of v] by (simp_all add: fresh_space_def)
  have "(page_of v OR ucast task_flags) AND 0xFFFFF000 = page_of v" "bit (page_of v OR ucast task_flags) 0"
    using table_of_entry [OF page_of_facts(1) [of v], of task_flags 0] present_entry [of "page_of v" 0] by simp_all
  then show ?thesis using translate_entry [OF pr, of v] page_of_facts(4) [of v] by (simp add: e)
qed

lemma task_init_space:
  assumes ok: "machine_ok s" and room: "1026 \<le> kroom s" and init: "task_init t proc s = Some (0, s')"
  shows "\<exists>page x. fresh_space s page s' \<and> task_at s' t = Some x \<and> page_directory x = page \<and> kroom s = kroom s' + 1026"
proof -
  obtain x where x: "task_at s t = Some x" using init by (auto simp: task_init_def elim!: bind_SomeE)
  obtain page s1 where a: "make_new_4GB_virtual_memory_address_space (put_task t zero_task s) task_flags = (page, s1)" by fastforce
  have k: "kheap_ok (put_task t zero_task s)" "1026 \<le> kroom (put_task t zero_task s)" using ok room by (simp_all add: machine_ok_def)
  note new = make_new_space [OF k a]
  have page: "page \<noteq> 0" "objs s1 = objs (put_task t zero_task s)" using new by (simp_all add: new_space_def)
  then have t1: "task_at s1 t = Some zero_task" by (simp add: task_at_def put_task_def)
  obtain y1 y2 where s': "s' = put_task t y2 (put_task t y1 s1)" "page_directory y2 = page"
    using init x a t1 page(1) by (auto simp: task_init_def Let_def elim!: bind_SomeE split: if_split_asm)
  have "fresh_space s page s'" using new_space_fresh [OF new] by (simp add: fresh_space_def space_ok_def s'(1))
  moreover have "kroom s = kroom s' + 1026" using new by (simp add: new_space_def s'(1))
  ultimately show ?thesis using s' by simp
qed

lemma fresh_space_before:
  assumes f: "fresh_space s1 page s'" and g: "grows s s1"
  shows "fresh_space s page s'"
proof -
  have 1: "kvacant s1 \<subseteq> kvacant s" "\<And>p. klive s p \<noteq> None \<Longrightarrow> klive s1 p = klive s p" "\<And>a. a \<notin> kvacant s \<Longrightarrow> mem s1 a = mem s a"
    using g by (auto simp: grows_def)
  have fresh: "klive s q = None" if "klive s1 q = None" for q using 1(2) [of q] that by (cases "klive s q") auto
  have "\<forall>q \<in> set (space_blocks (mem s') page). klive s q = None \<and> addrs q 4096 \<subseteq> kvacant s"
    using f fresh 1(1) unfolding fresh_space_def by blast
  moreover have "\<forall>a. a \<notin> kvacant s \<longrightarrow> mem s' a = mem s a"
    using f 1(1,3) unfolding fresh_space_def by (metis subsetD)
  moreover have "klive s' p = klive s p" if "klive s p \<noteq> None" for p
    using f 1(2) [OF that] that unfolding fresh_space_def by metis
  ultimately show ?thesis using f 1(1) unfolding fresh_space_def by (elim conjE) (intro conjI; blast)
qed

text \<open>The whole effect of making a task on the memory and on the other objects.\<close>

lemma make_new_task_space:
  assumes ok: "sched_ok s ts" and room: "1027 \<le> kroom s"
  shows "\<exists>t s' x. make_new_task proc s = Some (t, s') \<and> \<not> IS_ERR t \<and> sched_ok s' (ts @ [t]) \<and> task_at s' t = Some x \<and>
    task_registers x = first_registers \<and> task_proc x = proc \<and> fresh_space s (page_directory x) s' \<and>
    klive s t = None \<and> klive s' t = Some 1 \<and> (\<forall>u. u \<noteq> t \<longrightarrow> u \<notin> set ts \<longrightarrow> objs s' u = objs s u) \<and>
    kroom s = kroom s' + 1027 \<and> processes s' = processes s \<and> paging s' = paging s \<and> literal s' = literal s \<and>
    kernel.more s' = kernel.more s"
proof -
  obtain t s' where make: "make_new_task proc s = Some (t, s')" "\<not> IS_ERR t" using make_new_task_returns [OF ok room] by blast
  obtain x where app: "sched_ok s' (ts @ [t])" "task_at s' t = Some x" "task_registers x = first_registers" "task_proc x = proc"
    using make_new_task_appends [OF ok make] by blast
  have mok: "machine_ok s" and tl: "task_list s ts" using ok by (simp_all add: sched_ok_def)
  obtain s1 s2 where 1: "kzalloc_obj s 64 (Obj_task zero_task) = (t, s1)" "t \<noteq> 0" "task_init t proc s1 = Some (0, s2)"
    "head_task s2 = 0 \<longrightarrow> s' = s2\<lparr>head_task := t, tail_task := t, current_task := t\<rparr>"
    "head_task s2 \<noteq> 0 \<longrightarrow> (\<exists>x y. task_at s2 (tail_task s2) = Some y \<and>
       task_at (put_task (tail_task s2) (y\<lparr>task_next := t\<rparr>) s2) t = Some x \<and>
       s' = put_task t (x\<lparr>task_prev := tail_task s2\<rparr>) (put_task (tail_task s2) (y\<lparr>task_next := t\<rparr>) s2)\<lparr>tail_task := t\<rparr>)"
    using make_new_taskE [OF make] by blast
  obtain 2: "t \<noteq> 0" "grows s s1" "kroom s = kroom s1 + 1" "klive s t = None" "klive s1 = (klive s)(t \<mapsto> 1)"
    "objs s1 = (objs s)(t \<mapsto> Obj_task zero_task)" "machine.more s1 = machine.more s"
    using kzalloc_obj_fits [OF mok, of 64 "Obj_task zero_task"] room 1(1) by auto
  obtain page y where 3: "fresh_space s1 page s2" "task_at s2 t = Some y" "page_directory y = page" "kroom s1 = kroom s2 + 1026"
    using task_init_space [OF growsD(1) [OF 2(2)] _ 1(3)] 2(3) room by auto
  obtain pd where 4: "machine_ok s2" "machine.more s2 = machine.more s1"
    "objs s2 = (objs s1)(t \<mapsto> Obj_task (zero_task\<lparr>page_directory := pd, task_registers := first_registers, task_proc := proc\<rparr>))"
    using task_init_done [OF growsD(1) [OF 2(2)] _ 1(3) refl] 2(5) by auto
  have heads: "head_task s2 = (if ts = [] then 0 else hd ts)" "tail_task s2 = (if ts = [] then 0 else last ts)"
      "processes s2 = processes s" "paging s2 = paging s" "literal s2 = literal s" "kernel.more s2 = kernel.more s"
    using more_kernel [of s2 s] 4(2) 2(7) tl by (simp_all add: task_list_def)
  have "mem s' = mem s2 \<and> g_kernel_heap s' = g_kernel_heap s2 \<and> processes s' = processes s2 \<and> paging s' = paging s2 \<and>
      literal s' = literal s2 \<and> kernel.more s' = kernel.more s2 \<and> page_directory x = page \<and> (\<forall>u. u \<noteq> t \<longrightarrow> u \<notin> set ts \<longrightarrow> objs s' u = objs s2 u)"
  proof (cases "ts = []")
    case True
    then have "s' = s2\<lparr>head_task := t, tail_task := t, current_task := t\<rparr>" using 1(4) heads by simp
    then show ?thesis using app(2) 3(2,3) by (simp add: task_at_def)
  next
    case False
    then have "hd ts \<in> set ts" "last ts \<in> set ts" by simp_all
    then have "head_task s2 \<noteq> 0" using heads tl False by (metis task_list_def)
    moreover have "t \<notin> set ts" using make_new_task_appends [OF ok make] by blast
    then have "last ts \<noteq> t" using \<open>last ts \<in> set ts\<close> by blast
    ultimately show ?thesis
      using 1(5) heads(2) False 3(2,3) app(2) \<open>last ts \<in> set ts\<close> by (auto simp: put_task_def put_obj_def task_at_def)
  qed
  then have same: "mem s' = mem s2" "g_kernel_heap s' = g_kernel_heap s2" "page_directory x = page"
      "processes s' = processes s" "paging s' = paging s" "literal s' = literal s" "kernel.more s' = kernel.more s" "\<forall>u. u \<noteq> t \<longrightarrow> u \<notin> set ts \<longrightarrow> objs s' u = objs s2 u"
    using heads by simp_all
  have "fresh_space s page s2" by (rule fresh_space_before [OF 3(1) 2(2)])
  then have "fresh_space s page s'" by (simp add: fresh_space_def space_ok_def kheap_defs same)
  moreover have "klive s' t = Some 1" using 3(1) 2(5) by (simp add: fresh_space_def kheap_defs same)
  moreover have "kroom s = kroom s' + 1027" using 2(3) 3(4) by (simp add: kroom_def same)
  ultimately show ?thesis
    using make app 2(4,6) 4(3) same by (intro exI [of _ t] exI [of _ s'] exI [of _ x]) (simp add: fun_eq_iff)
qed

end
