(* ===== verification/Task_Properties.thy ===== *)
theory Task_Properties
  imports Task_Space Example_Machine
begin

text \<open>
  What the task code promises: in every state that the scheduler reaches the tasks are one linked
  list with the current task on it, a new task is appended to it, and every task gets its turn.
  Taking a task out of the middle leaves a pointer to it behind. A string is copied from a task's
  memory as the task sees it.
\<close>

section \<open>Example kernels\<close>

text \<open>A kernel with an empty heap of 25600 blocks and no task.\<close>

definition kernel_of :: "heap \<Rightarrow> (u32 \<Rightarrow> kobj option) \<Rightarrow> u32 \<Rightarrow> u32 \<Rightarrow> u32 \<Rightarrow> kernel" where
  "kernel_of h os cur tail head = \<lparr>mem = (\<lambda>a. 1), con = \<lparr>vram = (\<lambda>a. 0), g_row = 0, g_column = 0, g_color = 15\<rparr>,
     g_kernel_heap = h, objs = os, io = [], disk_var = fat_disk,
     disk_address = 0x8000, fat16_fs_address = 0x9000, tmp_filename = 0xA000,
     filesystems = 0x9000 # replicate 11 0, file_descriptors = replicate 512 0,
     paging = \<lparr>kernel_directory = 0x7000, current_directory = 0, cr3 = 0\<rparr>, data_segments = KERNEL_DATA_SELECTOR,
     current_task = cur, tail_task = tail, head_task = head, current_process = 0, processes = replicate 20 0,
     literal = (\<lambda>l. 0xB000), stat_local = 0xC000\<rparr>"

lemma kernel_of_simps [simp]:
  "mem (kernel_of h os cur tail head) = (\<lambda>a. 1)" "objs (kernel_of h os cur tail head) = os"
  "g_kernel_heap (kernel_of h os cur tail head) = h" "current_task (kernel_of h os cur tail head) = cur"
  "tail_task (kernel_of h os cur tail head) = tail" "head_task (kernel_of h os cur tail head) = head"
  "processes (kernel_of h os cur tail head) = replicate 20 0" "paging (kernel_of h os cur tail head) = \<lparr>kernel_directory = 0x7000, current_directory = 0, cr3 = 0\<rparr>"
  by (simp_all add: kernel_of_def)

definition idle_kernel :: kernel where
  "idle_kernel = kernel_of (g_kernel_heap (kheap_init fat_machine)) (\<lambda>p. None) 0 0 0"

lemma idle_kernel_ok: "sched_ok idle_kernel []" "kroom idle_kernel = 25600"
  using kheap_init_heap [of fat_machine]
  by (simp_all add: idle_kernel_def sched_ok_def machine_ok_def task_list_def links_ok_def kheap_defs)

text \<open>A kernel with three tasks on its list.\<close>

definition busy_kernel :: kernel where
  "busy_kernel = kernel_of used_heap
     [0x01000000 \<mapsto> Obj_task (zero_task\<lparr>page_directory := 0x01003000, task_next := 0x01001000\<rparr>),
      0x01001000 \<mapsto> Obj_task (zero_task\<lparr>page_directory := 0x01004000, task_prev := 0x01000000, task_next := 0x01002000\<rparr>),
      0x01002000 \<mapsto> Obj_task (zero_task\<lparr>page_directory := 0x01005000, task_prev := 0x01001000\<rparr>)] 0x01001000 0x01002000 0x01000000"

lemma busy_kernel_ok: "sched_ok busy_kernel [0x01000000, 0x01001000, 0x01002000]"
proof -
  have "machine_ok busy_kernel"
    using used_heap_ok used_live by (auto simp: busy_kernel_def machine_ok_def kheap_defs)
  moreover have "links_ok busy_kernel [0x01000000, 0x01001000, 0x01002000]"
    by (auto simp: links_ok_def link_def busy_kernel_def task_at_def zero_task_def less_Suc_eq)
  ultimately show ?thesis by (simp add: sched_ok_def task_list_def busy_kernel_def)
qed

section \<open>Properties\<close>

text \<open>
  C11. In every state the scheduler reaches from an empty one, by making tasks, switching,
  entering and leaving the kernel and saving registers, the tasks are one doubly linked list
  from the head to the tail that holds the current task, and the state determines this list.
  Each further step leaves the list as it is or adds one new task at its end, and in every
  later state the list is a prefix of the list then.
\<close>

lemma scheduler_invariant:
  assumes "sched_ok s0 []" and "reachable s0 s"
  shows "\<exists>ts. sched_ok s ts \<and> (\<forall>us. sched_ok s us \<longrightarrow> us = ts) \<and>
    (\<forall>s'. sched_step s s' \<longrightarrow> sched_ok s' ts \<or> (\<exists>t. t \<notin> set ts \<and> sched_ok s' (ts @ [t]))) \<and>
    (\<forall>s'. reachable s s' \<longrightarrow> (\<exists>us. sched_ok s' (ts @ us)))"
proof -
  obtain ts where ts: "sched_ok s ts" using reachable_ok [OF assms(2,1)] by auto
  then have "us = ts" if "sched_ok s us" for us using that task_list_unique [of s ts us] by (simp add: sched_ok_def)
  then show ?thesis using ts sched_step_ok [OF ts] reachable_ok [OF _ ts] by blast
qed

lemma scheduler_invariant_witness:
  "\<exists>s t. reachable idle_kernel s \<and> sched_ok s [t] \<and>
     (\<forall>s'. sched_step s s' \<longrightarrow> sched_ok s' [t] \<or> (\<exists>u. u \<noteq> t \<and> sched_ok s' [t, u]))"
proof -
  obtain t s where t: "make_new_task 0 idle_kernel = Some (t, s)" "\<not> IS_ERR t"
    using make_new_task_returns [OF idle_kernel_ok(1), of 0] idle_kernel_ok(2) by auto
  then have r: "reachable idle_kernel s" by (blast intro: reachable.intros sched_step.spawn)
  have one: "sched_ok s [t]" using make_new_task_appends [OF idle_kernel_ok(1) t] by simp
  obtain ts where ts: "\<forall>us. sched_ok s us \<longrightarrow> us = ts"
    "\<forall>s'. sched_step s s' \<longrightarrow> sched_ok s' ts \<or> (\<exists>u. u \<notin> set ts \<and> sched_ok s' (ts @ [u]))"
    using scheduler_invariant [OF idle_kernel_ok(1) r] by blast
  then have "ts = [t]" using one by blast
  then show ?thesis using ts(2) r one by (intro exI [of _ s] exI [of _ t]) auto
qed

text \<open>
  C16. \<open>make_new_task\<close> on the list of tasks is appending one: the new task is the
  last, starts at the program address with the user segments, and belongs to the process, when
  1027 blocks are free; when none is free the result is the error pointer of
  \<open>-ENOMEM\<close> and nothing changes.
\<close>

lemma new_task_appended:
  assumes "sched_ok s ts"
  shows "(1027 \<le> kroom s \<longrightarrow> (\<exists>t s' x. make_new_task proc s = Some (t, s') \<and> \<not> IS_ERR t \<and> sched_ok s' (ts @ [t]) \<and> t \<notin> set ts \<and>
      current_task s' = (if ts = [] then t else current_task s) \<and> task_at s' t = Some x \<and> page_directory x \<noteq> 0 \<and>
      task_proc x = proc \<and> task_registers x = first_registers)) \<and>
    (kroom s = 0 \<longrightarrow> make_new_task proc s = Some (ERR_PTR (- ENOMEM), s))"
  using make_new_task_returns [OF assms, of proc] make_new_task_appends [OF assms, of proc] make_new_task_full [OF assms] by blast

lemma new_task_appended_witness: "\<exists>t s'. make_new_task 0 idle_kernel = Some (t, s') \<and> sched_ok s' [t]"
  using new_task_appended [OF idle_kernel_ok(1), of 0] idle_kernel_ok(2) by auto

text \<open>
  C21. Switching to the next task as often as there are tasks runs every task once: each task
  of the list gets its turn, with its page directory loaded.
\<close>

lemma every_task_runs:
  assumes "sched_ok s ts" and "t \<in> set ts"
  shows "\<exists>n s' x. 1 \<le> n \<and> n \<le> length ts \<and> take_turns n s = Some s' \<and> current_task s' = t \<and> sched_ok s' ts \<and>
    task_at s' t = Some x \<and> cr3 (paging s') = load32 (mem s') (page_directory x)"
proof -
  obtain j where j: "j < length ts" "ts ! j = t" using assms(2) by (auto simp: in_set_conv_nth)
  then have ne: "ts \<noteq> []" by auto
  then obtain i where i: "i < length ts" "current_task s = ts ! i" using assms(1) by (auto simp: sched_ok_def in_set_conv_nth)
  define n where "n = (if i < j then j - i else length ts - i + j)"
  have n: "1 \<le> n" "n \<le> length ts" "(i + n) mod length ts = j" using i(1) j(1) by (auto simp: n_def)
  obtain s' where s': "take_turns n s = Some s'" "sched_ok s' ts" "current_task s' = ts ! ((i + n) mod length ts)" "mem s' = mem s"
    "0 < n \<longrightarrow> (\<exists>x. task_at s' (current_task s') = Some x \<and> cr3 (paging s') = load32 (mem s) (page_directory x))"
    using take_turns_list [OF assms(1) i, of n] by blast
  then show ?thesis using n j by auto
qed

lemma every_task_runs_witness:
  "\<exists>n s'. 1 \<le> n \<and> n \<le> 3 \<and> take_turns n busy_kernel = Some s' \<and> current_task s' = 0x01000000"
  using every_task_runs [OF busy_kernel_ok, of "0x01000000"] by auto

text \<open>
  C27. Taking a task out of the middle of the list and freeing it, as
  \<open>release_task\<close> does, leaves the \<open>prev\<close> pointer of its successor at
  the freed task, so that taking out the successor then reads freed memory.
\<close>

lemma removed_task_dangles:
  assumes "task_list s ts" and "0 < i" and "Suc i < length ts"
    and "remove_task_from_linked_list (ts ! i) s = Some s1" and "kfree s1 (ts ! i) = Some s2"
  shows "(\<exists>x. task_at s1 (ts ! (i - 1)) = Some x \<and> task_next x = ts ! Suc i) \<and>
    (\<exists>x. task_at s1 (ts ! Suc i) = Some x \<and> task_prev x = ts ! i) \<and> task_at s2 (ts ! i) = None \<and>
    remove_task_from_linked_list (ts ! Suc i) s2 = None"
proof -
  note rm = remove_task_middle [OF assms(1-4)]
  obtain x where x: "task_at s1 (ts ! Suc i) = Some x" "task_prev x = ts ! i" using rm by blast
  have "ts ! i \<in> set ts" "ts ! Suc i \<in> set ts" using assms(3) by simp_all
  then have "ts ! i \<noteq> 0" "ts ! Suc i \<noteq> 0" using assms(1) by (auto simp: task_list_def)
  moreover have "ts ! Suc i \<noteq> ts ! i" using assms(1,3) by (auto simp: task_list_def nth_eq_iff_index_eq)
  ultimately have "remove_task_from_linked_list (ts ! Suc i) s2 = None" using remove_after_freed [OF x _ _ assms(5)] by blast
  moreover have "task_at s2 (ts ! i) = None" using kfree_frame [OF assms(5)] by (simp add: task_at_def)
  ultimately show ?thesis using rm by blast
qed

lemma removed_task_dangles_witness:
  "\<exists>s1 s2. remove_task_from_linked_list 0x01001000 busy_kernel = Some s1 \<and> kfree s1 0x01001000 = Some s2 \<and>
     remove_task_from_linked_list 0x01002000 s2 = None"
proof -
  obtain s1 where 1: "remove_task_from_linked_list 0x01001000 busy_kernel = Some s1"
    by (simp add: remove_task_from_linked_list_def busy_kernel_def task_at_def zero_task_def get_next_task_def put_task_def put_obj_def)
  have ok1: "machine_ok s1" "klive s1 0x01001000 = Some 1"
    using remove_task_heap [OF _ 1] busy_kernel_ok used_live by (auto simp: sched_ok_def klive_def busy_kernel_def)
  obtain s2 where 2: "kfree s1 0x01001000 = Some s2" using kfree_machine_ok [OF ok1] by blast
  show ?thesis
    using removed_task_dangles [of busy_kernel "[0x01000000, 0x01001000, 0x01002000]" 1 s1 s2] busy_kernel_ok 1 2
    by (auto simp: sched_ok_def)
qed


section \<open>Copying from user memory\<close>

text \<open>
  C15. \<open>copy_from_user\<close> of a string through the tables of a task, with a limit
  from 1 to 4095, copies the string and its terminator to the kernel address, cut after as
  many bytes as the limit and after 255 at most, and returns 0 in either case: shorter than
  both, the string is whole and terminated there. It changes no other byte in use, leaves the
  tables, the allocations and the objects as they were, and ends on the directory of the
  kernel.
\<close>

lemma copy_from_user_copies:
  assumes "machine_ok s" and "task_at s t = Some x" and "space_ok s (page_directory x)"
    and "space_present (mem s) (page_directory x)" and "user_str s (page_directory x) user_ptr cs"
    and "0 < n" and "n < 4096" and "0 < kroom s" and "user_ptr \<noteq> 0" and "to \<noteq> 0"
    and "addrs to (length (copied (min n 255) cs)) \<inter> kvacant s = {}" and "addrs (kernel_directory (paging s)) 4 \<inter> kvacant s = {}"
    and "\<forall>q \<in> set (space_blocks (mem s) (page_directory x)). addrs (kernel_directory (paging s)) 4 \<inter> addrs q 4096 = {}"
  shows "\<exists>s'. copy_from_user t user_ptr to (int n) s = Some (0, s') \<and>
    bytes_at (mem s') to (length (copied (min n 255) cs)) = copied (min n 255) cs \<and>
    (length cs < min n 255 \<longrightarrow> str_at (mem s') to cs) \<and>
    (\<forall>a. a \<notin> kvacant s \<longrightarrow> a \<notin> addrs to (length (copied (min n 255) cs)) \<longrightarrow> mem s' a = mem s a) \<and>
    machine_ok s' \<and> klive s' = klive s \<and> objs s' = objs s \<and>
    cr3 (paging s') = load32 (mem s) (kernel_directory (paging s))"
  using assms by (rule copy_from_user_runs)

text \<open>The idle kernel with the string \<open>hi\<close> at \<open>0x400000\<close>.\<close>

definition hi_kernel :: kernel where
  "hi_kernel = idle_kernel\<lparr>mem := write_bytes 0x400000 [0x68, 0x69, 0] (mem idle_kernel)\<rparr>"

lemma hi_kernel_ok: "sched_ok hi_kernel []" "kroom hi_kernel = 25600"
  using idle_kernel_ok by (simp_all add: hi_kernel_def sched_ok_def machine_ok_def task_list_def links_ok_def)

lemma hi_kernel_low: "unat p + n \<le> 0x01000000 \<Longrightarrow> addrs p n \<inter> kvacant hi_kernel = {}"
  by (intro below_heap) (simp add: hi_kernel_def idle_kernel_def kheap_init_def heap_create_def heap_validate_alignment_def
    heap_validate_table_def KERNEL_HEAP_SIZE_BYTES_def KERNEL_HEAP_START_ADDRESS_def heap_consts Let_def)

lemma hi_kernel_str: "i \<le> 2 \<Longrightarrow> mem hi_kernel (0x400000 + of_nat i) = [0x68, 0x69, 0] ! i"
  unfolding hi_kernel_def using write_bytes_nth [of i "[0x68, 0x69, 0]" "0x400000"] by simp

lemma copy_from_user_copies_witness:
  "\<exists>t s s'. make_new_task 0 hi_kernel = Some (t, s) \<and> copy_from_user t 0x400000 0x500000 16 s = Some (0, s') \<and>
     str_at (mem s') 0x500000 [0x68, 0x69]"
proof -
  obtain t s x where make: "make_new_task 0 hi_kernel = Some (t, s)" "sched_ok s ([] @ [t])" "task_at s t = Some x"
    "fresh_space hi_kernel (page_directory x) s" "kroom hi_kernel = kroom s + 1027" "paging s = paging hi_kernel"
    using make_new_task_space [OF hi_kernel_ok(1), of 0] hi_kernel_ok(2) by auto
  let ?page = "page_directory x"
  note f = make(4) [unfolded fresh_space_def]
  have low: "addrs p n \<inter> kvacant s = {}" "q \<in> set (space_blocks (mem s) ?page) \<Longrightarrow> addrs p n \<inter> addrs q 4096 = {}"
    if "unat p + n \<le> 0x01000000" for p n q
    using hi_kernel_low [OF that] f by blast+
  have "user_str s ?page 0x400000 [0x68, 0x69]"
    unfolding user_str_def
  proof (intro conjI allI impI)
    fix i :: nat assume "i \<le> length [0x68, 0x69 :: u8]"
    then have i: "i \<le> 2" by simp
    have "0x400000 + of_nat i \<in> addrs (0x400000 :: u32) 3" using i by (intro in_addrs_offset) simp_all
    then have out: "0x400000 + of_nat i \<notin> kvacant s" "0x400000 + of_nat i \<notin> kvacant hi_kernel"
      "q \<in> set (space_blocks (mem s) ?page) \<Longrightarrow> 0x400000 + of_nat i \<notin> addrs q 4096" for q
      using low(1) [of "0x400000" 3] low(2) [of "0x400000" 3 q] hi_kernel_low [of "0x400000" 3] by auto
    then show "0x400000 + of_nat i \<notin> kvacant s" by blast
    have "mem s (0x400000 + of_nat i) = [0x68, 0x69, 0] ! i" using f out(2) hi_kernel_str [OF i] by metis
    then show "\<exists>p. translate (mem s) (space_dir (mem s) ?page) (0x400000 + of_nat i) = Some p \<and>
        mem s p = ([0x68, 0x69] @ [0]) ! i \<and> p \<notin> kvacant s \<and> (\<forall>q \<in> set (space_blocks (mem s) ?page). p \<notin> addrs q 4096)"
      using fresh_translate [OF make(4)] out by simp
  qed simp
  moreover have "machine_ok s" "space_ok s ?page" "space_present (mem s) ?page" "0 < kroom s"
    using make(2,5) f hi_kernel_ok by (simp_all add: sched_ok_def)
  moreover have "kernel_directory (paging s) = 0x7000" by (simp add: make(6) hi_kernel_def idle_kernel_def)
  moreover have "addrs 0x500000 (length (copied (min 16 255) [0x68, 0x69])) \<inter> kvacant s = {}"
    by (rule low(1)) (simp add: length_copied)
  ultimately show ?thesis
    using copy_from_user_copies [OF _ make(3), where user_ptr = "0x400000" and cs = "[0x68, 0x69]" and n = 16 and to = "0x500000"]
      low(1) [of "0x7000" 4] low(2) [of "0x7000" 4] make(1)
    by auto
qed

end
