(* ===== verification/Process_Correct.thy ===== *)
theory Process_Correct
  imports Task_Space
begin

text \<open>
  Loading a program. What the calls of the file layer leave of the kernel's own state, whatever the
  driver is, and then which slot of the process table a new process takes.
\<close>

section \<open>The file layer leaves the kernel's fields alone\<close>

lemma more_kernel_part: "machine.more s' = machine.more s \<Longrightarrow> fs_machine.more s' = fs_machine.more s" for s s' :: "'a fs_machine_scheme"
  by (cases s; cases s') simp

lemma kernel_part_processes: "fs_machine.more s' = fs_machine.more s \<Longrightarrow> processes s' = processes s" for s s' :: "'a kernel_scheme"
  by (cases s; cases s') simp

lemma klog_kernel_part [simp]: "fs_machine.more (klog t s) = fs_machine.more s"
  by (rule more_kernel_part) simp

lemma put_obj_kernel_part [simp]: "fs_machine.more (put_obj p x s) = fs_machine.more s"
  by (rule more_kernel_part) simp

lemma make_fd_kernel_part: "make_new_file_descriptor s = Some (r, fd, s') \<Longrightarrow> fs_machine.more s' = fs_machine.more s"
  by (auto simp: make_new_file_descriptor_def Let_def elim!: bind_SomeE split: option.split_asm prod.split_asm
    dest!: kzalloc_obj_more more_kernel_part)

locale kernel_drivers = fs_drivers fss for fss :: "'a kernel_scheme fs_table" +
  assumes open_kernel: "fss f = Some ops \<Longrightarrow> fs_open_fn ops d path mode s = Some (p, s') \<Longrightarrow> fs_machine.more s' = fs_machine.more s"
    and read_kernel: "fss f = Some ops \<Longrightarrow> fs_read_fn ops d q size_bytes nmemb out s = Some (r, s') \<Longrightarrow> fs_machine.more s' = fs_machine.more s"
    and stat_kernel: "fss f = Some ops \<Longrightarrow> fs_stat_fn ops d q stat s = Some (r, s') \<Longrightarrow> fs_machine.more s' = fs_machine.more s"
begin

lemma fread_kernel: "fread fss fd ptr size_bytes nmemb s = Some (r, s') \<Longrightarrow> fs_machine.more s' = fs_machine.more s"
  by (auto simp: fread_def fd_ops_def Let_def elim!: bind_SomeE split: if_split_asm dest: read_kernel)

lemma fstat_kernel: "fstat fss fd stat s = Some (r, s') \<Longrightarrow> fs_machine.more s' = fs_machine.more s"
  by (auto simp: fstat_def fd_ops_def Let_def elim!: bind_SomeE split: if_split_asm dest: stat_kernel)

lemma fopen_kernel:
  assumes "fopen fss name mode s = Some (r, s')"
  shows "fs_machine.more s' = fs_machine.more s"
proof -
  note keeps = path_parse_more [THEN more_kernel_part] klog_at_more [THEN more_kernel_part]
    klog_number_more [THEN more_kernel_part] make_fd_kernel_part
  obtain r where "fopen_res fss name mode s = Some (r, s')" using assms by (auto simp: fopen_def elim!: bind_SomeE)
  then show ?thesis
    by (auto simp: fopen_res_def elim!: bind_SomeE simp: Let_def split: prod.split_asm if_split_asm dest!: keeps)
      (drule (1) open_kernel, simp)+
qed

end

lemma same_vfs_kernel_part: "same_vfs s s' \<Longrightarrow> fs_machine.more s' = fs_machine.more s" for s s' :: "'a fs_machine_scheme"
  by (cases s; cases s') (simp add: same_vfs_def)

interpretation kernel_fs_parts: kernel_drivers "kernel_filesystems dev a"
  by unfold_locales
    (auto simp: kernel_filesystems_def fat16_ops_def split: if_split_asm
      dest!: outside.fat16_open_frame outside.fat16_read_frame outside.fat16_stat_frame
      intro: same_vfs_kernel_part)

section \<open>Mapping the program\<close>

lemma map_range_loop_res:
  "map_range_loop n page virt phys flags res m = (r, m') \<Longrightarrow> res = 0 \<or> res = - EINVAL \<Longrightarrow> r = 0 \<or> r = - EINVAL"
proof (induction n arbitrary: virt phys res m)
  case (Suc n)
  obtain r1 m1 where 1: "paging_map_page m page virt phys flags = (r1, m1)" by fastforce
  then have "r1 = 0 \<or> r1 = - EINVAL"
    by (auto simp: paging_map_page_def paging_set_entry_for_virtual_address_def paging_get_indexes_def Let_def split: if_split_asm)
  then show ?case using Suc.prems(1) Suc.IH 1 by (auto split: if_split_asm)
qed simp

lemma map_virtual_memory_res:
  "paging_map_virtual_memory m page virt phys phys_end flags = (r, m') \<Longrightarrow> r = 0 \<or> r = - EINVAL"
  by (auto simp: paging_map_virtual_memory_def paging_map_memory_by_range_def Let_def split: if_split_asm dest: map_range_loop_res)

section \<open>What the other steps do to the process table\<close>

lemma put_obj_processes [simp]: "processes (put_obj p x s) = processes s"
  by (simp add: put_obj_def)

lemma more_processes: "machine.more s' = machine.more s \<Longrightarrow> processes s' = processes s" for s s' :: "'a kernel_scheme"
  using more_kernel by blast

lemma remove_task_processes: "remove_task_from_linked_list t s = Some s' \<Longrightarrow> processes s' = processes s"
  by (auto simp: remove_task_from_linked_list_def Let_def elim!: bind_SomeE split: if_split_asm)

lemma kfree_processes: "kfree s p = Some s' \<Longrightarrow> processes s' = processes s" for s s' :: "'a kernel_scheme"
  by (rule more_processes) (simp add: kfree_frame)

lemma kzalloc_processes: "kzalloc s n = (p, s') \<Longrightarrow> processes s' = processes s" for s s' :: "'a kernel_scheme"
  by (rule more_processes) (rule kzalloc_more)

lemma fold_kfree_processes:
  "fold (\<lambda>i r. do { s \<leftarrow> r; let entry = f i s; kfree s (g entry) }) is (Some s) = Some s' \<Longrightarrow> processes s' = processes s"
  for s s' :: "'a kernel_scheme"
proof (induction "is" arbitrary: s)
  case (Cons i js)
  show ?case
  proof (cases "kfree s (g (f i s))")
    case None
    then show ?thesis using Cons.prems by (simp add: Let_def)
  next
    case (Some s1)
    then have "processes s' = processes s1" using Cons.prems by (intro Cons.IH) (simp add: Let_def)
    then show ?thesis using kfree_processes [OF Some] by simp
  qed
qed simp

lemma release_space_processes:
  "release_4GB_virtual_memory_address_space s page = Some s' \<Longrightarrow> processes s' = processes s" for s s' :: "'a kernel_scheme"
  unfolding release_4GB_virtual_memory_address_space_def Let_def
  apply (elim bind_SomeE)
  apply (drule fold_kfree_processes [where f = "\<lambda>i s. load32 (mem s) (cell (load32 (mem s) page) i)" and g = "\<lambda>e. e AND 0xFFFFF000", unfolded Let_def])
  by (auto dest!: kfree_processes)

lemma release_task_processes: "release_task t s = Some s' \<Longrightarrow> processes s' = processes s"
  by (auto simp: release_task_def elim!: bind_SomeE split: if_split_asm
    dest!: release_space_processes remove_task_processes kfree_processes)


lemma make_tables_more: "fold (make_page_table d f) js (o1, s) = (o2, s') \<Longrightarrow> machine.more s' = machine.more s"
proof (induction js arbitrary: o1 s)
  case (Cons i js)
  obtain o3 s1 where 1: "make_page_table d f i (o1, s) = (o3, s1)" by fastforce
  then have "machine.more s1 = machine.more s" by (auto simp: make_page_table_def split: prod.split_asm dest!: kzalloc_more)
  moreover have "machine.more s' = machine.more s1" by (rule Cons.IH) (use Cons.prems 1 in simp)
  ultimately show ?case by simp
qed simp

lemma make_space_more:
  "make_new_4GB_virtual_memory_address_space s f = (p, s') \<Longrightarrow> machine.more s' = machine.more s"
  by (auto simp: make_new_4GB_virtual_memory_address_space_def split: prod.split_asm dest!: kzalloc_more make_tables_more)

lemma task_init_processes: "task_init t proc s = Some (r, s') \<Longrightarrow> processes s' = processes s"
proof -
  assume init: "task_init t proc s = Some (r, s')"
  obtain page s1 where a: "make_new_4GB_virtual_memory_address_space (put_task t zero_task s) task_flags = (page, s1)" by fastforce
  have "machine.more s1 = machine.more (put_task t zero_task s)"
    using make_space_more [OF a] by simp
  then have "processes s1 = processes s" using more_processes by fastforce
  then show ?thesis
    using init a by (auto simp: task_init_def Let_def elim!: bind_SomeE split: if_split_asm)
qed

lemma make_new_task_processes: "make_new_task proc s = Some (t, s') \<Longrightarrow> processes s' = processes s"
  by (auto simp: make_new_task_def kzalloc_obj_def Let_def elim!: bind_SomeE split: prod.split_asm if_split_asm
    dest!: kzalloc_processes task_init_processes release_task_processes)

section \<open>The slot of a new process\<close>

context kernel_drivers
begin

lemma load_binary_processes: "process_load_binary fss name p s = Some (r, s') \<Longrightarrow> processes s' = processes s"
  by (auto simp: process_load_binary_def Let_def elim!: bind_SomeE split: prod.split_asm if_split_asm
    dest!: fopen_kernel fstat_kernel fread_kernel kernel_part_processes kzalloc_processes)

lemma process_setup_effect:
  assumes "process_setup fss name slot p s = Some (r, s')"
  shows "processes s' = processes s \<and> r \<le> 0"
proof -
  have init: "processes s1 = processes s" if "process_init p s = Some s1" for s1
    using that by (auto simp: process_init_def put_obj_def elim!: bind_SomeE)
  have map: "processes s2 = processes s1 \<and> r \<le> 0" if "process_map_virtual_memory p s1 = Some (r, s2)" for s1 s2 r
    using that by (auto simp: process_map_virtual_memory_def process_map_binary_def EINVAL_def elim!: bind_SomeE
      split: prod.split_asm dest!: map_virtual_memory_res)
  show ?thesis
    using assms
    by (auto simp: process_setup_def process_load_data_def Let_def ENOMEM_def elim!: bind_SomeE split: prod.split_asm if_split_asm
      dest!: init map load_binary_processes kzalloc_processes make_new_task_processes IS_ERR_negative)
qed

text \<open>
  A process takes the first free slot of the table, or none. The result is 0, not the number of
  the slot, and negative when there is no process.
\<close>

lemma load_process_slot:
  assumes run: "load_process fss name s = Some (r, p, s')"
  shows "(p = None \<longrightarrow> r < 0 \<and> processes s' = processes s) \<and>
    (\<forall>q. p = Some q \<longrightarrow> r = 0 \<and> q \<noteq> 0 \<and> (\<exists>i < 20. processes s ! i = 0 \<and> (\<forall>j < i. processes s ! j \<noteq> 0) \<and>
       processes s' = (processes s)[i := q]))"
proof (cases "List.find (\<lambda>i. processes s ! i = 0) [0..<MAX_PROCESSES]")
  case None
  then show ?thesis using run by (auto simp: load_process_def process_get_free_slot_def ENOMEM_def)
next
  case (Some i)
  then have i: "i < 20" "processes s ! i = 0" "\<forall>j < i. processes s ! j \<noteq> 0"
    by (auto simp: find_Some_iff MAX_PROCESSES_def)
  obtain q s1 where a: "kzalloc_obj s sizeof_process (Obj_proc zero_process) = (q, s1)" by fastforce
  have s1: "processes s1 = processes s"
    using a by (auto simp: kzalloc_obj_def split: prod.split_asm if_split_asm dest!: kzalloc_processes)
  have run': "process_load_for_slot fss name (int i) s = Some (r, p, s')"
    using run Some by (simp add: load_process_def process_get_free_slot_def)
  have free: "get_process_by_id (int i) s = 0" using i by (simp add: get_process_by_id_def MAX_PROCESSES_def)
  show ?thesis
  proof (cases "q = 0")
    case True
    then show ?thesis using run' free a s1
      by (auto simp: process_load_for_slot_def ENOMEM_def elim!: bind_SomeE dest!: kfree_processes)
  next
    case False
    then obtain r1 s2 where b: "process_setup fss name (int i) q s1 = Some (r1, s2)"
      using run' free a by (auto simp: process_load_for_slot_def elim!: bind_SomeE)
    note e = process_setup_effect [OF b]
    show ?thesis
    proof (cases "r1 < 0")
      case True
      then show ?thesis using run' free a False b e s1
        by (auto simp: process_load_for_slot_def elim!: bind_SomeE split: if_split_asm dest!: release_task_processes kfree_processes)
    next
      case nonneg: False
      then have "r = 0" "p = Some q" "processes s' = (processes s)[i := q]"
        using run' free a False b e s1 i(1) by (auto simp: process_load_for_slot_def MAX_PROCESSES_def)
      then show ?thesis using i False by auto
    qed
  qed
qed

end

lemma load_process_full:
  assumes "\<forall>i < 20. processes s ! i \<noteq> 0"
  shows "load_process fss name s = Some (- ENOMEM, None, s)"
proof -
  have "List.find (\<lambda>i. processes s ! i = 0) [0..<MAX_PROCESSES] = None"
    using assms by (auto simp: find_None_iff MAX_PROCESSES_def)
  then show ?thesis by (simp add: load_process_def process_get_free_slot_def ENOMEM_def)
qed

end
