(* ===== verification/Program_Steps.thy ===== *)
theory Program_Steps
  imports Process_Correct
begin

text \<open>
  The steps by which a program file gets into memory, each with all that it leaves alone: the
  status and the bytes of an open file, the blocks of the heap, the name of the process.
\<close>

section \<open>The status of an open file\<close>

lemma str_before_zero: "m (p + of_nat k) = 0 \<Longrightarrow> \<exists>xs. length xs \<le> k \<and> str_at m p xs"
proof (induction k arbitrary: p)
  case 0
  then show ?case by (intro exI [of _ "[]"]) simp
next
  case (Suc k)
  show ?case
  proof (cases "m p = 0")
    case True
    then show ?thesis by (intro exI [of _ "[]"]) simp
  next
    case False
    have "m (p + 1 + of_nat k) = 0" using Suc.prems by (simp add: add.assoc)
    then obtain xs where "length xs \<le> k" "str_at m (p + 1) xs" using Suc.IH by blast
    then show ?thesis using False by (intro exI [of _ "m p # xs"]) simp
  qed
qed

lemma addrs_within: "i + n \<le> k \<Longrightarrow> k \<le> 2 ^ 32 \<Longrightarrow> addrs (p + of_nat i) n \<subseteq> addrs p k"
proof -
  assume "i + n \<le> k" "k \<le> 2 ^ 32"
  then have "addrs (p + of_nat i) (k - i) \<subseteq> addrs p k" "n \<le> k - i" using addrs_suffix [of i k p] by simp_all
  then show ?thesis using addrs_mono by blast
qed

text \<open>What a status call may change: the 32 bytes at \<open>st\<close>.\<close>

definition only_stat :: "u32 \<Rightarrow> memory \<Rightarrow> memory \<Rightarrow> bool" where
  "only_stat st m m' \<longleftrightarrow> (\<forall>a. a \<notin> addrs st 32 \<longrightarrow> m' a = m a)"

lemma only_stat_trans: "only_stat st m m1 \<Longrightarrow> only_stat st m1 m2 \<Longrightarrow> only_stat st m m2"
  by (simp add: only_stat_def)

lemma only_stat_upd: "k < 32 \<Longrightarrow> only_stat st m (m(st + of_nat k := v))"
  using in_addrs_offset [of k 32 st] by (auto simp: only_stat_def)

lemma only_stat_store16: "k \<le> 30 \<Longrightarrow> only_stat st m (store16 (st + of_nat k) v m)"
  using addrs_within [of k 2 32 st] by (auto simp: only_stat_def intro!: store16_apply_other)

lemma only_stat_store32: "k \<le> 28 \<Longrightarrow> only_stat st m (store32 (st + of_nat k) v m)"
  using addrs_within [of k 4 32 st] by (auto simp: only_stat_def intro!: store32_apply_other)

lemma only_stat_strcpy:
  assumes "only_stat st m0 m" and "j \<le> l" and "l \<le> 12" and "m0 (c + of_nat l) = 0"
    and apart: "addrs st 32 \<inter> addrs c 32 = {}" and i: "i \<le> 12"
  shows "\<exists>m'. strcpy (st + of_nat i) (c + of_nat j) m = Some m' \<and> only_stat st m0 m'"
proof -
  have "c + of_nat l \<in> addrs c 32" using assms(3) by (intro in_addrs_offset) simp_all
  then have "m (c + of_nat l) = 0" using assms(1,4) apart by (auto simp: only_stat_def)
  then have "m (c + of_nat j + of_nat (l - j)) = 0" using assms(2) by (simp add: of_nat_diff)
  then obtain xs where xs: "length xs \<le> l - j" "str_at m (c + of_nat j) xs" using str_before_zero by blast
  have d: "addrs (st + of_nat i) (Suc (length xs)) \<subseteq> addrs st 32" "addrs (c + of_nat j) (Suc (length xs)) \<subseteq> addrs c 32"
    using xs(1) assms(2,3) i by (intro addrs_within; simp)+
  then have "addrs (st + of_nat i) (Suc (length xs)) \<inter> addrs (c + of_nat j) (Suc (length xs)) = {}" using apart by blast
  moreover have "length xs < 2 ^ 32" using xs(1) assms(3) by simp
  ultimately obtain m' where m': "strcpy (st + of_nat i) (c + of_nat j) m = Some m'"
      "\<forall>a. a \<notin> addrs (st + of_nat i) (Suc (length xs)) \<longrightarrow> m' a = m a"
    using strcpy_str [OF xs(2)] by blast
  then have "only_stat st m m'" using d(1) by (auto simp: only_stat_def)
  then show ?thesis using m'(1) only_stat_trans [OF assms(1)] by blast
qed

lemma fat16_stat_size:
  assumes fd: "ffd_at s p = Some f" "item_at s (fat_fd_item f) = Some \<lparr>item_ptr = c, item_type = FAT_ITEM_TYPE_FILE\<rparr>"
    and zero: "i_reserved (mem s) c = 0" and apart: "addrs st 32 \<inter> addrs c 32 = {}"
  shows "\<exists>m. fat16_stat p st s = Some (0, s\<lparr>mem := m\<rparr>) \<and> load32 m (st_filesize st) = i_filesize (mem s) c \<and> only_stat st (mem s) m"
proof -
  have z: "mem s (c + of_nat 12) = 0" using zero by (simp add: i_reserved_def)
  obtain m1 where 1: "strcpy (st + of_nat 4) (c + of_nat 0) (mem s) = Some m1" "only_stat st (mem s) m1"
    using only_stat_strcpy [where ?m0.0 = "mem s" and m = "mem s" and j = 0 and i = 4 and l = 12 and c = c, OF _ _ _ z apart] by (auto simp: only_stat_def)
  obtain m2 where 2: "strcpy (st + of_nat 12) (c + of_nat 8) m1 = Some m2" "only_stat st (mem s) m2"
    using only_stat_strcpy [where ?m0.0 = "mem s" and j = 8 and i = 12 and l = 12 and c = c, OF 1(2) _ _ z apart] by auto
  define m3 where "m3 = (if i_attribute m2 c AND FAT_FILE_READ_ONLY \<noteq> 0
    then m2(st_attribute st := m2 (st_attribute st) OR FILE_STAT_READ_ONLY) else m2(st_attribute st := 0x00))"
  define m4 where "m4 = m3(st_reserved st := i_reserved m3 c)"
  define m5 where "m5 = store16 (st_creation_time st) (i_creation_time m4 c) m4"
  define m6 where "m6 = store16 (st_creation_date st) (i_creation_date m5 c) m5"
  define m7 where "m7 = store16 (st_last_access st) (i_last_access m6 c) m6"
  define m8 where "m8 = store16 (st_last_mod_time st) (i_last_mod_time m7 c) m7"
  define m9 where "m9 = store16 (st_last_mod_date st) (i_last_mod_date m8 c) m8"
  define m where "m = store32 (st_filesize st) (i_filesize m9 c) m9"
  have run: "fat16_stat p st s = Some (0, s\<lparr>mem := m\<rparr>)"
    using fd 1(1) 2(1) by (simp add: fat16_stat_def st_filename_def st_ext_def i_ext_def Let_def m_def m9_def m8_def m7_def m6_def
      m5_def m4_def m3_def)
  note st_defs = st_attribute_def st_reserved_def st_creation_time_def st_creation_date_def st_last_access_def
    st_last_mod_time_def st_last_mod_date_def st_filesize_def
  have "only_stat st m2 m3" using only_stat_upd [of 15 st m2] by (simp add: m3_def st_defs)
  moreover have "only_stat st m3 m4" using only_stat_upd [of 16 st m3] by (simp add: m4_def st_defs)
  moreover have "only_stat st m4 m5" using only_stat_store16 [of 18 st m4] by (simp add: m5_def st_defs)
  moreover have "only_stat st m5 m6" using only_stat_store16 [of 20 st m5] by (simp add: m6_def st_defs)
  moreover have "only_stat st m6 m7" using only_stat_store16 [of 22 st m6] by (simp add: m7_def st_defs)
  moreover have "only_stat st m7 m8" using only_stat_store16 [of 24 st m7] by (simp add: m8_def st_defs)
  moreover have "only_stat st m8 m9" using only_stat_store16 [of 26 st m8] by (simp add: m9_def st_defs)
  ultimately have m9: "only_stat st (mem s) m9" using 2(2) by (meson only_stat_trans)
  have "only_stat st m9 m" using only_stat_store32 [of 28 st m9] by (simp add: m_def st_defs)
  then have "only_stat st (mem s) m" using m9 only_stat_trans by blast
  moreover have "i_filesize m9 c = i_filesize (mem s) c"
    unfolding i_filesize_def using m9 apart addrs_within [of 28 4 32 c] by (intro load32_cong) (auto simp: only_stat_def)
  ultimately show ?thesis using run by (intro exI [of _ m]) (simp add: m_def)
qed

section \<open>The name of the process\<close>

lemma strncpy_loop_outside: "k < 2 ^ 32 \<Longrightarrow> a \<notin> addrs (d + count) k \<Longrightarrow> snd (strncpy_loop k d s count m) a = m a"
proof (induction k arbitrary: count m)
  case (Suc k)
  have "addrs (d + count) (Suc k) = insert (d + count) (addrs (d + (count + 1)) k)"
    using Suc.prems(1) addrs_Suc_head [of k "d + count"] by (simp add: add.assoc)
  then have "a \<noteq> d + count" "a \<notin> addrs (d + (count + 1)) k" using Suc.prems(2) by simp_all
  then show ?case using Suc.IH [of "count + 1"] Suc.prems(1) by (simp add: Let_def)
qed simp

lemma strncpy_outside: "n \<le> 255 \<Longrightarrow> a \<notin> addrs d n \<Longrightarrow> snd (strncpy d s (of_nat n) m) a = m a"
proof -
  assume n: "n \<le> 255" "a \<notin> addrs d n"
  have un: "unat (of_nat n :: u32) = n" using n(1) by (intro unat_of_nat_u32) simp
  then have "\<not> (of_nat n :: u32) > 255" using n(1) by (simp add: word_less_nat_alt)
  then show ?thesis
    using strncpy_loop_outside [of n a d 0 s m] n un by (auto simp: strncpy_def split: prod.split)
qed

end
