(* ===== verification/Heap_Pages.thy ===== *)
theory Heap_Pages
  imports Process_Correct
begin

text \<open>
  Runs of free pages. A request for several blocks needs a run of them; a heap with few blocks in
  use always has one, wherever these are.
\<close>

definition free_pages :: "'a machine_scheme \<Rightarrow> u32 \<Rightarrow> nat \<Rightarrow> bool" where
  "free_pages s b n \<longleftrightarrow> b mod 4096 = 0 \<and> unat b + 4096 * n \<le> 2 ^ 32 \<and> (\<forall>k < n. b + of_nat (4096 * k) \<in> kvacant s)"

lemma unat_page_step:
  fixes b :: u32
  assumes "unat b + 4096 * n \<le> 2 ^ 32" and "k < n"
  shows "unat (b + of_nat (4096 * k)) = unat b + 4096 * k"
proof -
  have "unat b + 4096 * k < 2 ^ 32" using assms by simp
  moreover from this have "unat (of_nat (4096 * k) :: u32) = 4096 * k" by (intro unat_of_nat_u32) simp
  ultimately show ?thesis by (simp add: unat_word_ariths(1) del: of_nat_mult)
qed

lemma block_of_page_step:
  assumes "unat b + 4096 * n \<le> 2 ^ 32" and "k < n"
  shows "block_of hp (b + of_nat (4096 * k)) = block_of hp b + int k"
proof -
  have "uint (b + of_nat (4096 * k)) = uint b + int k * 4096"
    using unat_page_step [OF assms] by (simp only: uint_nat)
  moreover have "(uint b + int k * 4096 - c) div 4096 = (uint b - c) div 4096 + int k" for c :: int
    using div_mult_self1 [of 4096 "uint b - c" "int k"] by (simp add: algebra_simps)
  ultimately show ?thesis by (simp only: block_of_def)
qed

lemma free_pages_window:
  assumes "free_pages s b n" and "m \<le> n" and "0 < m"
  shows "heap_window (g_kernel_heap s) (block_of (g_kernel_heap s) b) (int m)"
proof -
  let ?hp = "g_kernel_heap s"
  have page: "0 \<le> block_of ?hp b + int k \<and> block_of ?hp b + int k < heap_blocks ?hp \<and> entries (table ?hp) (block_of ?hp b + int k) = 0"
    if "k < m" for k
  proof -
    have k: "k < n" using that assms(2) by simp
    then have "b + of_nat (4096 * k) \<in> kvacant s" "unat b + 4096 * n \<le> 2 ^ 32" using assms(1) by (simp_all only: free_pages_def)
    then show ?thesis using block_of_page_step [of b n k ?hp] k by (simp only: kvacant_def vacant_def) simp
  qed
  have "block_entry_is_free (entries (table ?hp) i)" if "block_of ?hp b \<le> i" "i < block_of ?hp b + int m" for i
    using page [of "nat (i - block_of ?hp b)"] that by simp
  then show ?thesis using page [of 0] page [of "m - 1"] assms(3) by (auto simp: free_window_def of_nat_diff)
qed

lemma kmalloc_fits:
  assumes ok: "kheap_ok s" and pages: "free_pages s b n" and size: "blocks_for sz \<le> n" "0 < sz" "unat sz \<le> 2 ^ 32 - 4096"
  shows "fst (kmalloc s sz) \<noteq> 0"
proof -
  let ?hp = "g_kernel_heap s" and ?k = "align_value_to_upper sz div HEAP_BLOCK_SIZE_BYTES"
  have hp: "heap_ok ?hp" using ok by (simp add: kheap_ok_def)
  have k: "unat ?k = blocks_for sz" using total_blocks_for [of sz] size(3) by simp
  have "0 < unat sz" using size(2) by (simp add: word_less_nat_alt)
  then have pos: "0 < blocks_for sz" by (simp add: blocks_for_def div_greater_zero_iff)
  have win: "heap_window ?hp (block_of ?hp b) (uint ?k)"
    using free_pages_window [OF pages size(1) pos] k by (simp only: uint_nat)
  show ?thesis
    using hp
  proof (cases rule: malloc_blocks_cases [of _ ?k])
    case full
    then have "?k = 0" using win by blast
    then have "unat ?k = 0" by (simp only: unat_0)
    then show ?thesis using k pos by simp
  next
    case (fit w)
    then have "block_address ?hp w \<noteq> 0"
      by (intro block_address_nonzero [OF hp]) (auto simp: free_window_def)
    then show ?thesis using fit(4) by (simp add: kmalloc_def malloc_def Let_def)
  qed
qed

section \<open>Counting pages\<close>

lemma page_end: "q mod 4096 = 0 \<Longrightarrow> uint q + 4096 \<le> 2 ^ 32" for q :: u32
proof -
  assume q: "q mod 4096 = 0"
  have "uint (q mod 4096) = 0" using q by simp
  then have "uint q mod 4096 = 0" by (simp add: uint_mod)
  then obtain k where "uint q = 4096 * k" by auto
  moreover have "uint q < 4294967296" using uint_lt2p [of q] by simp
  ultimately have "k < 1048576" "uint q = 4096 * k" by linarith+
  then have "uint q + 4096 \<le> 4294967296" by linarith
  then show ?thesis by simp
qed

definition pages :: "'a machine_scheme \<Rightarrow> u32 set" where
  "pages s = {q \<in> kvacant s. q mod 4096 = 0}"

lemma page_block:
  assumes "heap_ok hp" and "0 \<le> i" and "i < heap_blocks hp"
  shows "block_of hp (block_address hp i) = i" and "uint (block_address hp i) = uint (start_address hp) + 4096 * i"
    and "block_address hp i mod 4096 = 0"
proof -
  have "block_address hp i \<in> addrs (block_address hp i) (4096 * 1)" by (simp add: addrs_def)
  then show "block_of hp (block_address hp i) = i" using in_block_addrs_block_of [OF assms(1,2), of 1] assms(3) by simp
  show at: "uint (block_address hp i) = uint (start_address hp) + 4096 * i" using assms by (intro block_address_uint) auto
  have "uint (start_address hp mod 4096) = 0" using assms(1) by (simp add: heap_ok_def heap_consts)
  then have "uint (block_address hp i) mod 4096 = 0" using at by (simp add: uint_mod)
  then show "block_address hp i mod 4096 = 0" by (simp add: uint_mod flip: uint_0_iff)
qed

text \<open>The free pages are the free blocks.\<close>

lemma pages_blocks:
  assumes "kheap_ok s"
  shows "pages s = block_address (g_kernel_heap s) `
    {i. 0 \<le> i \<and> i < heap_blocks (g_kernel_heap s) \<and> entries (table (g_kernel_heap s)) i = 0}" (is "_ = _ ` ?F")
proof (intro set_eqI iffI)
  let ?hp = "g_kernel_heap s"
  have hp: "heap_ok ?hp" using assms by (simp add: kheap_ok_def)
  fix q
  {
    assume "q \<in> block_address ?hp ` ?F"
    then show "q \<in> pages s" using page_block [OF hp] by (auto simp: pages_def kvacant_def vacant_def)
  next
    assume q: "q \<in> pages s"
    let ?i = "block_of ?hp q"
    have i: "?i \<in> ?F" using q by (simp add: pages_def kvacant_def vacant_def)
    have "uint (start_address ?hp mod 4096) = 0" "uint (q mod 4096) = 0" using hp q by (simp_all add: heap_ok_def heap_consts pages_def)
    then have "uint (start_address ?hp) mod 4096 = 0" "uint q mod 4096 = 0" by (simp_all add: uint_mod)
    then have "4096 dvd uint q" "4096 dvd uint (start_address ?hp)" by (simp_all only: mod_0_imp_dvd)
    then have "4096 dvd uint q - uint (start_address ?hp)" by (rule dvd_diff)
    then have "4096 * ?i = uint q - uint (start_address ?hp)" by (simp add: block_of_def)
    moreover have "uint (block_address ?hp ?i) = uint (start_address ?hp) + 4096 * ?i" using i by (intro page_block(2) [OF hp]) simp_all
    ultimately have "uint q = uint (block_address ?hp ?i)" by linarith
    then have "q = block_address ?hp ?i" by (simp only: word_uint_eq_iff)
    then show "q \<in> block_address ?hp ` ?F" using i by (rule image_eqI)
  }
qed

lemma pages_card:
  assumes "kheap_ok s"
  shows "card (pages s) = kroom s"
proof -
  have "heap_ok (g_kernel_heap s)" using assms by (simp add: kheap_ok_def)
  then show ?thesis
    unfolding pages_blocks [OF assms] kroom_def free_room_def
    by (intro card_image inj_onI) (simp add: block_address_inj)
qed

text \<open>
  Blocks that are in use. With \<open>d\<close> more taken, and the heap longer than \<open>m\<close> for each block in use,
  one of its windows of \<open>m\<close> blocks is still free.
\<close>

definition heap_taken :: "'a machine_scheme \<Rightarrow> nat" where
  "heap_taken s = nat (heap_blocks (g_kernel_heap s)) - kroom s"

lemma free_run:
  assumes ok: "kheap_ok s" "kheap_ok s'" and sub: "kvacant s' \<subseteq> kvacant s" and room: "kroom s \<le> kroom s' + d"
    and long: "int (m * Suc (heap_taken s + d)) \<le> heap_blocks (g_kernel_heap s)" and m: "0 < m"
  shows "\<exists>b. free_pages s' b m"
proof (rule ccontr)
  assume none: "\<nexists>b. free_pages s' b m"
  let ?hp = "g_kernel_heap s" and ?t = "heap_taken s + d"
  let ?q = "\<lambda>i. block_address ?hp (int i)" and ?N = "nat (heap_blocks (g_kernel_heap s))"
  have hp: "heap_ok ?hp" using ok(1) by (simp add: kheap_ok_def)
  have idx: "m * k + l < ?N" if "k \<le> ?t" "l < m" for k l
  proof -
    have "m * k + l < m * Suc k" using that(2) by simp
    also have "\<dots> \<le> m * Suc ?t" using that(1) by (intro mult_le_mono2) simp
    finally show ?thesis using long by linarith
  qed
  have block: "uint (?q i) = uint (start_address ?hp) + 4096 * int i \<and> ?q i mod 4096 = 0 \<and> uint (?q i) + 4096 \<le> 2 ^ 32"
    if "i < ?N" for i
    using page_block(2,3) [OF hp, of "int i"] page_end [of "?q i"] that by simp
  have "\<exists>l < m. ?q (m * k + l) \<notin> pages s'" if k: "k \<le> ?t" for k
  proof (rule ccontr)
    assume all: "\<not> (\<exists>l < m. ?q (m * k + l) \<notin> pages s')"
    have at: "?q (m * k) + of_nat (4096 * l) = ?q (m * k + l)" for l
      by (simp add: block_address_def heap_consts algebra_simps)
    have "uint (?q (m * k)) + 4096 * int (m - 1) + 4096 \<le> 2 ^ 32"
    proof -
      have "uint (?q (m * k + (m - 1))) = uint (start_address ?hp) + 4096 * int (m * k + (m - 1))"
        "uint (?q (m * k + (m - 1))) + 4096 \<le> 2 ^ 32" "uint (?q (m * k)) = uint (start_address ?hp) + 4096 * int (m * k)"
        using block [OF idx [OF k, of "m - 1"]] block [OF idx [OF k m]] m by simp_all
      then show ?thesis by (simp only: of_nat_add distrib_left)
    qed
    moreover have "int (m - 1) = int m - 1" using m by simp
    ultimately have "int (unat (?q (m * k)) + 4096 * m) \<le> int (2 ^ 32)" by simp
    then have "unat (?q (m * k)) + 4096 * m \<le> 2 ^ 32" by (simp only: of_nat_le_iff)
    moreover have "?q (m * k) mod 4096 = 0" using block [OF idx [OF k m]] by simp
    moreover have "?q (m * k + l) \<in> kvacant s'" if "l < m" for l using all that by (auto simp: pages_def)
    ultimately have "free_pages s' (?q (m * k)) m" unfolding free_pages_def at by blast
    with none show False by blast
  qed
  then obtain l where l: "\<And>k. k \<le> ?t \<Longrightarrow> l k < m \<and> ?q (m * k + l k) \<notin> pages s'" by metis
  let ?S = "?q ` {..<?N}"
  have inj: "inj_on ?q {..<?N}" using block_address_inj [OF hp] by (intro inj_onI) auto
  have "inj_on (\<lambda>k. ?q (m * k + l k)) {..?t}"
  proof (rule inj_onI)
    fix k k' assume kk: "k \<in> {..?t}" "k' \<in> {..?t}" and eq: "?q (m * k + l k) = ?q (m * k' + l k')"
    then have "m * k + l k = m * k' + l k'" using inj_onD [OF inj eq] idx l by simp
    then have "(m * k + l k) div m = (m * k' + l k') div m" by simp
    then show "k = k'" using kk l m by simp
  qed
  then have "card ((\<lambda>k. ?q (m * k + l k)) ` {..?t}) = Suc ?t" by (simp only: card_image card_atMost)
  moreover have "(\<lambda>k. ?q (m * k + l k)) ` {..?t} \<subseteq> ?S - pages s'" using l idx by blast
  then have "card ((\<lambda>k. ?q (m * k + l k)) ` {..?t}) \<le> card (?S - pages s')" by (intro card_mono) simp_all
  ultimately have "Suc ?t \<le> card (?S - pages s')" by simp
  moreover have "pages s' \<subseteq> ?S"
  proof
    fix q assume "q \<in> pages s'"
    then have "q \<in> pages s" using sub by (auto simp: pages_def)
    then obtain i where i: "q = block_address ?hp i" "0 \<le> i" "i < heap_blocks ?hp" unfolding pages_blocks [OF ok(1)] by blast
    then have "q = ?q (nat i)" "nat i < ?N" by simp_all
    then show "q \<in> ?S" by blast
  qed
  then have "card (?S - pages s') = ?N - kroom s'"
    using card_image [OF inj] by (simp add: card_Diff_subset pages_card [OF ok(2)])
  ultimately show False using room by (simp add: heap_taken_def)
qed

end
