(* ===== verification/Program_Load.thy ===== *)
theory Program_Load
  imports Program_Steps Heap_Pages
begin

text \<open>
  Loading a program from the disk: from the path of a file of the root directory to a process whose
  task sees the file's bytes at the program address.
\<close>

section \<open>The file\<close>

lemma item_fields:
  assumes "bytes_at m c 32 = bytes_at m0 e 32"
  shows "i_reserved m c = i_reserved m0 e" and "i_filesize m c = i_filesize m0 e"
    and "i_low_16_bits_first_cluster m c = i_low_16_bits_first_cluster m0 e"
    and "i_high_16_bits_first_cluster m c = i_high_16_bits_first_cluster m0 e"
proof -
  have byte: "m (c + of_nat k) = m0 (e + of_nat k)" if "k < 32" for k
    using arg_cong [OF assms, of "\<lambda>b. b ! k"] that by simp
  show "i_reserved m c = i_reserved m0 e" using byte [of 12] by (simp add: i_reserved_def)
  show "i_filesize m c = i_filesize m0 e"
    using byte [of 28] byte [of 29] byte [of 30] byte [of 31] by (simp add: i_filesize_def load32_def add.assoc)
  show "i_low_16_bits_first_cluster m c = i_low_16_bits_first_cluster m0 e"
    using byte [of 26] byte [of 27] by (simp add: i_low_16_bits_first_cluster_def load16_def add.assoc)
  show "i_high_16_bits_first_cluster m c = i_high_16_bits_first_cluster m0 e"
    using byte [of 20] byte [of 21] by (simp add: i_high_16_bits_first_cluster_def load16_def add.assoc)
qed

text \<open>
  The path at \<open>name\<close> names entry \<open>j\<close> of the root directory on the mounted disk, a file of \<open>fs\<close>
  bytes, at most a page and in one cluster, at byte \<open>start\<close> of the disk. Descriptor \<open>i\<close> is the
  first free one. The status buffer of \<open>process_load_binary\<close> and the header byte with the cluster
  size are in use and apart.
\<close>

definition program_file :: "'a kernel_scheme \<Rightarrow> u32 \<Rightarrow> u32 \<Rightarrow> u32 \<Rightarrow> fat_private_data \<Rightarrow> nat \<Rightarrow> nat \<Rightarrow> u8 list \<Rightarrow> nat \<Rightarrow> nat \<Rightarrow> nat \<Rightarrow> bool" where
  "program_file s a name private pr n j nm i start fs \<longleftrightarrow>
     fopen_ready s a (literal s ''r'') \<and> (\<exists>cs. path_str s name cs \<and> path_names cs = [nm]) \<and> root_entry s pr n j nm \<and>
     disk_private s (disk_address s) = Some (private, pr) \<and> sector_size (disk_var s) = 512 \<and> stream_on s (cluster_read_stream pr) \<and>
     i < 511 \<and> file_descriptors s ! i = 0 \<and> (\<forall>k < i. file_descriptors s ! k \<noteq> 0) \<and>
     addrs (stat_local s) 32 \<inter> kvacant s = {} \<and> private + 13 \<notin> tmp_range s \<union> kvacant s \<union> addrs (stat_local s) 32 \<and>
     0 < h_sectors_per_cluster (mem s) private \<and>
     (let e = dir_item (root_dir pr) + 32 * of_nat j
      in i_reserved (mem s) e = 0 \<and> i_filesize (mem s) e = of_nat fs \<and>
         i_high_16_bits_first_cluster (mem s) e = 0 \<and> first_byte (mem s) private pr e = int start) \<and>
     0 < fs \<and> fs \<le> 4096 \<and> int fs \<le> h_sectors_per_cluster (mem s) private * 512 \<and> start + fs < 2 ^ 31"

lemma more_locals: "machine.more s' = machine.more s \<Longrightarrow> literal s' = literal s \<and> stat_local s' = stat_local s"
  for s s' :: "'a kernel_scheme"
  by (cases s; cases s') simp

lemma kernel_part_fields:
  "fs_machine.more s' = fs_machine.more s \<Longrightarrow> literal s' = literal s \<and> stat_local s' = stat_local s \<and> head_task s' = head_task s \<and>
     tail_task s' = tail_task s \<and> current_task s' = current_task s \<and> processes s' = processes s \<and> paging s' = paging s \<and>
     kernel.more s' = kernel.more s"
  for s s' :: "'a kernel_scheme"
  by (cases s; cases s') simp

lemma mem_kernel_part [simp]: "fs_machine.more (s\<lparr>mem := m\<rparr>) = fs_machine.more s" for s :: "'a fs_machine_scheme"
  by (cases s) simp

lemma program_file_grows:
  assumes f: "program_file s a name private pr n j nm i start fs" and g: "grows s s'" and more: "machine.more s' = machine.more s"
    and same: "\<And>r. objs s r \<noteq> None \<Longrightarrow> objs s' r = objs s r"
  shows "program_file s' a name private pr n j nm i start fs"
proof -
  note keep = more_disk [OF more] more_fs [OF more] more_locals [OF more]
  have sub: "kvacant s' \<subseteq> kvacant s" and mem: "\<And>x. x \<notin> kvacant s \<Longrightarrow> mem s' x = mem s x" using g by (auto simp: grows_def)
  have ready: "fopen_ready s' a (literal s' ''r'')"
  proof -
    have r: "fopen_ready s a (literal s ''r'')" using f by (simp add: program_file_def)
    then have "fd_table_ok s" by (simp add: fopen_ready_def)
    then have "fd_table_ok s'" by (rule fd_table_frame) (use keep same in auto)
    moreover have "\<exists>label. kept_str s' a label"
    proof -
      obtain label where l: "kept_str s a label" using r by (auto simp: fopen_ready_def)
      then show ?thesis using kept_str_grows [OF l g] sub by (auto simp: kept_str_def)
    qed
    ultimately show ?thesis using r keep growsD(1) [OF g] sub mem by (auto simp: fopen_ready_def)
  qed
  have path: "\<exists>cs. path_str s' name cs \<and> path_names cs = [nm]"
  proof -
    obtain cs where cs: "path_str s name cs" "path_names cs = [nm]" using f by (auto simp: program_file_def)
    then show ?thesis using kept_str_grows [OF path_kept_str [OF cs(1)] g] sub by (auto simp: path_str_def)
  qed
  have e: "root_entry s pr n j nm" using f by (simp add: program_file_def)
  have item: "bytes_at (mem s') (dir_item (root_dir pr) + 32 * of_nat k) 32 = bytes_at (mem s) (dir_item (root_dir pr) + 32 * of_nat k) 32"
    if "k < n" for k
  proof (rule bytes_at_cong)
    fix x assume "x \<in> addrs (dir_item (root_dir pr) + 32 * of_nat k) 32"
    then show "mem s' x = mem s x" using addrs_item [OF that, of "dir_item (root_dir pr)"] e by (intro mem) (auto simp: root_entry_def)
  qed simp
  have j: "j < n" using e by (simp add: root_entry_def)
  have entry: "root_entry s' pr n j nm"
  proof -
    have "entry_matches (mem s') (dir_item (root_dir pr) + 32 * of_nat k) nm \<longleftrightarrow> k = j" if "k < n" for k
      using e that entry_matches_bytes [OF item [OF that], of nm] by (simp add: root_entry_def)
    moreover have "i_attribute (mem s') (dir_item (root_dir pr) + 32 * of_nat j) = i_attribute (mem s) (dir_item (root_dir pr) + 32 * of_nat j)"
      using arg_cong [OF item [OF j], of "\<lambda>b. b ! 11"] by (simp add: i_attribute_def)
    ultimately show ?thesis using e sub keep by (auto simp: root_entry_def)
  qed
  have obj: "objs s r = Some x \<Longrightarrow> objs s' r = Some x" for r x using same [of r] by simp
  have "disk_private s' (disk_address s') = Some (private, pr)"
    using f keep obj by (auto simp: program_file_def disk_private_def disk_at_def private_at_def bind_eq_Some_conv split: option.splits kobj.splits)
  moreover have "stream_on s' (cluster_read_stream pr)" using f keep obj by (auto simp: program_file_def stream_on_def)
  moreover have "h_sectors_per_cluster (mem s') private = h_sectors_per_cluster (mem s) private"
    using f mem by (simp add: program_file_def h_sectors_per_cluster_def)
  ultimately show ?thesis
    using f ready path entry item_fields [OF item [OF j]] keep sub
    unfolding program_file_def first_byte_def Let_def by auto
qed

section \<open>Loading its bytes\<close>

lemma get_slot_descriptor:
  "i < 511 \<Longrightarrow> length (file_descriptors s) = 512 \<Longrightarrow> get_file_descriptor (int i + 1) s = file_descriptors s ! i"
  by (simp add: get_file_descriptor_def MAX_FILE_DESCRIPTORS_def)

lemma load_binary_root:
  assumes f: "program_file s a name private pr n j nm i start fs" and dev: "ata_ok dev img" and room: "7 \<le> kroom s"
    and q: "proc_at s q = Some x"
  shows "\<exists>d s'. process_load_binary (kernel_filesystems dev a) name q s = Some (0, s') \<and> machine_ok s' \<and>
    klive s d = None \<and> klive s' d = Some 1 \<and> bytes_at (mem s') d fs = disk_bytes img start fs \<and>
    proc_at s' q = Some (x\<lparr>physical_pointer := d, proc_size := of_nat fs\<rparr>) \<and> kvacant s' \<subseteq> kvacant s \<and> kroom s = kroom s' + 7 \<and> addrs d 4096 \<subseteq> kvacant s \<and>
    (\<forall>r. objs s r \<noteq> None \<longrightarrow> r \<noteq> q \<longrightarrow> r \<noteq> cluster_read_stream pr \<longrightarrow> objs s' r = objs s r) \<and>
    (\<forall>r k. klive s r = Some k \<longrightarrow> klive s' r = Some k) \<and> fs_machine.more s' = fs_machine.more s \<and>
    (\<forall>y. y \<notin> kvacant s \<union> tmp_range s \<union> addrs (stat_local s) 32 \<longrightarrow> mem s' y = mem s y)"
proof -
  let ?fss = "kernel_filesystems dev a" and ?e = "dir_item (root_dir pr) + 32 * of_nat j"
  have e: "root_entry s pr n j nm" and pr: "disk_private s (disk_address s) = Some (private, pr)" and i: "i < 511"
    and stat: "addrs (stat_local s) 32 \<inter> kvacant s = {}" and fs: "0 < fs" "fs \<le> 4096"
    using f by (simp_all add: program_file_def)
  obtain cs where cs: "path_str s name cs" "path_names cs = [nm]" using f by (auto simp: program_file_def)
  obtain fd p it c s1 where 1: "fopen ?fss name (literal s ''r'') s = Some (int i + 1, s1)" "machine_ok s1" "fd_table_ok s1"
    "file_descriptors s1 = (file_descriptors s)[i := fd]" "fd \<noteq> 0"
    "fd_at s1 fd = Some \<lparr>fd_index = int i + 1, fd_fs = a, fd_disk = disk_address s, fd_p = p\<rparr>"
    "ffd_at s1 p = Some \<lparr>fat_fd_item = it, fat_fd_pos = 0\<rparr>" "file_item_at s1 it c (bytes_at (mem s) ?e 32)" "lookup_step s s1"
    "kroom s = kroom s1 + 6" "\<forall>r. objs s r \<noteq> None \<longrightarrow> objs s1 r = objs s r" "\<forall>r k. klive s r = Some k \<longrightarrow> klive s1 r = Some k"
    "addrs c 32 \<subseteq> kvacant s" "disk_address s1 = disk_address s" "disk_var s1 = disk_var s"
    using fopen_root [OF _ cs e pr, where a = a and mode = "literal s ''r''" and i = i and dev = dev] f room by (auto simp: program_file_def)
  have more1: "fs_machine.more s1 = fs_machine.more s" by (rule kernel_fs_parts.fopen_kernel [OF 1(1)])
  let ?st = "stat_local s"
  have st1: "stat_local s1 = ?st" using kernel_part_fields [OF more1] by simp
  have c: "bytes_at (mem s1) c 32 = bytes_at (mem s) ?e 32" "item_at s1 it = Some \<lparr>item_ptr = c, item_type = FAT_ITEM_TYPE_FILE\<rparr>"
      "klive s1 c = Some 1"
    using 1(8) by (simp_all add: file_item_at_def)
  note fields = item_fields [OF c(1)]
  have apart: "addrs ?st 32 \<inter> addrs c 32 = {}" using stat 1(13) by blast
  obtain m where m: "fat16_stat p ?st s1 = Some (0, s1\<lparr>mem := m\<rparr>)" "load32 m (st_filesize ?st) = i_filesize (mem s1) c"
    "only_stat ?st (mem s1) m"
    using fat16_stat_size [OF 1(7) _ _ apart] c(2) fields(1) f by (auto simp: program_file_def Let_def)
  have len: "length (file_descriptors s) = 512" using 1(3,4) by (simp add: fd_table_ok_def)
  have gfd: "get_file_descriptor (int i + 1) s1 = fd" using get_slot_descriptor [OF i, of s1] 1(4) len i by simp
  let ?s2 = "s1\<lparr>mem := m\<rparr>"
  have fstat: "fstat ?fss (int i + 1) ?st s1 = Some (0, ?s2)"
    using gfd 1(5,6) m(1) by (simp add: fstat_def fd_ops_def kernel_filesystems_def fat16_ops_def Let_def)
  have size: "load32 m (st_filesize ?st) = of_nat fs" using m(2) fields(2) f by (simp add: program_file_def Let_def)
  have ok2: "machine_ok ?s2" "0 < kroom ?s2" using 1(2,10) room by (simp_all add: machine_ok_def)
  obtain d s3 where 3: "kzalloc ?s2 (of_nat fs) = (d, s3)" "d \<noteq> 0" "grows ?s2 s3" "kroom ?s2 = kroom s3 + 1" "klive ?s2 d = None"
    "klive s3 = (klive ?s2)(d \<mapsto> 1)" "objs s3 = objs ?s2" "machine.more s3 = machine.more ?s2" "addrs d 4096 \<subseteq> kvacant ?s2"
    using kzalloc_small [OF ok2(1) fs ok2(2)] by blast
  have tables3: "file_descriptors s3 = file_descriptors s1" "disk_address s3 = disk_address s" "disk_var s3 = disk_var s" "stat_local s3 = ?st"
    using more_fs [OF 3(8)] more_locals [OF 3(8)] 1(14,15) st1 by simp_all
  have obj3: "objs s3 r = objs s1 r" for r using 3(7) by simp
  have at3: "ffd_at s3 p = Some \<lparr>fat_fd_item = it, fat_fd_pos = 0\<rparr>" "item_at s3 it = Some \<lparr>item_ptr = c, item_type = FAT_ITEM_TYPE_FILE\<rparr>"
      "fd_at s3 fd = Some \<lparr>fd_index = int i + 1, fd_fs = a, fd_disk = disk_address s, fd_p = p\<rparr>"
    using 1(6,7) c(2) by (simp_all add: ffd_at_def item_at_def fd_at_def obj3)
  have obj: "objs s r = Some y \<Longrightarrow> objs s3 r = Some y" for r y using 1(11) by (simp add: obj3)
  have pr3: "disk_private s3 (disk_address s) = Some (private, pr)"
    using pr tables3 obj by (auto simp: disk_private_def disk_at_def private_at_def bind_eq_Some_conv split: option.splits kobj.splits)
  have stream: "stream_on s3 (cluster_read_stream pr)" using f tables3 obj by (auto simp: program_file_def stream_on_def)
  have mem3: "mem s3 b = mem s1 b" if "b \<notin> addrs ?st 32" "b \<notin> kvacant s1" for b
    using that 3(3) m(3) by (simp add: grows_def only_stat_def)
  have c3: "bytes_at (mem s3) c 32 = bytes_at (mem s) ?e 32"
  proof -
    have "addrs c (4096 * 1) \<inter> kvacant s1 = {}" by (rule klive_vacant [OF machine_okD [OF 1(2)] c(3)])
    moreover have "addrs c 32 \<subseteq> addrs c (4096 * 1)" by (rule addrs_mono) simp
    ultimately have "bytes_at (mem s3) c 32 = bytes_at (mem s1) c 32" using apart by (intro bytes_at_cong mem3) auto
    then show ?thesis using c(1) by simp
  qed
  have "mem s3 (private + 13) = mem s (private + 13)"
    using f 1(9) mem3 [of "private + 13"] by (auto simp: program_file_def lookup_step_def)
  then have h: "h_sectors_per_cluster (mem s3) private = h_sectors_per_cluster (mem s) private" by (simp add: h_sectors_per_cluster_def)
  have start: "first_byte (mem s3) private pr c = int start" "i_high_16_bits_first_cluster (mem s3) c = 0"
    using f item_fields(3,4) [OF c3] h by (simp_all add: program_file_def Let_def first_byte_def)
  have "start mod 512 = 0" using arg_cong [OF start(1), of "\<lambda>z. z mod 512"] by (simp add: first_byte_def flip: of_nat_mod) presburger
  obtain s4 where 4: "fat16_read dev (disk_address s) p (of_nat fs) 1 d s3 = Some (1, s4)"
    "mem s4 = write_bytes d (disk_bytes img start fs) (mem s3)"
    "objs s4 = (objs s3)(cluster_read_stream pr \<mapsto> stream_state (start + fs) s3)" "g_kernel_heap s4 = g_kernel_heap s3"
    using read_file_block [OF dev _ _ pr3 stream at3(1), where off = 0 and n = fs and start = start and dk = "disk_var s" and out = d]
      at3(2) start h f fs \<open>start mod 512 = 0\<close> by (auto simp: disk_at_def tables3 program_file_def Let_def)
  have gfd3: "get_file_descriptor (int i + 1) s3 = fd" using gfd by (simp only: get_file_descriptor_def tables3(1))
  have "unat (of_nat fs :: u32) = fs" using fs(2) by (intro unat_of_nat_u32) simp
  then have "(of_nat fs :: u32) \<noteq> 0" using fs(1) by (metis less_irrefl unat_0)
  then have fread: "fread ?fss (int i + 1) d (of_nat fs) 1 s3 = Some (1, s4)"
    using gfd3 1(5) at3(3) 4(1) by (simp add: fread_def fd_ops_def kernel_filesystems_def fat16_ops_def Let_def)
  have more4: "fs_machine.more s4 = fs_machine.more s"
    using kernel_fs_parts.fread_kernel [OF fread] more_kernel_part [OF 3(8)] more1 by simp
  then have st4: "stat_local s4 = ?st" using kernel_part_fields by blast
  have sub: "kvacant s1 \<subseteq> kvacant s" using 1(9) by (simp add: lookup_step_def)
  have "load32 (mem s4) (st_filesize ?st) = load32 m (st_filesize ?st)"
  proof (rule load32_cong)
    fix b assume "b \<in> addrs (st_filesize ?st) 4"
    then have b: "b \<in> addrs ?st 32" using addrs_within [of 28 4 32 ?st] by (auto simp: st_filesize_def)
    then have "b \<notin> kvacant s1" using sub stat by blast
    moreover have "addrs d fs \<subseteq> addrs d 4096" using fs by (intro addrs_mono) simp
    ultimately have "b \<notin> addrs d (length (disk_bytes img start fs))" "b \<notin> kvacant ?s2" using 3(9) by auto
    then show "mem s4 b = m b" using 3(3) by (simp add: 4(2) write_bytes_outside grows_def)
  qed
  then have size4: "load32 (mem s4) (st_filesize ?st) = of_nat fs" by (simp add: size)
  have objq: "objs s q = Some (Obj_proc x)" using q by (auto simp: proc_at_def split: option.splits kobj.splits)
  have "q \<noteq> cluster_read_stream pr" using f objq by (auto simp: program_file_def stream_on_def)
  then have q4: "proc_at s4 q = Some x" using obj [OF objq] by (simp add: proc_at_def 4(3))
  let ?s5 = "put_obj q (Obj_proc (x\<lparr>physical_pointer := d, proc_size := of_nat fs\<rparr>)) s4"
  have run: "process_load_binary ?fss name q s = Some (0, ?s5)"
    using 1(1) fstat 3(1,2) fread q4 size size4 st1 st4 by (simp add: process_load_binary_def Let_def)
  have heap5: "klive s4 = klive s3" "kvacant s4 = kvacant s3" "kroom s4 = kroom s3" "kheap_ok s4 = kheap_ok s3"
    by (simp_all add: kheap_defs 4(4))
  have "machine_ok s3" using 3(3) by (simp add: grows_def)
  moreover have "klive s3 (cluster_read_stream pr) \<noteq> None" "klive s3 q \<noteq> None"
    using object_live [OF \<open>machine_ok s3\<close>] stream obj [OF objq] by (auto simp: stream_on_def)
  ultimately have "machine_ok ?s5" by (auto simp: machine_ok_def heap5 4(3) dom_def)
  moreover have "klive s d = None" using 1(12) 3(5) by (cases "klive s d") auto
  moreover have "bytes_at (mem ?s5) d fs = disk_bytes img start fs"
    using bytes_at_write_bytes [of "disk_bytes img start fs" d "mem s3"] fs by (simp add: 4(2))
  moreover have "kvacant ?s5 \<subseteq> kvacant s" using 3(3) sub by (auto simp: grows_def heap5)
  moreover have "addrs d 4096 \<subseteq> kvacant s" using 3(9) sub by simp
  moreover have "kroom s = kroom ?s5 + 7" using 1(10) 3(4) by (simp add: heap5)
  moreover have "objs ?s5 r = objs s r" if "objs s r \<noteq> None" "r \<noteq> q" "r \<noteq> cluster_read_stream pr" for r
    using that 1(11) by (simp add: 4(3) obj3)
  moreover have "klive ?s5 r = Some k" if "klive s r = Some k" for r k using that 1(12) 3(5,6) by (auto simp: heap5)
  moreover have "fs_machine.more ?s5 = fs_machine.more s" using more4 by simp
  moreover have "mem ?s5 y = mem s y" if y: "y \<notin> kvacant s \<union> tmp_range s \<union> addrs ?st 32" for y
  proof -
    have "addrs d fs \<subseteq> addrs d 4096" using fs by (intro addrs_mono) simp
    then have "y \<notin> addrs d (length (disk_bytes img start fs))" using 3(9) sub y by auto
    then have "mem ?s5 y = mem s3 y" by (simp add: 4(2) write_bytes_outside)
    also have "\<dots> = mem s1 y" using y sub by (intro mem3) auto
    also have "\<dots> = mem s y" using y 1(9) by (simp add: lookup_step_def)
    finally show ?thesis .
  qed
  ultimately show ?thesis using run 3(6) by (intro exI [of _ d] exI [of _ ?s5]) (simp add: heap5 proc_at_def)
qed

section \<open>The new process\<close>

lemma new_process:
  assumes ok: "machine_ok s" and pages: "free_pages s b k" and k: "2 \<le> k"
  shows "\<exists>q s1 s2. kzalloc_obj s sizeof_process (Obj_proc zero_process) = (q, s1) \<and> q \<noteq> 0 \<and> process_init q s1 = Some s2 \<and>
    grows s s2 \<and> machine.more s2 = machine.more s \<and> objs s2 = (objs s)(q \<mapsto> Obj_proc zero_process) \<and> klive s q = None \<and>
    klive s2 = (klive s)(q \<mapsto> 2) \<and> kroom s = kroom s2 + 2 \<and> objs s q = None \<and> addrs q (4096 * 2) \<subseteq> kvacant s"
proof -
  have n: "blocks_for sizeof_process = 2" "0 < sizeof_process" "unat sizeof_process \<le> 2 ^ 32 - 4096"
    by (simp_all add: blocks_for_def sizeof_process_def)
  obtain q t where 1: "kzalloc s sizeof_process = (q, t)" "q \<noteq> 0" "grows s t" "kroom s = kroom t + 2" "klive s q = None"
    "klive t = (klive s)(q \<mapsto> 2)" "objs t = objs s" "machine.more t = machine.more s" "addrs q (4096 * 2) \<subseteq> kvacant s"
    using kzalloc_effect [OF ok kmalloc_fits [OF machine_okD [OF ok] pages _ n(2,3)]] k n(1) by auto
  let ?s1 = "put_obj q (Obj_proc zero_process) t"
  let ?s2 = "put_obj q (Obj_proc zero_process) (?s1\<lparr>mem := memset q 0 sizeof_process (mem ?s1)\<rparr>)"
  have new: "kzalloc_obj s sizeof_process (Obj_proc zero_process) = (q, ?s1)" using 1(1,2) by (simp add: kzalloc_obj_def)
  have "proc_at ?s1 q = Some zero_process" by (simp add: proc_at_def)
  then have init: "process_init q ?s1 = Some ?s2" by (simp add: process_init_def)
  have "addrs q (unat sizeof_process) \<subseteq> addrs q (4096 * 2)" by (rule addrs_mono) (simp add: sizeof_process_def)
  then have "mem ?s2 a = mem t a" if "a \<notin> kvacant s" for a using 1(9) that by (auto simp: memset_apply)
  then have "grows s (t\<lparr>mem := mem ?s2\<rparr>)" using 1(3) by (intro grows_mem) auto
  then have "grows s (put_obj q (Obj_proc zero_process) (t\<lparr>mem := mem ?s2\<rparr>))" using 1(6) by (intro grows_put_obj) simp_all
  then have "grows s ?s2" by (simp add: put_obj_def)
  moreover have "objs s q = None" using ok 1(5) by (rule machine_ok_fresh)
  moreover have "machine.more ?s2 = machine.more s" using 1(8) by (simp add: put_obj_def)
  ultimately show ?thesis using new init 1(2,4-7,9) by (intro exI [of _ q] exI [of _ ?s1] exI [of _ ?s2]) (simp add: put_obj_def)
qed

lemma sched_ok_frame:
  assumes ok: "sched_ok s ts" and mok: "machine_ok s'" and more: "fs_machine.more s' = fs_machine.more s"
    and same: "\<And>t. t \<in> set ts \<Longrightarrow> objs s' t = objs s t"
  shows "sched_ok s' ts"
proof -
  note heads = kernel_part_fields [OF more]
  have "links_ok s ts" using ok by (simp add: sched_ok_def task_list_def)
  then have "links_ok s' ts" by (rule links_ok_frame) (simp add: task_at_def same)
  then show ?thesis using ok mok heads by (simp add: sched_ok_def task_list_def)
qed

section \<open>Mapping it\<close>

lemma next_page: "d mod 4096 = 0 \<Longrightarrow> (d + 4096) mod 4096 = 0" for d :: u32
proof -
  assume d: "d mod 4096 = 0"
  have "unat d mod 4096 = 0" using arg_cong [OF d, of unat] by (simp add: unat_mod)
  then have "(unat d + 4096) mod 4294967296 mod 4096 = 0" by (subst mod_mod_cancel) simp_all
  then have "unat ((d + 4096) mod 4096) = 0" by (simp add: unat_mod unat_word_ariths(1))
  then show ?thesis by (simp only: unat_eq_0)
qed

lemma align_page_end:
  assumes "d mod 4096 = 0" and "0 < fs" and "fs \<le> 4096"
  shows "paging_align_address (d + of_nat fs) = d + 4096"
proof (cases "fs = 4096")
  case True
  then have "of_nat fs = (4096 :: u32)" by simp
  then show ?thesis unfolding paging_align_address_def paging_consts Let_def by (simp only: next_page [OF assms(1)] less_irrefl if_False)
next
  case False
  then have "(d + of_nat fs) mod 4096 = of_nat fs" using assms by (intro page_of_page(2)) simp_all
  moreover have "0 < (of_nat fs :: u32)" 
    using assms(2,3) unat_of_nat_u32 [of fs] by (simp add: word_less_nat_alt del: of_nat_unat unat_of_nat)
  ultimately show ?thesis unfolding paging_align_address_def paging_consts Let_def by (simp only: if_True) simp
qed

lemma program_mapped:
  assumes ok: "kheap_ok s" and sp: "space_ok s page" and pr: "space_present (mem s) page"
    and d: "d mod 4096 = 0" "unat d + 4096 < 2 ^ 32" and fs: "0 < fs" "fs \<le> 4096"
  shows "\<exists>m'. paging_map_virtual_memory (mem s) page PROGRAM_VIRTUAL_ADDRESS d (paging_align_address (d + of_nat fs))
      (ucast (PAGING_IS_PRESENT OR PAGING_ACCESS_FROM_ALL OR PAGING_IS_WRITEABLE)) = (0, m') \<and>
    (\<forall>i < 4096. translate m' (space_dir m' page) (0x400000 + of_nat i) = Some (d + of_nat i)) \<and>
    (\<forall>a. (\<forall>q \<in> set (space_blocks (mem s) page). a \<notin> addrs q 4096) \<longrightarrow> m' a = mem s a)"
proof -
  let ?flags = "ucast (PAGING_IS_PRESENT OR PAGING_ACCESS_FROM_ALL OR PAGING_IS_WRITEABLE) :: u32"
  obtain r m' where set: "paging_set_entry_for_virtual_address (mem s) page 0x400000 (d OR ?flags) = (r, m')" by fastforce
  have va: "(0x400000 :: u32) mod 4096 = 0" by simp
  note p = set_entry_present [OF ok sp pr va set] and t = set_entry_translation [OF ok sp va set]
  have "unat (d + 4096) = unat d + 4096" using d(2) by (simp add: unat_word_ariths(1))
  then have up: "\<not> d + 4096 < d" by (simp add: word_less_nat_alt)
  have one: "unat ((d + 4096 - d) div 4096) = Suc 0" by simp
  have "paging_map_page (mem s) page 0x400000 d ?flags = (0, m')" using set t(1) d(1) by (simp add: paging_map_page_def paging_consts)
  then have "paging_map_virtual_memory (mem s) page PROGRAM_VIRTUAL_ADDRESS d (d + 4096) ?flags = (0, m')"
    using up one d(1) next_page [OF d(1)]
    by (simp only: paging_map_virtual_memory_def paging_map_memory_by_range_def PROGRAM_VIRTUAL_ADDRESS_def paging_consts Let_def va
      map_range_loop.simps if_False if_True simp_thms prod.case)
  moreover have "translate m' (space_dir m' page) (0x400000 + of_nat i) = Some (d + of_nat i)" if i: "i < 4096" for i
  proof -
    have e: "paging_get_entry_of_address m' page (page_of (0x400000 + of_nat i)) = d OR ?flags"
      using t(3) [OF va] page_of_page(1) [OF va i] by simp
    moreover have "(d OR ?flags) AND 0xFFFFF000 = d" "bit (d OR ?flags) 0"
      using table_of_entry [OF d(1), of "PAGING_IS_PRESENT OR PAGING_ACCESS_FROM_ALL OR PAGING_IS_WRITEABLE" 0]
      by (simp_all add: bit_simps paging_consts)
    moreover have "(0x400000 + of_nat i :: u32) mod 4096 = of_nat i" by (rule page_of_page(2) [OF va i])
    ultimately show ?thesis using translate_entry [OF p(1), of "0x400000 + of_nat i"] by (simp only: Let_def if_True)
  qed
  moreover have "m' a = mem s a" if "\<forall>q \<in> set (space_blocks (mem s) page). a \<notin> addrs q 4096" for a
    using that by (intro t(4)) (simp add: space_blocks_def)
  ultimately show ?thesis unfolding align_page_end [OF d(1) fs] by blast
qed

section \<open>The whole load\<close>

text \<open>The new process has the data of the file: what is left is its stack, its name, its task and the mapping.\<close>

lemma setup_after_load:
  assumes sched: "sched_ok s ts" and pages: "free_pages s b 4" and room: "1031 \<le> kroom s"
    and q: "proc_at s q = Some x" "klive s q = Some 2" and x: "physical_pointer x = d" "proc_size x = of_nat fs"
    and d: "klive s d = Some 1" "d \<noteq> 0xFFFFF000" "bytes_at (mem s) d fs = bs" and fs: "0 < fs" "fs \<le> 4096"
    and load: "process_init q s0 = Some s1" "process_load_data fss name q s1 = Some (0, s)" and slot: "0 \<le> slot" "slot < 20"
  shows "\<exists>t s' y z. process_setup fss name slot q s0 = Some (0, s') \<and> sched_ok s' (ts @ [t]) \<and> task_at s' t = Some y \<and>
    task_proc y = q \<and> task_registers y = first_registers \<and> proc_at s' q = Some z \<and> proc_task z = t \<and> proc_id z = word_of_int slot \<and>
    (\<forall>k < fs. \<exists>p. translate (mem s') (space_dir (mem s') (page_directory y)) (0x400000 + of_nat k) = Some p \<and> mem s' p = bs ! k) \<and>
    processes s' = processes s \<and> paging s' = paging s \<and> literal s' = literal s \<and> kernel.more s' = kernel.more s \<and>
    (\<forall>r k. klive s r = Some k \<longrightarrow> klive s' r = Some k) \<and> klive s t = None \<and>
    (\<forall>a. a \<notin> kvacant s \<longrightarrow> a \<notin> addrs q (4096 * 2) \<longrightarrow> mem s' a = mem s a)"
proof -
  have ok: "machine_ok s" using sched by (simp add: sched_ok_def)
  have n: "blocks_for USER_PROGRAM_STACK_SIZE = 4" "0 < USER_PROGRAM_STACK_SIZE" "unat USER_PROGRAM_STACK_SIZE \<le> 2 ^ 32 - 4096"
    by (simp_all add: blocks_for_def USER_PROGRAM_STACK_SIZE_def)
  obtain stk s2 where 2: "kzalloc s USER_PROGRAM_STACK_SIZE = (stk, s2)" "stk \<noteq> 0" "grows s s2" "kroom s = kroom s2 + 4"
    "klive s stk = None" "klive s2 = (klive s)(stk \<mapsto> 4)" "objs s2 = objs s" "machine.more s2 = machine.more s"
    using kzalloc_effect [OF ok kmalloc_fits [OF machine_okD [OF ok] pages _ n(2,3)]] n(1) by auto
  obtain r m where nm: "strncpy (binary_file q) name FILESYSTEM_MAX_PATH_LENGTH (mem s2) = (r, m)" by fastforce
  have m: "m a = mem s2 a" if "a \<notin> addrs q (4096 * 2)" for a
    using strncpy_outside [of 100 a "binary_file q" name "mem s2"] addrs_within [of 2 100 "4096 * 2" q] that nm
    by (auto simp: binary_file_def FILESYSTEM_MAX_PATH_LENGTH_def)
  define z where "z = x\<lparr>stack_pointer := stk, proc_id := word_of_int slot\<rparr>"
  define s3 where "s3 = put_obj q (Obj_proc z) (s2\<lparr>mem := m\<rparr>)"
  have objq: "objs s q = Some (Obj_proc x)" using q(1) by (auto simp: proc_at_def split: option.splits kobj.splits)
  have tasks: "t \<noteq> q \<and> klive s t \<noteq> None" if t: "t \<in> set ts" for t
  proof -
    obtain k where "k < length ts" "t = ts ! k" using t by (auto simp: in_set_conv_nth)
    then obtain y where "task_at s t = Some y" using sched by (auto simp: sched_ok_def task_list_def links_ok_def)
    then show ?thesis using objq object_live [OF ok] by (auto simp: task_at_iff)
  qed
  have live3: "klive s3 = (klive s)(stk \<mapsto> 4)" "kvacant s3 = kvacant s2" "kroom s3 = kroom s2" "kheap_ok s3 = kheap_ok s2"
    by (simp_all add: s3_def 2(6))
  have "machine_ok s3" using growsD(1) [OF 2(3)] q(2) by (auto simp: machine_ok_def s3_def 2(6,7))
  moreover have more3: "fs_machine.more s3 = fs_machine.more s" using more_kernel_part [OF 2(8)] by (simp add: s3_def)
  moreover have "objs s3 t = objs s t" if "t \<in> set ts" for t using tasks [OF that] 2(7) by (simp add: s3_def)
  ultimately have sched3: "sched_ok s3 ts" by (rule sched_ok_frame [OF sched])
  have dk: "addrs d fs \<subseteq> addrs d (4096 * 1)" using fs by (intro addrs_mono) simp
  have d3: "klive s3 d = Some 1" "bytes_at (mem s3) d fs = bs"
  proof -
    have "d \<noteq> stk" "d \<noteq> q" using d(1) 2(5) q(2) by auto
    then show "klive s3 d = Some 1" using d(1) by (simp add: live3)
    have "addrs d (4096 * 1) \<inter> addrs q (4096 * 2) = {}" by (rule klive_apart [OF machine_okD [OF ok] d(1) q(2) \<open>d \<noteq> q\<close>])
    moreover have "addrs d (4096 * 1) \<inter> kvacant s = {}" by (rule klive_vacant [OF machine_okD [OF ok] d(1)])
    ultimately have out: "a \<notin> addrs q (4096 * 2)" "a \<notin> kvacant s" if "a \<in> addrs d fs" for a
      using dk that by blast+
    have "bytes_at (mem s3) d fs = bytes_at (mem s) d fs"
    proof (rule bytes_at_cong)
      fix a assume "a \<in> addrs d fs"
      from m [OF out(1) [OF this]] out(2) [OF this] show "mem s3 a = mem s a" using 2(3) by (simp add: s3_def grows_def)
    qed (use fs in simp)
    then show "bytes_at (mem s3) d fs = bs" using d(3) by simp
  qed
  obtain t s4 y where 4: "make_new_task q s3 = Some (t, s4)" "\<not> IS_ERR t" "sched_ok s4 (ts @ [t])" "task_at s4 t = Some y"
    "task_registers y = first_registers" "task_proc y = q" "fresh_space s3 (page_directory y) s4" "klive s3 t = None"
    "\<forall>u. u \<noteq> t \<longrightarrow> u \<notin> set ts \<longrightarrow> objs s4 u = objs s3 u" "processes s4 = processes s3"
    "paging s4 = paging s3" "literal s4 = literal s3" "kernel.more s4 = kernel.more s3"
    using make_new_task_space [OF sched3, of q] room 2(4) by (auto simp: live3)
  let ?page = "page_directory y"
  define s5 where "s5 = put_obj q (Obj_proc (z\<lparr>proc_task := t\<rparr>)) s4"
  have tq: "t \<noteq> q" using 4(8) q(2) 2(5) by (auto simp: live3 split: if_splits)
  have "q \<notin> set ts" using tasks by blast
  then have "objs s4 q = Some (Obj_proc z)" using 4(9) tq by (simp add: s3_def)
  then have q4: "proc_at s4 q = Some z" by (simp add: proc_at_def)
  note fresh = 4(7) [unfolded fresh_space_def]
  have ok4: "kheap_ok s4" "machine_ok s4" using 4(3) by (simp_all add: sched_ok_def machine_okD)
  have d4: "klive s4 d = Some 1" "d \<notin> set (space_blocks (mem s4) ?page)"
    using fresh d3(1) by auto
  have "addrs d (4096 * 1) \<inter> kvacant s3 = {}" by (rule klive_vacant [OF machine_okD d3(1)]) (use sched3 in \<open>simp add: sched_ok_def\<close>)
  then have "bytes_at (mem s4) d fs = bytes_at (mem s3) d fs" using fresh dk fs by (intro bytes_at_cong) auto
  then have bytes4: "bytes_at (mem s4) d fs = bs" using d3(2) by simp
  have block: "d mod 4096 = 0" "unat d + 4096 \<le> 2 ^ 32" using klive_block [OF ok4(1) d4(1)] by simp_all
  moreover have "unat d \<noteq> 0xFFFFF000"
  proof
    assume "unat d = 0xFFFFF000"
    then have "unat d = unat (0xFFFFF000 :: u32)" by simp
    then show False using d(2) by (simp only: word_unat_eq_iff)
  qed
  ultimately have page: "d mod 4096 = 0" "unat d + 4096 < 2 ^ 32" by simp_all
  have f4: "kheap_ok s5" "space_ok s5 ?page" "space_present (mem s5) ?page" "mem s5 = mem s4"
    using fresh ok4(1) by (simp_all add: s5_def space_ok_def)
  obtain m6 where 6: "paging_map_virtual_memory (mem s5) ?page PROGRAM_VIRTUAL_ADDRESS d (paging_align_address (d + of_nat fs))
      (ucast (PAGING_IS_PRESENT OR PAGING_ACCESS_FROM_ALL OR PAGING_IS_WRITEABLE)) = (0, m6)"
    "\<forall>i < 4096. translate m6 (space_dir m6 ?page) (0x400000 + of_nat i) = Some (d + of_nat i)"
    "\<forall>a. (\<forall>q \<in> set (space_blocks (mem s5) ?page). a \<notin> addrs q 4096) \<longrightarrow> m6 a = mem s5 a"
    using program_mapped [OF f4(1-3) page fs] by blast
  let ?s6 = "s5\<lparr>mem := m6\<rparr>"
  have t5: "task_at s5 t = Some y" "proc_at s5 q = Some (z\<lparr>proc_task := t\<rparr>)"
    using 4(4) tq by (simp_all add: s5_def task_at_def proc_at_def)
  then have map: "process_map_virtual_memory q s5 = Some (0, ?s6)"
    using 6(1) x by (simp add: process_map_virtual_memory_def process_map_binary_def z_def)
  have "proc_at (s2\<lparr>mem := m\<rparr>) q = Some x" using q(1) 2(7) by (simp add: proc_at_def)
  then have run: "process_setup fss name slot q s0 = Some (0, ?s6)"
    using load 2(1,2) nm 4(1,2) q4 map by (simp add: process_setup_def Let_def z_def s3_def s5_def)
  have obj5: "objs s5 u = objs s4 u" if "u \<in> set (ts @ [t])" for u using that tasks tq by (auto simp: s5_def)
  have "klive s4 q \<noteq> None" using object_live [OF ok4(2)] q4 by (cases "objs s4 q") (auto simp: proc_at_def)
  then have "machine_ok ?s6" using ok4(2) by (auto simp: machine_ok_def s5_def)
  moreover have "fs_machine.more ?s6 = fs_machine.more s4" by (simp add: s5_def)
  ultimately have "sched_ok ?s6 (ts @ [t])" by (rule sched_ok_frame [OF 4(3)]) (simp add: obj5)
  moreover have "m6 (d + of_nat k) = bs ! k" if k: "k < fs" for k
  proof -
    have "d + of_nat k \<in> addrs d (4096 * 1)" using k fs by (intro in_addrs_offset) simp_all
    moreover have "addrs d (4096 * 1) \<inter> addrs b (4096 * 1) = {}" if "b \<in> set (space_blocks (mem s4) ?page)" for b
    proof (rule klive_apart [OF ok4(1) d4(1)])
      show "klive s4 b = Some 1" using f4(2) that by (simp add: space_ok_def s5_def)
    qed (use d4(2) that in blast)
    ultimately have "m6 (d + of_nat k) = mem s4 (d + of_nat k)" using 6(3) by (auto simp: f4(4))
    then show ?thesis using arg_cong [OF bytes4, of "\<lambda>b. b ! k"] k by simp
  qed
  moreover have "processes ?s6 = processes s \<and> paging ?s6 = paging s \<and> literal ?s6 = literal s \<and> kernel.more ?s6 = kernel.more s"
    using 4(10-13) kernel_part_fields [OF more3] by (simp add: s5_def put_obj_def)
  moreover have "klive ?s6 r = Some k" if "klive s r = Some k" for r k
  proof -
    have "klive s3 r = Some k" using that 2(5) by (auto simp: live3)
    then show ?thesis using fresh by (auto simp: s5_def)
  qed
  moreover have "m6 a = mem s a" if a: "a \<notin> kvacant s" "a \<notin> addrs q (4096 * 2)" for a
  proof -
    have out: "a \<notin> kvacant s3" using a(1) 2(3) by (auto simp: live3 grows_def)
    have "a \<notin> addrs b 4096" if "b \<in> set (space_blocks (mem s5) ?page)" for b using that fresh out unfolding f4(4) by blast
    then have "m6 a = mem s4 a" using 6(3) unfolding f4(4) by blast
    also have "\<dots> = mem s3 a" using fresh out by blast
    also have "\<dots> = mem s a" using m [OF a(2)] a(1) 2(3) by (simp add: s3_def grows_def)
    finally show ?thesis .
  qed
  moreover have "klive s t = None" using 4(8) by (simp add: live3 split: if_splits)
  ultimately show ?thesis
    using run t5 4(5,6) 6(2) fs
    by (intro exI [of _ t] exI [of _ ?s6] exI [of _ y] exI [of _ "z\<lparr>proc_task := t\<rparr>"]) (simp add: task_at_def proc_at_def z_def)
qed

text \<open>The call from the path to the process.\<close>

lemma task_object: "sched_ok s ts \<Longrightarrow> t \<in> set ts \<Longrightarrow> \<exists>x. objs s t = Some (Obj_task x)"
  by (auto simp: sched_ok_def task_list_def links_ok_def in_set_conv_nth task_at_iff)

lemma load_process_root:
  assumes sched: "sched_ok s ts" and f: "program_file s a name private pr n j nm i start fs" and dev: "ata_ok dev img"
    and room: "1040 \<le> kroom s" "4 * int (heap_taken s + 10) \<le> heap_blocks (g_kernel_heap s)" and top: "0xFFFFF000 \<notin> kvacant s"
    and k: "k < 20" "processes s ! k = 0" "\<forall>l < k. processes s ! l \<noteq> 0"
  shows "\<exists>q s' t y z. load_process (kernel_filesystems dev a) name s = Some (0, Some q, s') \<and> q \<noteq> 0 \<and>
    processes s' = (processes s)[k := q] \<and> sched_ok s' (ts @ [t]) \<and> task_at s' t = Some y \<and> task_proc y = q \<and>
    task_registers y = first_registers \<and> proc_at s' q = Some z \<and> proc_task z = t \<and> proc_id z = of_nat k \<and>
    (\<forall>l < fs. \<exists>p. translate (mem s') (space_dir (mem s') (page_directory y)) (0x400000 + of_nat l) = Some p \<and>
       mem s' p = disk_bytes img start fs ! l) \<and>
    paging s' = paging s \<and> literal s' = literal s \<and> kernel.more s' = kernel.more s \<and>
    (\<forall>r k. klive s r = Some k \<longrightarrow> klive s' r = Some k) \<and> klive s q = None \<and> klive s t = None \<and>
    (\<forall>x. x \<notin> kvacant s \<union> tmp_range s \<union> addrs (stat_local s) 32 \<longrightarrow> mem s' x = mem s x)"
proof -
  let ?fss = "kernel_filesystems dev a"
  have ok: "machine_ok s" using sched by (simp add: sched_ok_def)
  obtain b where b: "free_pages s b 4"
    using free_run [OF machine_okD [OF ok] machine_okD [OF ok], of 0 4] room(2) by auto
  obtain q s1 s2 where 1: "kzalloc_obj s sizeof_process (Obj_proc zero_process) = (q, s1)" "q \<noteq> 0" "process_init q s1 = Some s2"
    "grows s s2" "machine.more s2 = machine.more s" "objs s2 = (objs s)(q \<mapsto> Obj_proc zero_process)" "klive s q = None"
    "klive s2 = (klive s)(q \<mapsto> 2)" "kroom s = kroom s2 + 2" "objs s q = None" "addrs q (4096 * 2) \<subseteq> kvacant s"
    using new_process [OF ok b] by auto
  have f2: "program_file s2 a name private pr n j nm i start fs"
    by (rule program_file_grows [OF f 1(4,5)]) (use 1(6,10) in auto)
  have q2: "proc_at s2 q = Some zero_process" by (simp add: proc_at_def 1(6))
  obtain d s3 where 3: "process_load_binary ?fss name q s2 = Some (0, s3)" "machine_ok s3" "klive s2 d = None" "klive s3 d = Some 1"
    "bytes_at (mem s3) d fs = disk_bytes img start fs"
    "proc_at s3 q = Some (zero_process\<lparr>physical_pointer := d, proc_size := of_nat fs\<rparr>)" "kvacant s3 \<subseteq> kvacant s2"
    "kroom s2 = kroom s3 + 7" "addrs d 4096 \<subseteq> kvacant s2"
    "\<forall>r. objs s2 r \<noteq> None \<longrightarrow> r \<noteq> q \<longrightarrow> r \<noteq> cluster_read_stream pr \<longrightarrow> objs s3 r = objs s2 r"
    "\<forall>r k. klive s2 r = Some k \<longrightarrow> klive s3 r = Some k" "fs_machine.more s3 = fs_machine.more s2"
    "\<forall>y. y \<notin> kvacant s2 \<union> tmp_range s2 \<union> addrs (stat_local s2) 32 \<longrightarrow> mem s3 y = mem s2 y"
    using load_binary_root [OF f2 dev _ q2] room(1) 1(9) by auto
  have sub: "kvacant s3 \<subseteq> kvacant s" "d \<noteq> 0xFFFFF000"
  proof -
    have g: "kvacant s2 \<subseteq> kvacant s" using 1(4) by (simp add: grows_def)
    then show "kvacant s3 \<subseteq> kvacant s" using 3(7) by blast
    have "d \<in> addrs d 4096" by (simp add: addrs_def)
    then show "d \<noteq> 0xFFFFF000" using 3(9) g top by blast
  qed
  have sched3: "sched_ok s3 ts"
  proof (rule sched_ok_frame [OF sched 3(2)])
    show "fs_machine.more s3 = fs_machine.more s" using 3(12) more_kernel_part [OF 1(5)] by simp
    fix t assume "t \<in> set ts"
    then obtain x where x: "objs s t = Some (Obj_task x)" using task_object [OF sched] by blast
    then have "t \<noteq> q" "t \<noteq> cluster_read_stream pr" using 1(10) f by (auto simp: program_file_def stream_on_def)
    then show "objs s3 t = objs s t" using 3(10) x by (simp add: 1(6))
  qed
  obtain b' where b': "free_pages s3 b' 4"
    using free_run [OF machine_okD [OF ok] machine_okD [OF 3(2)] sub(1), of 9 4] 1(9) 3(8) room(2) by auto
  have fs: "0 < fs" "fs \<le> 4096" using f by (simp_all add: program_file_def)
  have q3: "klive s3 q = Some 2" using 3(11) by (simp add: 1(8))
  have load: "process_load_data ?fss name q s2 = Some (0, s3)" using 3(1) by (simp add: process_load_data_def)
  obtain t s4 y z where 4: "process_setup ?fss name (int k) q s1 = Some (0, s4)" "sched_ok s4 (ts @ [t])" "task_at s4 t = Some y"
    "task_proc y = q" "task_registers y = first_registers" "proc_at s4 q = Some z" "proc_task z = t" "proc_id z = word_of_int (int k)"
    "\<forall>l < fs. \<exists>p. translate (mem s4) (space_dir (mem s4) (page_directory y)) (0x400000 + of_nat l) = Some p \<and>
       mem s4 p = disk_bytes img start fs ! l" "processes s4 = processes s3" "paging s4 = paging s3" "literal s4 = literal s3"
    "kernel.more s4 = kernel.more s3" "\<forall>r k. klive s3 r = Some k \<longrightarrow> klive s4 r = Some k" "klive s3 t = None"
    "\<forall>a. a \<notin> kvacant s3 \<longrightarrow> a \<notin> addrs q (4096 * 2) \<longrightarrow> mem s4 a = mem s3 a"
    using setup_after_load [OF sched3 b' _ 3(6) q3 _ _ 3(4) sub(2) 3(5) fs 1(3) load, of "int k"] room(1) 1(9) 3(8) k(1) by auto
  let ?s5 = "s4\<lparr>processes := (processes s4)[k := q]\<rparr>"
  have "List.find (\<lambda>i. processes s ! i = 0) [0..<MAX_PROCESSES] = Some k"
    using k by (auto simp: find_Some_iff MAX_PROCESSES_def intro!: exI [of _ k])
  then have "process_get_free_slot s = int k" by (simp add: process_get_free_slot_def)
  moreover have "get_process_by_id (int k) s = 0" using k by (simp add: get_process_by_id_def MAX_PROCESSES_def)
  ultimately have run: "load_process ?fss name s = Some (0, Some q, ?s5)"
    using 1(1,2) 4(1) k(1) by (simp add: load_process_def process_load_for_slot_def MAX_PROCESSES_def)
  have keep: "processes s4 = processes s" "paging s4 = paging s" "literal s4 = literal s" "kernel.more s4 = kernel.more s"
    using 4(10-13) kernel_part_fields [OF 3(12)] more_kernel [OF 1(5)] by simp_all
  have live: "klive ?s5 r = Some j" if "klive s r = Some j" for r j
  proof -
    have "r \<noteq> q" using that 1(7) by auto
    then have "klive s2 r = Some j" using that by (simp add: 1(8))
    then have "klive s4 r = Some j" using 3(11) 4(14) by blast
    then show ?thesis by (simp add: klive_def)
  qed
  have mem: "mem ?s5 x = mem s x" if x: "x \<notin> kvacant s \<union> tmp_range s \<union> addrs (stat_local s) 32" for x
  proof -
    have g: "kvacant s2 \<subseteq> kvacant s" "\<And>x. x \<notin> kvacant s \<Longrightarrow> mem s2 x = mem s x" using 1(4) by (auto simp: grows_def)
    have "mem s4 x = mem s3 x" using 4(16) x sub(1) 1(11) by blast
    also have "\<dots> = mem s2 x" using 3(13) x g(1) more_disk [OF 1(5)] more_locals [OF 1(5)] by auto
    also have "\<dots> = mem s x" using x g(2) by simp
    finally show ?thesis by simp
  qed
  moreover have "sched_ok ?s5 (ts @ [t])"
    using 4(2) by (simp add: sched_ok_def task_list_def links_ok_def machine_ok_def kheap_defs task_at_def)
  moreover have "klive s t = None"
  proof (rule ccontr)
    assume "klive s t \<noteq> None"
    then obtain j where j: "klive s t = Some j" by blast
    then have "t \<noteq> q" using 1(7) by auto
    then have "klive s2 t = Some j" using j by (simp add: 1(8))
    then show False using 3(11) 4(15) by auto
  qed
  ultimately show ?thesis
    using run 1(2,7) 4(3-9) keep live mem by (intro exI [of _ q] exI [of _ ?s5] exI [of _ t] exI [of _ y] exI [of _ z]) (simp add: task_at_def proc_at_def)
qed

end
