(* ===== verification/Program_Properties.thy ===== *)
theory Program_Properties
  imports Program_Load Vfs_Properties Task_Properties
begin

text \<open>
  What loading a program promises: a file of the root directory becomes a process whose new task
  sees the bytes of the file at the program address, and a process takes the first free slot of the
  table, or none.
\<close>

section \<open>An example kernel\<close>

text \<open>The mounted disk of the file-system examples, in a heap of 25600 blocks.\<close>

definition large_heap :: heap where
  "large_heap = \<lparr>table = \<lparr>entries = (\<lambda>i. if 0 \<le> i \<and> i < 16 then 0x41 else 0), table_total = 25600\<rparr>, start_address = 0x01000000\<rparr>"

lemma large_heap_ok: "heap_ok large_heap"
  by (simp add: heap_ok_def heap_blocks_def large_heap_def heap_consts table_ok_def)

lemma large_live: "i < 16 \<Longrightarrow> live large_heap (0x01000000 + 4096 * of_nat i) = Some 1"
proof -
  assume i: "i < 16"
  have "live large_heap (block_address large_heap (int i)) = Some 1"
    using live_block_address [OF large_heap_ok, of "int i"] i
    by (simp add: allocation_def heap_blocks_def large_heap_def heap_consts block_has_next_block_def run_length.simps)
  then show ?thesis by (simp add: block_address_def large_heap_def heap_consts mult.commute)
qed

lemma large_room: "free_room large_heap = 25584"
proof -
  have "{i. 0 \<le> i \<and> i < heap_blocks large_heap \<and> entries (table large_heap) i = 0} = {16..<25600}"
    by (auto simp: heap_blocks_def large_heap_def split: if_splits)
  then show ?thesis by (simp add: free_room_def)
qed

lemma large_vacant_iff: "a \<in> vacant large_heap \<longleftrightarrow> 0x01010000 \<le> unat a \<and> unat a < 0x07400000"
proof -
  define x where "x = int (unat a) - 0x01000000"
  have block: "block_of large_heap a = x div 4096" by (simp add: block_of_def large_heap_def x_def)
  have "a \<in> vacant large_heap \<longleftrightarrow> 16 \<le> x div 4096 \<and> x div 4096 < 25600"
    by (auto simp: vacant_def block) (auto simp: large_heap_def heap_blocks_def split: if_splits)
  also have "\<dots> \<longleftrightarrow> 0x10000 \<le> x \<and> x < 0x06400000"
    using mult_div_mod_eq [of 4096 x] pos_mod_bound [of 4096 x] pos_mod_sign [of 4096 x] by linarith
  also have "\<dots> \<longleftrightarrow> 0x01010000 \<le> unat a \<and> unat a < 0x07400000" by (simp only: x_def) linarith
  finally show ?thesis .
qed

lemma large_vacant: "unat p + n \<le> 0x01010000 \<Longrightarrow> addrs p n \<inter> vacant large_heap = {}"
  by (auto simp: large_vacant_iff addrs_interval)

definition disk_kernel :: kernel where
  "disk_kernel = kernel_of large_heap fat_objects 0 0 0\<lparr>mem := open_memory, literal := (\<lambda>l. 0xC000), stat_local := 0xD000\<rparr>"

lemma disk_kernel_simps [simp]:
  "mem disk_kernel = open_memory" "kvacant disk_kernel = vacant large_heap" "klive disk_kernel = live large_heap"
  "objs disk_kernel = fat_objects" "kroom disk_kernel = 25584" "disk_var disk_kernel = fat_disk" "disk_address disk_kernel = 0x8000"
  "tmp_filename disk_kernel = 0xA000" "file_descriptors disk_kernel = replicate 512 0" "literal disk_kernel l = 0xC000"
  "stat_local disk_kernel = 0xD000" "processes disk_kernel = replicate 20 0" "head_task disk_kernel = 0" "tail_task disk_kernel = 0"
  "current_task disk_kernel = 0"
  using large_room by (simp_all add: disk_kernel_def kernel_of_def kheap_defs)

lemma disk_kernel_ok: "sched_ok disk_kernel []" "machine_ok disk_kernel"
proof -
  have "live large_heap 0x01000000 = Some 1" "live large_heap 0x01001000 = Some 1" "live large_heap 0x01002000 = Some 1"
    "live large_heap 0x01003000 = Some 1" "live large_heap 0x01005000 = Some 1" "live large_heap 0x01007000 = Some 1"
    "live large_heap 0x01008000 = Some 1" "live large_heap 0x0100A000 = Some 1"
    using large_live [of 0] large_live [of 1] large_live [of 2] large_live [of 3] large_live [of 5] large_live [of 7] large_live [of 8]
      large_live [of 10] by simp_all
  moreover have "kheap_ok disk_kernel" using large_heap_ok by (simp add: disk_kernel_def kernel_of_def kheap_defs)
  ultimately show "machine_ok disk_kernel" by (auto simp: machine_ok_def fat_objects_def split: if_splits)
  then show "sched_ok disk_kernel []" by (simp add: sched_ok_def task_list_def links_ok_def)
qed

lemma disk_kernel_room: "4 * int (heap_taken disk_kernel + 10) \<le> heap_blocks (g_kernel_heap disk_kernel)"
  by (simp add: heap_taken_def) (simp add: disk_kernel_def kernel_of_def large_heap_def heap_blocks_def)

lemma disk_kernel_path: "path_str disk_kernel 0xB000 (0x2F # hello_name)"
proof -
  have "Suc (length (0x2F # hello_name)) = 11" by (simp add: hello_name_def)
  moreover have "addrs 0xB000 11 \<inter> vacant large_heap = {}" by (rule large_vacant) simp
  ultimately show ?thesis using open_machine_path by (simp only: path_str_def disk_kernel_simps open_machine_simps simp_thms)
qed

lemma disk_kernel_ready: "fopen_ready disk_kernel 0x9000 0xC000"
proof -
  have low: "addrs 0x9000 1 \<inter> vacant large_heap = {}" "0xC000 \<notin> vacant large_heap"
    by (rule large_vacant, simp) (simp add: large_vacant_iff)
  have "open_memory 0x9000 = 0" "open_memory 0xC000 = 0x72"
    by (simp_all add: open_memory_def write_bytes_def addrs_def fat_memory_def hello_item_def hello_name_def)
  then have "kept_str disk_kernel 0x9000 []" "open_memory 0xC000 = 0x72" using low by (auto simp: kept_str_def)
  then show ?thesis
    unfolding fopen_ready_def disk_kernel_simps using disk_kernel_ok(2) low by (auto simp: fat_disk_def fd_table_ok_def)
qed

lemma disk_kernel_entry: "root_entry disk_kernel fat_private 1 0 hello_name"
proof -
  have "addrs 0x01004000 32 \<inter> vacant large_heap = {}" "addrs 0xA000 100 \<inter> vacant large_heap = {}"
    by (rule large_vacant; simp)+
  then show ?thesis using open_machine_entry by (auto simp: root_entry_def fat_private_def)
qed

text \<open>The file \<open>HELLO.TXT\<close> has 20 bytes in cluster 3, which is sector 13.\<close>

lemma disk_kernel_file: "program_file disk_kernel 0x9000 0xB000 0x01000000 fat_private 1 0 hello_name 0 6656 20"
proof -
  have item: "bytes_at open_memory 0x01004000 32 = hello_item"
  proof -
    have "bytes_at open_memory 0x01004000 32 = bytes_at fat_memory 0x01004000 32"
      by (rule bytes_at_cong) (auto simp: addrs_interval intro: open_memory_high)
    then show ?thesis by (simp only: fat_memory_items)
  qed
  have byte: "open_memory (0x01004000 + of_nat k) = hello_item ! k" if "k < 32" for k
    using arg_cong [OF item, of "\<lambda>b. b ! k"] that by simp
  have fields: "i_reserved open_memory 0x01004000 = 0" "i_filesize open_memory 0x01004000 = of_nat 20"
    "i_low_16_bits_first_cluster open_memory 0x01004000 = 3" "i_high_16_bits_first_cluster open_memory 0x01004000 = 0"
    using byte [of 12] byte [of 28] byte [of 29] byte [of 30] byte [of 31] byte [of 20] byte [of 21] byte [of 26] byte [of 27]
    by (simp_all add: i_reserved_def i_filesize_def i_high_16_bits_first_cluster_def
      i_low_16_bits_first_cluster_def load32_def load16_def hello_item_def)
  have h: "h_sectors_per_cluster open_memory 0x01000000 = 4"
    using open_memory_high [of "0x0100000D"] fat_memory_header(1) by (simp add: h_sectors_per_cluster_def)
  have "\<exists>cs. path_str disk_kernel 0xB000 cs \<and> path_names cs = [hello_name]"
    using disk_kernel_path by (intro exI [of _ "0x2F # hello_name"]) (simp add: path_names_def hello_name_def)
  moreover have "disk_private disk_kernel 0x8000 = Some (0x01000000, fat_private)"
    using fat_machine_private(1) by (simp add: disk_private_def disk_at_def private_at_def)
  moreover have "stream_on disk_kernel (cluster_read_stream fat_private)"
    by (simp add: stream_on_def fat_private_def fat_objects_def)
  moreover have "addrs 0xD000 32 \<inter> vacant large_heap = {}" by (rule large_vacant) simp
  moreover have "0x0100000D \<notin> addrs 0xA000 100 \<union> vacant large_heap \<union> addrs 0xD000 32"
    by (simp add: addrs_interval large_vacant_iff)
  moreover have "first_byte open_memory 0x01000000 fat_private 0x01004000 = 6656"
    by (simp add: first_byte_def fat_private_def h fields)
  ultimately show ?thesis
    unfolding program_file_def disk_kernel_simps Let_def
    using disk_kernel_ready disk_kernel_entry fields h by (simp add: fat_private_def fat_disk_def)
qed

section \<open>Properties\<close>

text \<open>
  C3. Loading a program: for a path that names exactly one file among the entries of the root
  directory that the driver looks at, of 1 to 4096 bytes in one cluster whose number has no
  high word, with a free descriptor below the last, and a heap with 1040 free blocks and about
  a quarter in use at most, \<open>load_process\<close> puts a new process in the first free
  slot and appends its task to the scheduler's list, starting at the program address with the
  user segments; in the address space of the task byte \<open>l\<close> at the program address
  is byte \<open>l\<close> of the file on the disk.
\<close>

lemma program_loaded:
  assumes "sched_ok s ts" and "program_file s a name private pr n j nm i start fs" and "ata_ok dev img"
    and "1040 \<le> kroom s" "4 * int (heap_taken s + 10) \<le> heap_blocks (g_kernel_heap s)" and "0xFFFFF000 \<notin> kvacant s"
    and "k < 20" and "processes s ! k = 0" and "\<forall>l < k. processes s ! l \<noteq> 0"
  shows "\<exists>q s' t y z. load_process (kernel_filesystems dev a) name s = Some (0, Some q, s') \<and> q \<noteq> 0 \<and>
    processes s' = (processes s)[k := q] \<and> sched_ok s' (ts @ [t]) \<and> task_at s' t = Some y \<and> task_proc y = q \<and>
    task_registers y = first_registers \<and> proc_at s' q = Some z \<and> proc_task z = t \<and> proc_id z = of_nat k \<and>
    (\<forall>l < fs. \<exists>p. translate (mem s') (space_dir (mem s') (page_directory y)) (PROGRAM_VIRTUAL_ADDRESS + of_nat l) = Some p \<and>
       mem s' p = disk_bytes img start fs ! l)"
  using load_process_root [OF assms] unfolding PROGRAM_VIRTUAL_ADDRESS_def by (elim exE conjE) (intro exI conjI, assumption+)

lemma program_loaded_witness:
  "\<exists>q s' t y p. load_process (kernel_filesystems (ata_disk plain_image) 0x9000) 0xB000 disk_kernel = Some (0, Some q, s') \<and>
     processes s' = q # replicate 19 0 \<and> current_task s' = t \<and> task_at s' t = Some y \<and>
     translate (mem s') (space_dir (mem s') (page_directory y)) 0x400000 = Some p \<and> mem s' p = 13"
proof -
  obtain q s' t y where load: "load_process (kernel_filesystems (ata_disk plain_image) 0x9000) 0xB000 disk_kernel = Some (0, Some q, s')"
    "processes s' = (processes disk_kernel)[0 := q]" "sched_ok s' ([] @ [t])" "task_at s' t = Some y"
    "\<forall>l < 20. \<exists>p. translate (mem s') (space_dir (mem s') (page_directory y)) (PROGRAM_VIRTUAL_ADDRESS + of_nat l) = Some p \<and>
       mem s' p = disk_bytes plain_image 6656 20 ! l"
    using program_loaded [OF disk_kernel_ok(1) disk_kernel_file plain_disk_ok _ disk_kernel_room, of 0]
    by (auto simp: large_vacant_iff)
  have "disk_bytes plain_image 6656 20 ! 0 = 13" by (simp add: disk_bytes_def plain_image_def)
  then obtain p where "translate (mem s') (space_dir (mem s') (page_directory y)) 0x400000 = Some p" "mem s' p = 13"
    using load(5) [rule_format, of 0] by (auto simp: PROGRAM_VIRTUAL_ADDRESS_def)
  then show ?thesis using load by (auto simp: sched_ok_def numeral_eq_Suc)
qed

text \<open>
  C28. When it returns, \<open>load_process\<close> either gives a negative number and leaves
  the process table alone, or puts the new process into the first free slot and returns 0, not
  the number of the slot; with all 20 slots taken it gives \<open>-ENOMEM\<close> and changes
  nothing.
\<close>

lemma load_process_slots:
  assumes "load_process (kernel_filesystems dev a) name s = Some (r, p, s')"
  shows "(p = None \<longrightarrow> r < 0 \<and> processes s' = processes s) \<and>
    (\<forall>q. p = Some q \<longrightarrow> r = 0 \<and> q \<noteq> 0 \<and> (\<exists>i < 20. processes s ! i = 0 \<and> (\<forall>j < i. processes s ! j \<noteq> 0) \<and>
       processes s' = (processes s)[i := q])) \<and>
    ((\<forall>i < 20. processes s ! i \<noteq> 0) \<longrightarrow> r = - ENOMEM \<and> p = None \<and> s' = s)"
  using kernel_fs_parts.load_process_slot [OF assms] load_process_full [of s "kernel_filesystems dev a" name] assms by auto

lemma load_process_slots_witness:
  "\<exists>q s'. load_process (kernel_filesystems (ata_disk plain_image) 0x9000) 0xB000 disk_kernel = Some (0, Some q, s') \<and>
     q \<noteq> 0 \<and> processes s' = q # replicate 19 0"
proof -
  obtain q s' where run: "load_process (kernel_filesystems (ata_disk plain_image) 0x9000) 0xB000 disk_kernel = Some (0, Some q, s')"
    using load_process_root [OF disk_kernel_ok(1) disk_kernel_file plain_disk_ok _ disk_kernel_room, of 0] by (auto simp: large_vacant_iff)
  then obtain i where "i < 20" "\<forall>j < i. processes disk_kernel ! j \<noteq> 0" "q \<noteq> 0" "processes s' = (processes disk_kernel)[i := q]"
    using load_process_slots [OF run] by auto
  moreover from this have "i = 0" by (cases i) auto
  ultimately show ?thesis using run by (simp add: numeral_eq_Suc)
qed

end
