(* ===== verification/Core_Runtime.thy ===== *)
theory Core_Runtime
  imports Processes
begin

text \<open>
  The C++ runtime of the kernel: \<open>operator new\<close> and \<open>delete\<close> and the kernel's address space
  (\<open>core/memory.cc\<close>), \<open>lava::ostream\<close> (\<open>core/iostream.cc\<close>), \<open>lava::string\<close> (\<open>core/string.cc\<close>) and
  \<open>lava::file\<close> (\<open>core/file.cc\<close>). A \<open>lava::string\<close> is its \<open>_str\<close> pointer; a method that changes
  its object returns it. \<open>delete[]\<close> of a null pointer calls nothing.
\<close>

section \<open>Memory\<close>

definition operator_new :: "u32 \<Rightarrow> 'a machine_scheme \<Rightarrow> u32 \<times> 'a machine_scheme" where
  "operator_new n s = kmalloc s n"

definition operator_new_array :: "u32 \<Rightarrow> 'a machine_scheme \<Rightarrow> u32 \<times> 'a machine_scheme" where
  "operator_new_array n s = operator_new n s"

definition operator_delete :: "u32 \<Rightarrow> 'a machine_scheme \<Rightarrow> 'a machine_scheme option" where
  "operator_delete ptr s = kfree s ptr"

definition operator_delete_array :: "u32 \<Rightarrow> 'a machine_scheme \<Rightarrow> 'a machine_scheme option" where
  "operator_delete_array ptr s = operator_delete ptr s"

text \<open>The operators with the size of the object, which they do not look at.\<close>

definition operator_delete_sized :: "u32 \<Rightarrow> u32 \<Rightarrow> 'a machine_scheme \<Rightarrow> 'a machine_scheme option" where
  "operator_delete_sized ptr n s = operator_delete ptr s"

definition operator_delete_array_sized :: "u32 \<Rightarrow> u32 \<Rightarrow> 'a machine_scheme \<Rightarrow> 'a machine_scheme option" where
  "operator_delete_array_sized ptr n s = operator_delete ptr s"

definition delete_array :: "u32 \<Rightarrow> 'a machine_scheme \<Rightarrow> 'a machine_scheme option" where
  "delete_array ptr s = (if ptr = 0 then Some s else operator_delete_array ptr s)"

definition initialize_kernel_heap :: "'a machine_scheme \<Rightarrow> 'a machine_scheme" where
  "initialize_kernel_heap s = kheap_init s"

definition switch_to_vm :: "u32 \<Rightarrow> 'a kernel_scheme \<Rightarrow> 'a kernel_scheme" where
  "switch_to_vm other s = s\<lparr>paging := switch_to_page (mem s) other (paging s)\<rparr>"

definition switch_to_kvm :: "'a kernel_scheme \<Rightarrow> 'a kernel_scheme" where
  "switch_to_kvm s = s\<lparr>paging := switch_to_kernel_page (mem s) (paging s)\<rparr>"

text \<open>\<open>enable_paging\<close>, which turns the page tables on, is assembly; the rest returns \<open>_kvm\<close>.\<close>

definition vm_initialize :: "'a kernel_scheme \<Rightarrow> u32 \<times> 'a kernel_scheme" where
  "vm_initialize s =
     (let (kvm, s) = make_new_4GB_virtual_memory_address_space s
            (PAGING_IS_WRITEABLE OR PAGING_IS_PRESENT OR PAGING_ACCESS_FROM_ALL);
          s = s\<lparr>paging := paging_install_kernel_page kvm (paging s)\<rparr>
      in (kvm, switch_to_kvm s))"

section \<open>Symbols of the compiler\<close>

text \<open>
  \<open>core/default_symbols.cc\<close>: the guard of a function's static object, which is a byte that is set
  once the object is made, and the guard of the stack.
\<close>

definition cxa_guard_acquire :: "u32 \<Rightarrow> 'a machine_scheme \<Rightarrow> int" where
  "cxa_guard_acquire guard s = (if mem s guard = 0 then 1 else 0)"

definition cxa_guard_release :: "u32 \<Rightarrow> 'a machine_scheme \<Rightarrow> 'a machine_scheme" where
  "cxa_guard_release guard s = s\<lparr>mem := (mem s)(guard := 1)\<rparr>"

definition cxa_guard_abort :: "u32 \<Rightarrow> 'a machine_scheme \<Rightarrow> 'a machine_scheme" where
  "cxa_guard_abort guard s = s"

definition stack_chk_guard_setup :: "u32 \<Rightarrow> 'a machine_scheme \<Rightarrow> 'a machine_scheme" where
  "stack_chk_guard_setup stack_chk_guard s =
     s\<lparr>mem := (mem s)(stack_chk_guard + (4 - 1) := 255, stack_chk_guard + (4 - 2) := 10, stack_chk_guard := 0)\<rparr>"

definition cxa_atexit :: "u32 \<Rightarrow> u32 \<Rightarrow> u32 \<Rightarrow> int" where
  "cxa_atexit destructor parameter home = 0"

definition unwind_resume :: "'a machine_scheme \<Rightarrow> 'a machine_scheme" where
  "unwind_resume s = s"

definition cxa_finalize :: "u32 \<Rightarrow> 'a machine_scheme \<Rightarrow> 'a machine_scheme" where
  "cxa_finalize home s = s"

definition cxa_pure_virtual :: "'a machine_scheme \<Rightarrow> 'a machine_scheme" where
  "cxa_pure_virtual s = s"

definition stack_chk_fail :: "'a machine_scheme \<Rightarrow> 'a machine_scheme option" where
  "stack_chk_fail s = loop_forever s"

section \<open>Output\<close>

definition cout_str :: "u32 \<Rightarrow> 'a machine_scheme \<Rightarrow> 'a machine_scheme option" where
  "cout_str str s = klog_at str s"

definition cout_int :: "int \<Rightarrow> 'a machine_scheme \<Rightarrow> 'a machine_scheme option" where
  "cout_int num s = klog_number num s"

datatype color = black | blue | green | cyan | red | magenta | orange | light_grey | dark_grey | light_blue
  | light_green | light_cyan | light_red | light_magenta | yellow | white

fun vga_color :: "color \<Rightarrow> u8" where
  "vga_color black = 0"
| "vga_color blue = 1"
| "vga_color green = 2"
| "vga_color cyan = 3"
| "vga_color red = 4"
| "vga_color magenta = 5"
| "vga_color orange = 6"
| "vga_color light_grey = 7"
| "vga_color dark_grey = 8"
| "vga_color light_blue = 9"
| "vga_color light_green = 10"
| "vga_color light_cyan = 11"
| "vga_color light_red = 12"
| "vga_color light_magenta = 13"
| "vga_color yellow = 14"
| "vga_color white = 15"

definition cout_color :: "color \<Rightarrow> 'a machine_scheme \<Rightarrow> 'a machine_scheme" where
  "cout_color color s = s\<lparr>con := set_color (vga_color color) (con s)\<rparr>"

definition cout_init :: "'a machine_scheme \<Rightarrow> 'a machine_scheme" where
  "cout_init s = s\<lparr>con := clear (con s)\<rparr>"

definition cout_apply :: "('a machine_scheme \<Rightarrow> 'a machine_scheme) \<Rightarrow> 'a machine_scheme \<Rightarrow> 'a machine_scheme" where
  "cout_apply func s = func s"

definition endl :: "'a machine_scheme \<Rightarrow> 'a machine_scheme" where
  "endl s = klog ''\<newline>'' s"

section \<open>Strings\<close>

definition string_empty :: "'a machine_scheme \<Rightarrow> u32 \<times> 'a machine_scheme" where
  "string_empty s = (let (str, s) = operator_new_array 1 s in (str, s\<lparr>mem := (mem s)(str := 0)\<rparr>))"

text \<open>A new array with a copy of the characters at \<open>val\<close>.\<close>

definition string_copy :: "u32 \<Rightarrow> 'a machine_scheme \<Rightarrow> (u32 \<times> 'a machine_scheme) option" where
  "string_copy val s = do {
     n \<leftarrow> strlen (mem s) val;
     let (str, s) = operator_new_array (n + 1) s;
     m \<leftarrow> strcpy str val (mem s);
     n \<leftarrow> strlen m val;
     Some (str, s\<lparr>mem := m(str + n := 0)\<rparr>) }"

definition string_of_chars :: "u32 \<Rightarrow> 'a machine_scheme \<Rightarrow> (u32 \<times> 'a machine_scheme) option" where
  "string_of_chars val s = (if val = 0 then Some (string_empty s) else string_copy val s)"

text \<open>The new string and what is left of the source.\<close>

definition string_move :: "u32 \<Rightarrow> u32 \<times> u32" where
  "string_move source = (source, 0)"

definition string_of_string :: "u32 \<Rightarrow> 'a machine_scheme \<Rightarrow> (u32 \<times> 'a machine_scheme) option" where
  "string_of_string source s = string_copy source s"

definition string_destroy :: "u32 \<Rightarrow> 'a machine_scheme \<Rightarrow> 'a machine_scheme option" where
  "string_destroy str s = delete_array str s"

definition string_assign :: "u32 \<Rightarrow> u32 \<Rightarrow> 'a machine_scheme \<Rightarrow> (u32 \<times> 'a machine_scheme) option" where
  "string_assign str val s = do {
     s \<leftarrow> (if str \<noteq> 0 then operator_delete_array str s else Some s);
     string_of_chars val s }"

definition string_data :: "u32 \<Rightarrow> u32" where
  "string_data str = str"

definition cout_string :: "u32 \<Rightarrow> 'a machine_scheme \<Rightarrow> 'a machine_scheme option" where
  "cout_string str s = cout_str str s"

section \<open>Files\<close>

datatype open_file_mode = READ | WRITE | APPEND
datatype seek_file_mode = SET | CUR | END

text \<open>\<open>_stat\<close> is the address of the 32 bytes that \<open>fstat\<close> fills.\<close>

record lava_file =
  file_fd :: int
  file_name :: u32
  file_mode :: open_file_mode
  file_stat :: u32

definition file_new :: "u32 \<Rightarrow> open_file_mode \<Rightarrow> u32 \<Rightarrow> 'a machine_scheme \<Rightarrow> (lava_file \<times> 'a machine_scheme) option" where
  "file_new filename mode stat s = do {
     (name, s) \<leftarrow> string_of_string filename s;
     Some (\<lparr>file_fd = 0, file_name = name, file_mode = mode, file_stat = stat\<rparr>, s) }"

definition file_is_open :: "lava_file \<Rightarrow> bool" where
  "file_is_open f \<longleftrightarrow> file_fd f > 0"

definition file_open :: "'a kernel_scheme fs_table \<Rightarrow> lava_file \<Rightarrow> 'a kernel_scheme \<Rightarrow> (lava_file \<times> 'a kernel_scheme) option" where
  "file_open fss f s =
     (if file_is_open f then Some (f, s)
      else do {
        (mode, s) \<leftarrow> string_of_chars (literal s ''r'') s;
        (mode, s) \<leftarrow>
          (case file_mode f of
             READ \<Rightarrow> string_assign mode (literal s ''r'') s
           | WRITE \<Rightarrow> string_assign mode (literal s ''w'') s
           | APPEND \<Rightarrow> string_assign mode (literal s ''a'') s);
        (fd, s) \<leftarrow> fopen fss (string_data (file_name f)) (string_data mode) s;
        let f = f\<lparr>file_fd := fd\<rparr>;
        s \<leftarrow> (if file_is_open f then do { (_, s) \<leftarrow> fstat fss (file_fd f) (file_stat f) s; Some s } else Some s);
        s \<leftarrow> string_destroy mode s;
        Some (f, s) })"

definition file_size :: "lava_file \<Rightarrow> 'a machine_scheme \<Rightarrow> int" where
  "file_size f s = sint (load32 (mem s) (st_filesize (file_stat f)))"

definition file_write :: "lava_file \<Rightarrow> u32 \<Rightarrow> 'a machine_scheme \<Rightarrow> 'a machine_scheme" where
  "file_write f str s = s"

definition file_seekg :: "'a kernel_scheme fs_table \<Rightarrow> lava_file \<Rightarrow> int \<Rightarrow> seek_file_mode \<Rightarrow> 'a kernel_scheme \<Rightarrow>
    'a kernel_scheme option" where
  "file_seekg fss f offset mode s =
     (if \<not> file_is_open f then Some s
      else do {
        let c_mode = (case mode of SET \<Rightarrow> SEEK_SET | CUR \<Rightarrow> SEEK_CUR | END \<Rightarrow> SEEK_END);
        (_, s) \<leftarrow> fseek fss (file_fd f) offset c_mode s;
        Some s })"

text \<open>\<open>buf\<close> is the address of the array on the stack.\<close>

definition file_read :: "'a kernel_scheme fs_table \<Rightarrow> lava_file \<Rightarrow> int \<Rightarrow> int \<Rightarrow> u32 \<Rightarrow> 'a kernel_scheme \<Rightarrow>
    (u32 \<times> 'a kernel_scheme) option" where
  "file_read fss f size_bytes nmemb buf s =
     (if \<not> file_is_open f then string_of_chars (literal s '''') s
      else do {
        (res, s) \<leftarrow> fread fss (file_fd f) buf (word_of_int size_bytes) (word_of_int nmemb) s;
        if res < 0 then string_of_chars (literal s '''') s else string_of_chars buf s })"

definition file_close :: "'a kernel_scheme fs_table \<Rightarrow> lava_file \<Rightarrow> 'a kernel_scheme \<Rightarrow> (lava_file \<times> 'a kernel_scheme) option" where
  "file_close fss f s =
     (if \<not> file_is_open f then Some (f, s)
      else do {
        (_, s) \<leftarrow> fclose fss (file_fd f) s;
        Some (f\<lparr>file_fd := 0\<rparr>, s) })"

definition file_destroy :: "'a kernel_scheme fs_table \<Rightarrow> lava_file \<Rightarrow> 'a kernel_scheme \<Rightarrow> 'a kernel_scheme option" where
  "file_destroy fss f s = do {
     (f, s) \<leftarrow> (if file_is_open f then file_close fss f s else Some (f, s));
     string_destroy (file_name f) s }"

definition vfs_initialize :: "'a kernel_scheme fs_table \<Rightarrow> 'a kernel_scheme \<Rightarrow> 'a kernel_scheme option" where
  "vfs_initialize fss s = do {
     s \<leftarrow> fs_init s;
     disk_init fss s }"

end
