(* ===== verification/Core_System.thy ===== *)
theory Core_System
  imports Core_Runtime
begin

text \<open>
  The C++ core: processes (\<open>core/process.cc\<close>), system calls (\<open>core/syscall.cc\<close>, \<open>core/api.cc\<close>),
  panics (\<open>core/panic.cc\<close>), interrupts (\<open>core/interrupt.cc\<close>), the descriptor table and the order
  in which everything starts (\<open>core/architecture.cc\<close>, \<open>core/kernel.cc\<close>). The singletons are
  fields of the record \<open>core\<close>. Addresses that the linker chooses (handlers, tables, the task state
  segment) are the record \<open>symbols\<close>.
\<close>

section \<open>State\<close>

definition MAXIMUM_NUMBER_OF_SYSCALL_ARGS :: nat where "MAXIMUM_NUMBER_OF_SYSCALL_ARGS = 5"
definition MAXIMUM_NUMBER_OF_SYSCALLS :: int where "MAXIMUM_NUMBER_OF_SYSCALLS = 100"
definition TOTAL_GDT_SEGMENTS :: nat where "TOTAL_GDT_SEGMENTS = 6"

lemmas core_consts = MAXIMUM_NUMBER_OF_SYSCALL_ARGS_def MAXIMUM_NUMBER_OF_SYSCALLS_def TOTAL_GDT_SEGMENTS_def

text \<open>The calls the kernel knows by name.\<close>

datatype syscall_entry = SYS_zero | SYS_exit | SYS_fork | SYS_read | SYS_write | SYS_close | SYS_open

fun syscall_number :: "syscall_entry \<Rightarrow> int" where
  "syscall_number SYS_zero = 0"
| "syscall_number SYS_exit = 1"
| "syscall_number SYS_fork = 2"
| "syscall_number SYS_read = 3"
| "syscall_number SYS_write = 4"
| "syscall_number SYS_close = 6"
| "syscall_number SYS_open = 45"

text \<open>The task state segment, in the order of its 104 bytes.\<close>

record task_state_segment =
  tss_previous_task :: u16
  tss_previous_task_reserved :: u16
  tss_esp0 :: u32
  tss_ss0 :: u16
  tss_ss0_reserved :: u16
  tss_esp1 :: u32
  tss_ss1 :: u16
  tss_ss1_reserved :: u16
  tss_esp2 :: u32
  tss_ss2 :: u16
  tss_ss2_reserved :: u16
  tss_cr3 :: u32
  tss_eip :: u32
  tss_eflags :: u32
  tss_eax :: u32
  tss_ecx :: u32
  tss_edx :: u32
  tss_ebx :: u32
  tss_esp :: u32
  tss_ebp :: u32
  tss_esi :: u32
  tss_edi :: u32
  tss_es :: u16
  tss_es_reserved :: u16
  tss_cs :: u16
  tss_cs_reserved :: u16
  tss_ss :: u16
  tss_ss_reserved :: u16
  tss_ds :: u16
  tss_ds_reserved :: u16
  tss_fs :: u16
  tss_fs_reserved :: u16
  tss_gs :: u16
  tss_gs_reserved :: u16
  tss_ldt_selector :: u16
  tss_ldt_sel_unused :: u16
  tss_debug_flag :: u16
  tss_io_map :: u16

definition zero_tss :: task_state_segment where
  "zero_tss = \<lparr>tss_previous_task = 0, tss_previous_task_reserved = 0, tss_esp0 = 0, tss_ss0 = 0,
     tss_ss0_reserved = 0, tss_esp1 = 0, tss_ss1 = 0, tss_ss1_reserved = 0, tss_esp2 = 0, tss_ss2 = 0,
     tss_ss2_reserved = 0, tss_cr3 = 0, tss_eip = 0, tss_eflags = 0, tss_eax = 0, tss_ecx = 0, tss_edx = 0,
     tss_ebx = 0, tss_esp = 0, tss_ebp = 0, tss_esi = 0, tss_edi = 0, tss_es = 0, tss_es_reserved = 0, tss_cs
     = 0, tss_cs_reserved = 0, tss_ss = 0, tss_ss_reserved = 0, tss_ds = 0, tss_ds_reserved = 0, tss_fs = 0,
     tss_fs_reserved = 0, tss_gs = 0, tss_gs_reserved = 0, tss_ldt_selector = 0, tss_ldt_sel_unused = 0,
     tss_debug_flag = 0, tss_io_map = 0\<rparr>"

text \<open>A handler of \<open>syscalls::_calls\<close> maps the five arguments to the result.\<close>

type_synonym syscall_fn = "u32 list \<Rightarrow> u32"

record core = kernel +
  idt :: interrupt_state
  interrupts_enabled :: bool
  gdt_runtime :: "u8 list list"
  gdt_loaded :: "(u8 list list) option"
  tss :: task_state_segment
  task_register :: u32
  calls :: "syscall_fn option list"
  kvm :: u32
  current_proc_id :: int
  current_proc :: u32

record symbols =
  idt_address :: u32
  no_interrupt_address :: u32
  idt_divide_by_zero_address :: u32
  syscall_wrapper_address :: u32
  tss_address :: u32

section \<open>Panic and interrupts\<close>

text \<open>The message becomes a temporary \<open>lava::string\<close>.\<close>

definition panic :: "u32 \<Rightarrow> 'a machine_scheme \<Rightarrow> 'a machine_scheme option" where
  "panic message s = do {
     (msg, s) \<leftarrow> string_of_chars message s;
     arc_panic (string_data msg) s }"

definition interrupt_initialize :: "symbols \<Rightarrow> 'a core_scheme \<Rightarrow> 'a core_scheme" where
  "interrupt_initialize y s = s\<lparr>idt := init_interrupt_descriptor_table (idt_address y) (no_interrupt_address y)
     (idt_divide_by_zero_address y) (syscall_wrapper_address y) (idt s)\<rparr>"

definition disable_interrupt :: "'a core_scheme \<Rightarrow> 'a core_scheme" where
  "disable_interrupt s = s\<lparr>interrupts_enabled := False\<rparr>"

definition enable_interrupt :: "'a core_scheme \<Rightarrow> 'a core_scheme" where
  "enable_interrupt s = s\<lparr>interrupts_enabled := True\<rparr>"

definition interrupt_disable :: "'a core_scheme \<Rightarrow> 'a core_scheme" where
  "interrupt_disable s = disable_interrupt s"

definition interrupt_enable :: "'a core_scheme \<Rightarrow> 'a core_scheme" where
  "interrupt_enable s = enable_interrupt s"

section \<open>Processes\<close>

definition get_task_state_segment :: "symbols \<Rightarrow> u32" where
  "get_task_state_segment y = tss_address y"

definition save_the_syscall_arguments :: "interrupt_frame \<Rightarrow> 'a core_scheme \<Rightarrow> 'a core_scheme" where
  "save_the_syscall_arguments frame s = s"

definition load_user_page :: "'a kernel_scheme \<Rightarrow> 'a kernel_scheme option" where
  "load_user_page s = do {
     (_, s) \<leftarrow> load_user_task_page s;
     Some s }"

definition load_kernel_page :: "'a kernel_scheme \<Rightarrow> 'a kernel_scheme" where
  "load_kernel_page s = switch_to_kvm (load_kernel_data_segment_registers s)"

definition save_current_task_state :: "interrupt_frame \<Rightarrow> 'a kernel_scheme \<Rightarrow> 'a kernel_scheme option" where
  "save_current_task_state frame s = do {
     let t = get_current_task s;
     s \<leftarrow> (if t = 0 then panic (literal s ''No current task to save.'') s else Some s);
     task_save_state t frame s }"

definition initialize_task_state_segment :: "'a core_scheme \<Rightarrow> 'a core_scheme" where
  "initialize_task_state_segment s =
     (let s = s\<lparr>tss := zero_tss\<rparr>;
          s = s\<lparr>tss := (tss s)\<lparr>tss_esp0 := 0x600000\<rparr>\<rparr>;
          s = s\<lparr>tss := (tss s)\<lparr>tss_ss0 := ucast KERNEL_DATA_SELECTOR\<rparr>\<rparr>
      in s\<lparr>task_register := 0x28\<rparr>)"

definition proc_initialize :: "'a core_scheme \<Rightarrow> 'a core_scheme" where
  "proc_initialize s = initialize_task_state_segment s"

definition load_proc :: "'a core_scheme fs_table \<Rightarrow> u32 \<Rightarrow> 'a core_scheme \<Rightarrow> 'a core_scheme option" where
  "load_proc fss filename s = do {
     (i, p, s) \<leftarrow> load_process fss (string_data filename) s;
     let s = (case p of None \<Rightarrow> s | Some p \<Rightarrow> s\<lparr>current_proc := p\<rparr>);
     let s = s\<lparr>current_proc_id := i\<rparr>;
     if current_proc_id s \<ge> 0
     then do {
       s \<leftarrow> cout_str (literal s ''Load success process: '') s;
       s \<leftarrow> cout_string filename s;
       s \<leftarrow> cout_str (literal s ''with pid: '') s;
       s \<leftarrow> cout_int (current_proc_id s) s;
       Some (endl s) }
     else Some s }"

section \<open>System calls\<close>

definition sys_zero :: syscall_fn where
  "sys_zero args = 0"

text \<open>The array has 100 elements; an index outside it has no meaning.\<close>

definition calls_at :: "int \<Rightarrow> 'a core_scheme \<Rightarrow> syscall_fn option option" where
  "calls_at num s = (if 0 \<le> num \<and> num < MAXIMUM_NUMBER_OF_SYSCALLS then Some (calls s ! nat num) else None)"

definition syscalls_add :: "int \<Rightarrow> syscall_fn \<Rightarrow> 'a core_scheme \<Rightarrow> 'a core_scheme option" where
  "syscalls_add num h s = do {
     s \<leftarrow> (if num < 0 \<or> num > MAXIMUM_NUMBER_OF_SYSCALLS
           then panic (literal s ''The syscall number is out of bounds.'') s else Some s);
     c \<leftarrow> calls_at num s;
     s \<leftarrow> (if c \<noteq> None then panic (literal s ''Handler of the syscall number is existing.'') s else Some s);
     Some (s\<lparr>calls := (calls s)[nat num := Some h]\<rparr>) }"

definition syscalls_call :: "int \<Rightarrow> u32 list \<Rightarrow> 'a core_scheme \<Rightarrow> u32 option" where
  "syscalls_call num args s =
     (if num < 0 \<or> num > MAXIMUM_NUMBER_OF_SYSCALLS then Some 0
      else do {
        c \<leftarrow> calls_at num s;
        case c of Some h \<Rightarrow> Some (h args) | None \<Rightarrow> Some 0 })"

definition syscalls_initialize :: "'a core_scheme \<Rightarrow> 'a core_scheme option" where
  "syscalls_initialize s = syscalls_add (syscall_number SYS_zero) sys_zero s"

definition set_param :: "u32 \<Rightarrow> u32 \<Rightarrow> u32 \<Rightarrow> u32 \<Rightarrow> u32 \<Rightarrow> u32 list" where
  "set_param ret ret1 ret2 ret3 ret4 = [ret, ret1, ret2, ret3, ret4]"

definition get_arg :: "u32 list \<Rightarrow> u32 \<Rightarrow> u32" where
  "get_arg args n = (if unat n < MAXIMUM_NUMBER_OF_SYSCALL_ARGS then args ! unat n else 0)"

text \<open>A 32-bit word at a virtual address, byte by byte.\<close>

definition mmu_load32 :: "u32 \<Rightarrow> memory \<Rightarrow> u32 \<Rightarrow> u32 option" where
  "mmu_load32 directory m v = do {
     a \<leftarrow> mmu_load directory m v;
     b \<leftarrow> mmu_load directory m (v + 1);
     c \<leftarrow> mmu_load directory m (v + 2);
     d \<leftarrow> mmu_load directory m (v + 3);
     Some (ucast a OR push_bit 8 (ucast b) OR push_bit 16 (ucast c) OR push_bit 24 (ucast d)) }"

definition load_args :: "interrupt_frame \<Rightarrow> 'a kernel_scheme \<Rightarrow> (u32 list \<times> 'a kernel_scheme) option" where
  "load_args frame s = do {
     let sp_ptr = frame_esp frame;
     s \<leftarrow> load_user_page s;
     a0 \<leftarrow> mmu_load32 (cr3 (paging s)) (mem s) sp_ptr;
     a1 \<leftarrow> mmu_load32 (cr3 (paging s)) (mem s) (sp_ptr + 4);
     a2 \<leftarrow> mmu_load32 (cr3 (paging s)) (mem s) (sp_ptr + 8);
     a3 \<leftarrow> mmu_load32 (cr3 (paging s)) (mem s) (sp_ptr + 12);
     a4 \<leftarrow> mmu_load32 (cr3 (paging s)) (mem s) (sp_ptr + 16);
     Some (set_param a0 a1 a2 a3 a4, load_kernel_page s) }"

definition syscall_handler :: "int \<Rightarrow> interrupt_frame \<Rightarrow> 'a core_scheme \<Rightarrow> (u32 \<times> 'a core_scheme) option" where
  "syscall_handler num frame s = do {
     let s = load_kernel_page s;
     s \<leftarrow> save_current_task_state frame s;
     (args, s) \<leftarrow> load_args frame s;
     res \<leftarrow> syscalls_call num args s;
     s \<leftarrow> load_user_page s;
     Some (res, s) }"

section \<open>Starting the kernel\<close>

definition structured_gdt :: "symbols \<Rightarrow> structured_segment_descriptor list" where
  "structured_gdt y =
     [\<lparr>seg_base = 0x00, seg_limit = 0x00, seg_type = 0x00\<rparr>,
      \<lparr>seg_base = 0x00, seg_limit = 0xFFFFFFFF, seg_type = 0x9A\<rparr>,
      \<lparr>seg_base = 0x00, seg_limit = 0xFFFFFFFF, seg_type = 0x92\<rparr>,
      \<lparr>seg_base = 0x00, seg_limit = 0xFFFFFFFF, seg_type = 0xf8\<rparr>,
      \<lparr>seg_base = 0x00, seg_limit = 0xFFFFFFFF, seg_type = 0xf2\<rparr>,
      \<lparr>seg_base = tss_address y, seg_limit = 104, seg_type = 0xE9\<rparr>]"

definition gdt_initialize :: "symbols \<Rightarrow> 'a core_scheme \<Rightarrow> 'a core_scheme option" where
  "gdt_initialize y s = do {
     let s = s\<lparr>gdt_runtime := replicate TOTAL_GDT_SEGMENTS (replicate 8 0)\<rparr>;
     g \<leftarrow> extract_structured_gdt (gdt_runtime s) (structured_gdt y);
     let s = s\<lparr>gdt_runtime := g\<rparr>;
     Some (s\<lparr>gdt_loaded := Some (gdt_runtime s)\<rparr>) }"

definition arch_initialize :: "symbols \<Rightarrow> 'a core_scheme fs_table \<Rightarrow> 'a core_scheme \<Rightarrow> 'a core_scheme option" where
  "arch_initialize y fss s = do {
     let s = interrupt_disable s;
     s \<leftarrow> gdt_initialize y s;
     let s = initialize_kernel_heap s;
     s \<leftarrow> vfs_initialize fss s;
     let s = interrupt_initialize y s;
     let s = proc_initialize s;
     let (page, s) = vm_initialize s;
     let s = s\<lparr>kvm := page\<rparr>;
     s \<leftarrow> syscalls_initialize s;
     (name, s) \<leftarrow> string_of_chars (literal s ''/loop.bin'') s;
     s \<leftarrow> load_proc fss name s;
     string_destroy name s }"

definition kernel_main :: "symbols \<Rightarrow> 'a core_scheme fs_table \<Rightarrow> 'a core_scheme \<Rightarrow> 'a core_scheme option" where
  "kernel_main y fss s = do {
     let s = cout_color green s;
     s \<leftarrow> cout_str (literal s ''Welcome to Larva OS.'') s;
     let s = endl s;
     s \<leftarrow> arch_initialize y fss s;
     loop_forever s }"

end
