(* ===== verification/Core_Properties.thy ===== *)
theory Core_Properties
  imports Core_System Task_Properties Descriptor_Properties
begin

text \<open>
  What the C++ core promises: the descriptor table it builds at boot says what its six segments
  say, a \<open>lava::string\<close> owns a fresh copy of its characters, and a system call saves the caller,
  passes it the five words on its stack and returns to its pages.
\<close>

section \<open>The segments of the kernel\<close>

definition decodes :: "u8 list \<Rightarrow> structured_segment_descriptor \<Rightarrow> bool" where
  "decodes d g \<longleftrightarrow> length d = 8 \<and> descriptor_base d = seg_base g \<and> descriptor_limit d = seg_limit g \<and> d ! 5 = seg_type g"

text \<open>A segment that \<open>gdt.c\<close> accepts: its limit fits in 20 bits or ends in twelve ones.\<close>

definition encodable :: "structured_segment_descriptor \<Rightarrow> bool" where
  "encodable g \<longleftrightarrow> seg_limit g \<le> 0x10000 \<or> seg_limit g AND 0xFFF = 0xFFF"

lemma extract_encodable:
  assumes "length dst = 8" and "encodable g"
  shows "\<exists>d. extract_structured_gdt_to_gdt dst g = Some d \<and> decodes d g"
proof -
  obtain d where d: "extract_structured_gdt_to_gdt dst g = Some d"
    using assms(2) by (cases "extract_structured_gdt_to_gdt dst g")
      (auto simp: extract_structured_gdt_to_gdt_def encodable_def Let_def split: if_splits)
  then show ?thesis using gdt_decodes [OF assms(1) d] by (auto simp: decodes_def)
qed

lemma extract_all:
  "length gdt = length gs \<Longrightarrow> (\<forall>d \<in> set gdt. length d = 8) \<Longrightarrow> (\<forall>g \<in> set gs. encodable g) \<Longrightarrow>
   \<exists>ds. extract_structured_gdt gdt gs = Some ds \<and> list_all2 decodes ds gs"
proof (induction gdt gs rule: list_induct2)
  case (Cons d gdt g gs)
  obtain e where "extract_structured_gdt_to_gdt d g = Some e" "decodes e g" using extract_encodable [of d g] Cons.prems by auto
  moreover obtain ds where "extract_structured_gdt gdt gs = Some ds" "list_all2 decodes ds gs" using Cons by auto
  ultimately show ?case by simp
qed simp

lemma gdt_built:
  "\<exists>ds. gdt_initialize y s = Some (s\<lparr>gdt_runtime := ds, gdt_loaded := Some ds\<rparr>) \<and> list_all2 decodes ds (structured_gdt y)"
proof -
  have "\<forall>g \<in> set (structured_gdt y). encodable g" by (simp add: structured_gdt_def encodable_def)
  moreover have "length (replicate TOTAL_GDT_SEGMENTS (replicate 8 (0 :: u8))) = length (structured_gdt y)"
    by (simp add: core_consts structured_gdt_def)
  ultimately obtain ds where "extract_structured_gdt (replicate TOTAL_GDT_SEGMENTS (replicate 8 0)) (structured_gdt y) = Some ds"
    "list_all2 decodes ds (structured_gdt y)"
    using extract_all [of "replicate TOTAL_GDT_SEGMENTS (replicate 8 0)" "structured_gdt y"] by auto
  then show ?thesis by (intro exI [of _ ds]) (simp add: gdt_initialize_def)
qed

text \<open>
  The descriptor table built at boot is loaded, and decoding its six descriptors as the
  processor does gives the six segments of \<open>arch\<close>.
\<close>

lemma boot_segments:
  "\<exists>s' ds. gdt_initialize y s = Some s' \<and> gdt_loaded s' = Some ds \<and> gdt_runtime s' = ds \<and> list_all2 decodes ds (structured_gdt y)"
proof -
  obtain ds where "gdt_initialize y s = Some (s\<lparr>gdt_runtime := ds, gdt_loaded := Some ds\<rparr>)" "list_all2 decodes ds (structured_gdt y)"
    using gdt_built [of y s] by blast
  then show ?thesis by simp
qed

section \<open>System calls\<close>

text \<open>The state of a system call: the task \<open>t\<close> runs, and the words on its stack are the arguments.\<close>

definition caller_ready :: "'a kernel_scheme \<Rightarrow> u32 \<Rightarrow> interrupt_frame \<Rightarrow> u32 list \<Rightarrow> bool" where
  "caller_ready s t frame args \<longleftrightarrow> t = current_task s \<and> t \<noteq> 0 \<and> length args = 5 \<and>
     (\<exists>x. task_at s t = Some x \<and> (\<forall>i < 5. mmu_load32 (load32 (mem s) (page_directory x)) (mem s) (frame_esp frame + 4 * of_nat i) = Some (args ! i)))"

definition saved_registers :: "interrupt_frame \<Rightarrow> registers" where
  "saved_registers f = \<lparr>reg_edi = frame_edi f, reg_esi = frame_esi f, reg_ebp = frame_ebp f, reg_ebx = frame_ebx f,
     reg_edx = frame_edx f, reg_ecx = frame_ecx f, reg_eax = frame_eax f, reg_ip = frame_ip f, reg_cs = frame_cs f,
     reg_flags = frame_flags f, reg_esp = frame_esp f, reg_ss = frame_ss f\<rparr>"

text \<open>A kernel with a handler for call 7 and three tasks; its memory maps every page to a page of ones.\<close>

definition core_of :: "kernel \<Rightarrow> syscall_fn option list \<Rightarrow> core" where
  "core_of k cs = \<lparr>mem = mem k, con = con k, g_kernel_heap = g_kernel_heap k, objs = objs k, io = io k, disk_var = disk_var k,
     disk_address = disk_address k, fat16_fs_address = fat16_fs_address k, tmp_filename = tmp_filename k,
     filesystems = filesystems k, file_descriptors = file_descriptors k, paging = paging k, data_segments = data_segments k,
     current_task = current_task k, tail_task = tail_task k, head_task = head_task k,
     current_process = current_process k, processes = processes k,
     literal = literal k, stat_local = stat_local k,
     idt = \<lparr>idt_descriptors = [], idt_register = \<lparr>idtr_limit = 0, idtr_base = 0\<rparr>, idtr_loaded = None\<rparr>,
     interrupts_enabled = False, gdt_runtime = [], gdt_loaded = None, tss = zero_tss, task_register = 0,
     calls = cs, kvm = 0, current_proc_id = 0, current_proc = 0\<rparr>"

definition core_machine :: core where
  "core_machine = core_of busy_kernel ((replicate 100 None)[7 := Some sum_list])"

definition call_frame :: interrupt_frame where
  "call_frame = \<lparr>frame_edi = 1, frame_esi = 2, frame_ebp = 3, frame_reserved = 0, frame_ebx = 4, frame_edx = 5, frame_ecx = 6,
     frame_eax = 7, frame_ip = 0x400010, frame_cs = 0x1b, frame_flags = 0x202, frame_esp = 0x3FEF00, frame_ss = 0x23\<rparr>"

lemma core_machine_caller: "caller_ready core_machine 0x01001000 call_frame (replicate 5 0x01010101)"
proof -
  have word: "load32 (\<lambda>a. 1) p = 0x01010101" for p :: u32 by (simp add: load32_def)
  have "mmu_load32 d (\<lambda>a. 1) v = Some 0x01010101" for d v
    by (simp add: mmu_load32_def mmu_load_def translate_def word)
  then show ?thesis by (simp add: caller_ready_def core_machine_def core_of_def busy_kernel_def kernel_of_def task_at_def)
qed

lemma all_registers_saved:
  "r\<lparr>reg_ip := frame_ip f, reg_cs := frame_cs f, reg_flags := frame_flags f, reg_esp := frame_esp f, reg_ss := frame_ss f,
     reg_eax := frame_eax f, reg_ebp := frame_ebp f, reg_ebx := frame_ebx f, reg_ecx := frame_ecx f, reg_edi := frame_edi f,
     reg_edx := frame_edx f, reg_esi := frame_esi f\<rparr> = saved_registers f"
  by (cases r) (simp add: saved_registers_def)

lemma load_user_page_task:
  "task_at s (current_task s) = Some x \<Longrightarrow> load_user_page s = Some (s\<lparr>data_segments := USER_DATA_SEGMENT,
     paging := switch_to_page (mem s) (page_directory x) (paging s)\<rparr>)"
  by (cases s) (simp add: load_user_page_def load_user_task_page_def load_user_data_segment_registers_def task_switch_def task_at_def)

text \<open>The steps around the call itself.\<close>

lemma syscall_runs:
  assumes "caller_ready s t frame args"
  shows "\<exists>s' x. syscall_handler num frame s = map_option (\<lambda>r. (r, s')) (syscalls_call num args s) \<and>
    task_at s t = Some x \<and> task_at s' t = Some (x\<lparr>task_registers := saved_registers frame\<rparr>) \<and>
    (\<forall>u. u \<noteq> t \<longrightarrow> objs s' u = objs s u) \<and> mem s' = mem s \<and> current_task s' = t \<and>
    cr3 (paging s') = load32 (mem s) (page_directory x) \<and> data_segments s' = USER_DATA_SEGMENT"
proof -
  obtain x where t: "t = current_task s" "t \<noteq> 0" and x: "task_at s t = Some x" and len: "length args = 5"
    and args: "\<And>i. i < 5 \<Longrightarrow> mmu_load32 (load32 (mem s) (page_directory x)) (mem s) (frame_esp frame + 4 * of_nat i) = Some (args ! i)"
    using assms by (auto simp: caller_ready_def)
  let ?x = "x\<lparr>task_registers := saved_registers frame\<rparr>"
  let ?s1 = "put_task t ?x (load_kernel_page s)"
  have s1: "task_at ?s1 t = Some ?x" "mem ?s1 = mem s" "current_task ?s1 = t" "calls ?s1 = calls s" "\<forall>u. u \<noteq> t \<longrightarrow> objs ?s1 u = objs s u"
    using t(1) by (simp_all add: load_kernel_page_def load_kernel_data_segment_registers_def switch_to_kvm_def put_task_def put_obj_def task_at_def)
  have save: "save_current_task_state frame (load_kernel_page s) = Some ?s1"
    using t x by (simp add: save_current_task_state_def get_current_task_def task_save_state_def all_registers_saved
      load_kernel_page_def load_kernel_data_segment_registers_def switch_to_kvm_def)
  let ?s2 = "?s1\<lparr>data_segments := USER_DATA_SEGMENT, paging := switch_to_page (mem s) (page_directory x) (paging ?s1)\<rparr>"
  have page: "load_user_page ?s1 = Some ?s2" using load_user_page_task [of ?s1 ?x] s1 by simp
  have "[args ! 0, args ! 1, args ! 2, args ! 3, args ! 4] = args"
    using len by (auto simp: numeral_eq_Suc length_Suc_conv)
  then have load: "load_args frame ?s1 = Some (args, load_kernel_page ?s2)"
    using page s1(2) args [of 0] args [of 1] args [of 2] args [of 3] args [of 4]
    by (simp add: load_args_def set_param_def switch_to_page_def)
  let ?s3 = "load_kernel_page ?s2"
  have s3: "task_at ?s3 (current_task ?s3) = Some ?x" "mem ?s3 = mem s" "current_task ?s3 = t" "calls ?s3 = calls s" "objs ?s3 = objs ?s1"
    using s1(1-4) by (simp_all add: load_kernel_page_def load_kernel_data_segment_registers_def switch_to_kvm_def)
  have call: "syscalls_call num args ?s3 = syscalls_call num args s" using s3(4) by (simp add: syscalls_call_def calls_at_def)
  note final = load_user_page_task [OF s3(1)]
  show ?thesis
    using save load call final x s1(5) s3
    by (intro exI [of _ "?s3\<lparr>data_segments := USER_DATA_SEGMENT, paging := switch_to_page (mem ?s3) (page_directory ?x) (paging ?s3)\<rparr>"] exI [of _ x])
      (cases "syscalls_call num args s"; simp add: syscall_handler_def switch_to_page_def task_at_def)
qed

text \<open>
  C14. A system call of a running task saves all its registers, passes the five words on its
  stack to the handler of the number, returns what the handler returns, and ends on the pages
  and segments of the task.
\<close>

lemma syscall_serves_caller:
  assumes "caller_ready s t frame args" and "0 \<le> num" and "num < 100"
  shows "\<exists>s' x. syscall_handler num frame s = Some (case calls s ! nat num of Some h \<Rightarrow> h args | None \<Rightarrow> 0, s') \<and>
    task_at s t = Some x \<and> task_at s' t = Some (x\<lparr>task_registers := saved_registers frame\<rparr>) \<and>
    (\<forall>u. u \<noteq> t \<longrightarrow> objs s' u = objs s u) \<and> mem s' = mem s \<and> current_task s' = t \<and>
    cr3 (paging s') = load32 (mem s) (page_directory x) \<and> data_segments s' = USER_DATA_SEGMENT"
proof -
  have "syscalls_call num args s = Some (case calls s ! nat num of Some h \<Rightarrow> h args | None \<Rightarrow> 0)"
    using assms(2,3) by (simp add: syscalls_call_def calls_at_def core_consts split: option.split)
  then show ?thesis using syscall_runs [OF assms(1), of num] by simp
qed

lemma syscall_serves_caller_witness:
  "\<exists>s' x. syscall_handler 7 call_frame core_machine = Some (0x05050505, s') \<and> task_at s' 0x01001000 = Some x \<and>
     reg_ip (task_registers x) = 0x400010 \<and> data_segments s' = USER_DATA_SEGMENT"
proof -
  have calls: "calls core_machine ! 7 = Some sum_list" by (simp add: core_machine_def core_of_def)
  have "caller_ready core_machine 0x01001000 call_frame (replicate 5 0x01010101)" by (rule core_machine_caller)
  from syscall_serves_caller [OF this, of 7] obtain s' x
    where "syscall_handler 7 call_frame core_machine = Some (sum_list (replicate 5 0x01010101), s')"
      "task_at s' 0x01001000 = Some (x\<lparr>task_registers := saved_registers call_frame\<rparr>)" "data_segments s' = USER_DATA_SEGMENT"
    by (auto simp: calls)
  then show ?thesis by (auto simp: sum_list_replicate saved_registers_def call_frame_def)
qed

text \<open>
  C38. A system call of a running task with the number 100 reads the array of 100 handlers out
  of its bounds, because the number passes the check of \<open>call\<close>; what happens then
  C++ leaves undefined. With a negative number or one above 100 the call returns null to the
  task, with its registers saved, on its pages and segments, and nothing else changed.
\<close>

lemma syscall_number_100:
  assumes "caller_ready s t frame args"
  shows "syscall_handler 100 frame s = None \<and>
    (\<forall>num. num < 0 \<or> 100 < num \<longrightarrow> (\<exists>s' x. syscall_handler num frame s = Some (0, s') \<and>
      task_at s t = Some x \<and> task_at s' t = Some (x\<lparr>task_registers := saved_registers frame\<rparr>) \<and>
      (\<forall>u. u \<noteq> t \<longrightarrow> objs s' u = objs s u) \<and> mem s' = mem s \<and> current_task s' = t \<and>
      cr3 (paging s') = load32 (mem s) (page_directory x) \<and> data_segments s' = USER_DATA_SEGMENT))"
proof (intro conjI allI impI)
  have "syscalls_call 100 args s = None" by (simp add: syscalls_call_def calls_at_def core_consts)
  then show "syscall_handler 100 frame s = None" using syscall_runs [OF assms, of 100] by auto
next
  fix num :: int assume "num < 0 \<or> 100 < num"
  then have "syscalls_call num args s = Some 0" by (auto simp: syscalls_call_def core_consts)
  then show "\<exists>s' x. syscall_handler num frame s = Some (0, s') \<and>
      task_at s t = Some x \<and> task_at s' t = Some (x\<lparr>task_registers := saved_registers frame\<rparr>) \<and>
      (\<forall>u. u \<noteq> t \<longrightarrow> objs s' u = objs s u) \<and> mem s' = mem s \<and> current_task s' = t \<and>
      cr3 (paging s') = load32 (mem s) (page_directory x) \<and> data_segments s' = USER_DATA_SEGMENT"
    using syscall_runs [OF assms, of num] by simp
qed

lemma syscall_number_100_witness:
  "syscall_handler 100 call_frame core_machine = None \<and> (\<exists>s'. syscall_handler 101 call_frame core_machine = Some (0, s'))"
proof -
  have "caller_ready core_machine 0x01001000 call_frame (replicate 5 0x01010101)" by (rule core_machine_caller)
  from syscall_number_100 [OF this] show ?thesis by (auto dest: spec [of _ 101])
qed

section \<open>Strings\<close>

lemma string_made:
  assumes mok: "machine_ok s" and val: "kept_str s val cs" "val \<noteq> 0" and room: "0 < kroom s"
  shows "\<exists>str s'. string_of_chars val s = Some (str, s') \<and> str \<noteq> 0 \<and> grows s s' \<and> kroom s = kroom s' + 1 \<and>
    klive s str = None \<and> klive s' = (klive s)(str \<mapsto> 1) \<and> objs s' = objs s \<and> machine.more s' = machine.more s \<and>
    str_at (mem s') str cs \<and> str_at (mem s') val cs \<and> addrs str 4096 \<subseteq> kvacant s \<and>
    heap_shape (g_kernel_heap s') = heap_shape (g_kernel_heap s)"
proof -
  have src: "str_at (mem s) val cs" "length cs < 4096" "addrs val (Suc (length cs)) \<inter> kvacant s = {}"
    using val(1) by (simp_all add: kept_str_def)
  have ok: "kheap_ok s" by (rule machine_okD [OF mok])
  let ?n = "of_nat (length cs) :: u32"
  have un: "unat (?n + 1) = Suc (length cs)" using unat_of_nat_u32 [of "Suc (length cs)"] src(2) by (simp add: add.commute)
  have size: "0 < ?n + 1" "?n + 1 \<le> 4096"
    using un src(2) by (simp_all only: word_less_nat_alt word_le_nat_alt) simp_all
  obtain str s1 where a: "kmalloc s (?n + 1) = (str, s1)" by fastforce
  have str: "str \<noteq> 0" using kmalloc_one [OF ok size room] a by simp
  have one: "blocks_for (?n + 1) = 1" by (rule blocks_for_one [OF size])
  have live: "kheap_ok s1" "klive s str = None" "klive s1 = (klive s)(str \<mapsto> 1)" "kroom s = kroom s1 + 1"
    using kmalloc_some [OF ok a str] kmalloc_room [OF ok a str] one by simp_all
  have same: "mem s1 = mem s" "objs s1 = objs s" "machine.more s1 = machine.more s" using a by (auto elim!: kmallocE)
  have vac: "addrs str 4096 \<subseteq> kvacant s" "kvacant s1 \<subseteq> kvacant s" using kmalloc_vacant [OF ok a str] one by auto
  have "addrs str (Suc (length cs)) \<subseteq> addrs str 4096" using src(2) by (intro addrs_mono) simp
  then have inside: "addrs str (Suc (length cs)) \<subseteq> kvacant s" using vac(1) by blast
  then have apart: "addrs str (Suc (length cs)) \<inter> addrs val (Suc (length cs)) = {}" using src(3) by blast
  obtain m where m: "strcpy str val (mem s) = Some m" "str_at m str cs" "\<forall>a. a \<notin> addrs str (Suc (length cs)) \<longrightarrow> m a = mem s a"
    using strcpy_str [OF src(1) _ apart] src(2) by auto
  have val': "str_at m val cs"
    using src(1,2) m(3) apart by (intro iffD1 [OF str_at_frame [of cs val "mem s" m]]) auto
  have "m(str + ?n := 0) = m" using str_at_end [OF m(2)] by auto
  then have run: "string_of_chars val s = Some (str, s1\<lparr>mem := m\<rparr>)"
    using val(2) a m(1) strlen_str [OF src(1)] strlen_str [OF val'] same(1)
    by (simp add: string_of_chars_def string_copy_def operator_new_array_def operator_new_def)
  have "machine_ok (s1\<lparr>mem := m\<rparr>)" using mok live same(2) by (auto simp: machine_ok_def)
  then have "grows s (s1\<lparr>mem := m\<rparr>)" using live(2,3) vac(2) m(3) inside by (auto simp: grows_def)
  then show ?thesis
    using run str live(2-4) same(2,3) m(2) val' vac(1) kmalloc_shape [OF a]
    by (intro exI [of _ str] exI [of _ "s1\<lparr>mem := m\<rparr>"]) simp
qed

lemma string_freed:
  assumes "machine_ok s" and "klive s str = Some 1"
  obtains s' where "string_destroy str s = Some s'" "machine_ok s'" "klive s' = (klive s)(str := None)" "mem s' = mem s"
    "objs s' = (objs s)(str := None)" "machine.more s' = machine.more s"
proof -
  obtain s' where s': "kfree s str = Some s'" "machine_ok s'" "klive s' = (klive s)(str := None)"
    "objs s' = (objs s)(str := None)" "machine.more s' = machine.more s"
    using kfree_one [OF assms] .
  have "str \<noteq> 0" using klive_block [OF machine_okD [OF assms(1)] assms(2)] by blast
  then have "string_destroy str s = Some s'"
    using s'(1) by (simp add: string_destroy_def delete_array_def operator_delete_array_def operator_delete_def)
  then show thesis using that s' kfree_mem [OF s'(1)] by blast
qed

text \<open>
  C25. A \<open>lava::string\<close> made from a C string holds a copy of it in a fresh block,
  and destroying it frees exactly that block.
\<close>

lemma string_owns_copy:
  assumes "machine_ok s" and "kept_str s val cs" and "val \<noteq> 0" and "0 < kroom s"
  shows "\<exists>str s' s''. string_of_chars val s = Some (str, s') \<and> str_at (mem s') str cs \<and> str_at (mem s') val cs \<and>
    klive s str = None \<and> klive s' = (klive s)(str \<mapsto> 1) \<and> string_destroy str s' = Some s'' \<and> machine_ok s'' \<and> klive s'' = klive s"
proof -
  obtain str s1 where 1: "string_of_chars val s = Some (str, s1)" "grows s s1" "klive s str = None" "klive s1 = (klive s)(str \<mapsto> 1)"
    "str_at (mem s1) str cs" "str_at (mem s1) val cs"
    using string_made [OF assms] by blast
  have "klive s1 str = Some 1" by (simp add: 1(4))
  then obtain s2 where 2: "string_destroy str s1 = Some s2" "machine_ok s2" "klive s2 = (klive s1)(str := None)"
    using string_freed [OF growsD(1) [OF 1(2)]] by metis
  have "klive s2 = klive s" using 2(3) 1(3,4) by auto
  then show ?thesis using 1 2 by blast
qed

lemma string_owns_copy_witness:
  "\<exists>str s'. string_of_chars 0x01006000 fat_machine = Some (str, s') \<and> str_at (mem s') str hello_name"
proof -
  have "kept_str fat_machine 0x01006000 hello_name"
    using hello_facts(1) by (auto simp: lookup_ok_def kept_str_def)
  from string_owns_copy [OF fat_machine_ok(1) this] show ?thesis using fat_machine_ok(2) by auto
qed

end
