(* ===== verification/Kernel_Start.thy ===== *)
theory Kernel_Start
  imports Core_Properties Program_Load Fat16_Mount
begin

text \<open>
  Starting the kernel, first part: what \<open>arch_initialize\<close> has set up when it comes to the first
  process. The fresh heap, the mounted disk and the empty tables, the segments and gates, the
  kernel's own address space and the system calls; \<open>power_on\<close> says what it needs of the machine.
\<close>

section \<open>The fresh heap\<close>

definition heap_range :: "u32 set" where
  "heap_range = {a. 0x01000000 \<le> unat a \<and> unat a < 0x07400000}"

lemma fresh_heap:
  "kvacant (kheap_init s) = heap_range" "heap_blocks (g_kernel_heap (kheap_init s)) = 25600"
  "mem (kheap_init s) = mem s" "objs (kheap_init s) = objs s" "machine.more (kheap_init s) = machine.more s"
proof -
  let ?hp = "g_kernel_heap (kheap_init s)"
  have hp: "start_address ?hp = 0x01000000" "table_total (table ?hp) = 25600"
    "\<And>i. 0 \<le> i \<Longrightarrow> i < 25600 \<Longrightarrow> entries (table ?hp) i = 0"
    by (simp_all add: kheap_init_def KERNEL_HEAP_SIZE_BYTES_def KERNEL_HEAP_START_ADDRESS_def heap_consts
      heap_create_def heap_validate_alignment_def heap_validate_table_def Let_def)
  show blocks: "heap_blocks ?hp = 25600" by (simp add: heap_blocks_def hp(2))
  have "a \<in> kvacant (kheap_init s) \<longleftrightarrow> a \<in> heap_range" for a
  proof -
    define x where "x = int (unat a) - 0x01000000"
    have b: "block_of ?hp a = x div 4096" by (simp add: block_of_def hp(1) x_def)
    have "a \<in> kvacant (kheap_init s) \<longleftrightarrow> 0 \<le> x div 4096 \<and> x div 4096 < 25600"
      using hp(3) [of "x div 4096"] by (auto simp: kvacant_def vacant_def blocks b)
    also have "\<dots> \<longleftrightarrow> 0 \<le> x \<and> x < 25600 * 4096"
      using mult_div_mod_eq [of 4096 x] pos_mod_bound [of 4096 x] pos_mod_sign [of 4096 x] by linarith
    also have "\<dots> \<longleftrightarrow> a \<in> heap_range" unfolding x_def heap_range_def mem_Collect_eq by linarith
    finally show ?thesis .
  qed
  then show "kvacant (kheap_init s) = heap_range" by blast
  show "mem (kheap_init s) = mem s" "objs (kheap_init s) = objs s" "machine.more (kheap_init s) = machine.more s"
    by (simp_all add: kheap_init_def klog_def Let_def split: prod.split)
qed

section \<open>The disk is mounted\<close>

lemma core_fields:
  "fs_machine.more s' = fs_machine.more s \<Longrightarrow> kernel.more s' = kernel.more s \<and> paging s' = paging s"
  for s s' :: "'a kernel_scheme"
  by (cases s; cases s') simp

abbreviation fat16_label :: "u8 list" where
  "fat16_label \<equiv> [0x46, 0x41, 0x54, 0x31, 0x36]"

lemma first_slot: "(replicate 12 0)[0 := a] = a # replicate 11 (0 :: u32)"
  by (simp add: numeral_eq_Suc)

lemma fs_init_runs:
  fixes s :: "'a fs_machine_scheme"
  assumes a: "a = fat16_fs_address s"
  shows "\<exists>co. fs_init s = Some (s\<lparr>mem := write_bytes a (fat16_label @ [0]) (mem s), con := co,
      file_descriptors := replicate 512 0, filesystems := a # replicate 11 0\<rparr>)"
    and "str_at (write_bytes a (fat16_label @ [0]) m) a fat16_label"
proof -
  show str: "str_at (write_bytes a (fat16_label @ [0]) m) a fat16_label" for m
    by (rule str_at_write_bytes) simp_all
  let ?s0 = "s\<lparr>file_descriptors := replicate MAX_FILE_DESCRIPTORS 0, filesystems := replicate MAX_FILESYSTEMS 0\<rparr>"
  define s1 where "s1 = ?s0\<lparr>mem := write_bytes a (fat16_label @ [0]) (mem s), con := print_lit ''Initializing FAT16 filesystem...\<newline>'' (con s)\<rparr>"
  have label: "str_at (mem (s1\<lparr>con := c, filesystems := f\<rparr>)) a fat16_label" for c f using str by (simp add: s1_def)
  obtain c1 where c1: "klog_at a (klog ''Inserting filesystem: '' s1) = Some (s1\<lparr>con := c1\<rparr>)"
    using klog_at_returns [of "klog ''Inserting filesystem: '' s1" a fat16_label] str by (auto simp: s1_def klog_def)
  let ?s2 = "klog ''.\<newline>'' (s1\<lparr>con := c1\<rparr>)"
  have free: "fs_get_free_filesystem ?s2 = Some 0"
    by (simp add: fs_get_free_filesystem_def s1_def klog_def MAX_FILESYSTEMS_def upt_rec [of 0])
  let ?s3 = "klog ''Inserting filesystem: '' (?s2\<lparr>filesystems := (filesystems ?s2)[0 := a]\<rparr>)"
  obtain c3 where c3: "klog_at a ?s3 = Some (?s3\<lparr>con := c3\<rparr>)"
    using klog_at_returns [of ?s3 a fat16_label] str by (auto simp: s1_def klog_def)
  have "fat16_init ?s0 = (a, s1)" using a by (simp add: fat16_init_def s1_def klog_def)
  then have "fs_init s = Some (klog '' successfully.\<newline>'' (?s3\<lparr>con := c3\<rparr>))"
    using c1 free c3 by (simp add: fs_init_def fs_load_def fs_static_load_def fs_insert_filesystem_def Let_def)
  then show "\<exists>co. fs_init s = Some (s\<lparr>mem := write_bytes a (fat16_label @ [0]) (mem s), con := co,
      file_descriptors := replicate 512 0, filesystems := a # replicate 11 0\<rparr>)"
    by (intro exI [of _ "con (klog '' successfully.\<newline>'' (?s3\<lparr>con := c3\<rparr>))"])
      (simp add: s1_def klog_def MAX_FILESYSTEMS_def MAX_FILE_DESCRIPTORS_def first_slot)
qed

text \<open>The state of the \<open>struct disk\<close> before it is mounted.\<close>

abbreviation new_disk :: disk where
  "new_disk \<equiv> \<lparr>disk_type = PHYSICAL_HARD_DISK_TYPE, sector_size = DISK_SECTOR_SIZE, disk_id = 0, disk_fs = 0, fs_private_data = 0\<rparr>"

lemma vfs_mounts:
  fixes s :: "'a kernel_scheme"
  assumes dev: "ata_ok dev img" and disk: "fat16_disk img k" and ok: "machine_ok s" and d: "disk_address s \<noteq> 0"
    and a: "a = fat16_fs_address s" "a \<noteq> 0" "addrs a 6 \<inter> kvacant s = {}" and room: "6 \<le> kroom s"
  shows "\<exists>P dir pr s'. vfs_initialize (kernel_filesystems dev a) s = Some s' \<and> machine_ok s' \<and>
    disk_private s' (disk_address s) = Some (P, pr) \<and> root_dir pr = mounted_root img k dir \<and> stream_on s' (cluster_read_stream pr) \<and>
    bytes_at (mem s') P 62 = disk_bytes img 0 62 \<and>
    bytes_at (mem s') dir (32 * root_entries img) = disk_bytes img (512 * root_sector img) (32 * root_entries img) \<and>
    disk_var s' = new_disk\<lparr>fs_private_data := P, disk_fs := a\<rparr> \<and> disk_address s' = disk_address s \<and>
    fat16_fs_address s' = a \<and> tmp_filename s' = tmp_filename s \<and> file_descriptors s' = replicate 512 0 \<and>
    fs_machine.more s' = fs_machine.more s \<and> str_at (mem s') a fat16_label \<and>
    klive s' P = Some 1 \<and> klive s' dir = Some 1 \<and> P \<noteq> dir \<and> addrs P 4096 \<subseteq> kvacant s \<and> addrs dir 4096 \<subseteq> kvacant s \<and>
    kroom s = kroom s' + 5 \<and> kvacant s' \<subseteq> kvacant s \<and> (\<forall>x. x \<notin> kvacant s \<union> addrs a 6 \<longrightarrow> mem s' x = mem s x) \<and>
    heap_shape (g_kernel_heap s') = heap_shape (g_kernel_heap s)"
proof -
  obtain co where init: "fs_init s = Some (s\<lparr>mem := write_bytes a (fat16_label @ [0]) (mem s), con := co,
      file_descriptors := replicate 512 0, filesystems := a # replicate 11 0\<rparr>)" (is "_ = Some ?s1")
    using fs_init_runs(1) [OF a(1)] by blast
  define s1 where "s1 = ?s1"
  define s2 where "s2 = klog ''Initializing disk...\<newline>'' s1\<lparr>disk_var := new_disk\<rparr>"
  have s2: "machine_ok s2" "disk_address s2 = disk_address s" "fat16_fs_address s2 = a" "tmp_filename s2 = tmp_filename s"
    "disk_var s2 = new_disk" "kroom s2 = kroom s" "kvacant s2 = kvacant s" "klive s2 = klive s" "g_kernel_heap s2 = g_kernel_heap s"
    "mem s2 = write_bytes a (fat16_label @ [0]) (mem s)" "filesystems s2 = a # replicate 11 0" "file_descriptors s2 = replicate 512 0"
    "fs_machine.more s2 = fs_machine.more s"
    using ok a(1) by (simp_all add: s2_def s1_def klog_def machine_ok_def kheap_defs)
  obtain P dir pr s3 where 3: "fat16_resolve dev (disk_address s) s2 = Some (0, s3)" "machine_ok s3"
    "disk_private s3 (disk_address s) = Some (P, pr)" "root_dir pr = mounted_root img k dir" "stream_on s3 (cluster_read_stream pr)"
    "stream_on s3 (fat_read_stream pr)" "stream_on s3 (directory_stream pr)" "bytes_at (mem s3) P 62 = disk_bytes img 0 62"
    "bytes_at (mem s3) dir (32 * root_entries img) = disk_bytes img (512 * root_sector img) (32 * root_entries img)"
    "disk_var s3 = (disk_var s2)\<lparr>fs_private_data := P, disk_fs := fat16_fs_address s2\<rparr>" "disk_address s3 = disk_address s"
    "klive s2 P = None" "klive s3 P = Some 1" "klive s2 dir = None" "klive s3 dir = Some 1"
    "P \<noteq> dir" "addrs P 4096 \<subseteq> kvacant s2" "addrs dir 4096 \<subseteq> kvacant s2" "kroom s2 = kroom s3 + 5" "kvacant s3 \<subseteq> kvacant s2"
    "\<forall>x. x \<notin> kvacant s2 \<longrightarrow> mem s3 x = mem s2 x" "\<forall>r. klive s2 r \<noteq> None \<longrightarrow> klive s3 r = klive s2 r \<and> objs s3 r = objs s2 r"
  proof -
    have "disk_address s = disk_address s2" "disk_id (disk_var s2) = 0" "sector_size (disk_var s2) = 512" "6 \<le> kroom s2"
      using s2(2,5,6) room by (simp_all add: DISK_SECTOR_SIZE_def)
    from resolve_mounts [OF dev disk s2(1) this(1) d this(2-)] show thesis by (elim exE conjE) (rule that)
  qed
  have same: "same_vfs s2 s3" "same_shape s2 s3" by (rule outside.fat16_resolve_frame [OF 3(1)], rule shape.fat16_resolve_frame [OF 3(1)])
  have label: "str_at (mem s3) a fat16_label"
  proof -
    have "Suc (length fat16_label) = 6" by simp
    then have "addrs a (Suc (length fat16_label)) \<inter> kvacant s = {}" using a(3) by (simp only:)
    then have "str_at (mem s3) a fat16_label \<longleftrightarrow> str_at (mem s2) a fat16_label"
      using 3(21) s2(7) by (intro str_at_frame) auto
    then show ?thesis using fs_init_runs(2) [OF a(1)] by (simp add: s2(10))
  qed
  then obtain c where c: "klog_at a (klog ''The disk is resolved with filesystem: '' s3) = Some (s3\<lparr>con := c\<rparr>)"
    using klog_at_returns [of "klog ''The disk is resolved with filesystem: '' s3" a fat16_label] by (auto simp: klog_def)
  let ?s4 = "klog ''.\<newline>'' (s3\<lparr>con := c\<rparr>)"
  have "fs_resolve (kernel_filesystems dev a) (disk_address s) s2 = Some (a, ?s4)"
    using a(2) 3(1) c by (simp add: fs_resolve_def s2(11) kernel_filesystems_def fat16_ops_def Let_def)
  then have "vfs_initialize (kernel_filesystems dev a) s = Some (?s4\<lparr>disk_var := (disk_var ?s4)\<lparr>disk_fs := a\<rparr>\<rparr>)" (is "_ = Some ?s5")
    using init by (simp add: vfs_initialize_def disk_init_def s2_def s1_def klog_def)
  moreover have dv: "(disk_var ?s4)\<lparr>disk_fs := a\<rparr> = new_disk\<lparr>fs_private_data := P, disk_fs := a\<rparr>"
    by (simp add: klog_def 3(10) s2(5))
  moreover have "?s5 = s3\<lparr>con := con ?s4\<rparr>" using 3(10) s2(3) by (simp add: klog_def)
  ultimately have run: "vfs_initialize (kernel_filesystems dev a) s = Some (s3\<lparr>con := con ?s4\<rparr>)" by simp
  have "mem s3 x = mem s x" if "x \<notin> kvacant s \<union> addrs a 6" for x
  proof -
    have "length (fat16_label @ [0 :: u8]) = 6" by simp
    then have "x \<notin> addrs a (length (fat16_label @ [0 :: u8]))" using that by (simp only:) simp
    then have "mem s2 x = mem s x" unfolding s2(10) by (rule write_bytes_outside)
    then show ?thesis using that 3(21) s2(7) by simp
  qed
  moreover have "disk_private (s3\<lparr>con := c\<rparr>) (disk_address s) = Some (P, pr)" "machine_ok (s3\<lparr>con := c\<rparr>)"
    "stream_on (s3\<lparr>con := c\<rparr>) (cluster_read_stream pr)" for c
    using 3(2,3,5,11) by (simp_all add: disk_private_def disk_at_def private_at_def machine_ok_def stream_on_def)
  moreover have "disk_var (s3\<lparr>con := c\<rparr>) = new_disk\<lparr>fs_private_data := P, disk_fs := a\<rparr>" for c using 3(10) s2(3,5) by simp
  moreover have "fat16_fs_address (s3\<lparr>con := c\<rparr>) = a" "tmp_filename (s3\<lparr>con := c\<rparr>) = tmp_filename s"
    "file_descriptors (s3\<lparr>con := c\<rparr>) = replicate 512 0" "fs_machine.more (s3\<lparr>con := c\<rparr>) = fs_machine.more s"
    "heap_shape (g_kernel_heap (s3\<lparr>con := c\<rparr>)) = heap_shape (g_kernel_heap s)" for c
    using same s2(3,4,9,12,13) same_vfs_kernel_part [OF same(1)] same_vfs_keeps [OF same(1)]
    by (simp_all add: same_vfs_def same_shape_def keeps_tables_def)
  moreover have "kroom s = kroom (s3\<lparr>con := c\<rparr>) + 5" "kvacant (s3\<lparr>con := c\<rparr>) \<subseteq> kvacant s" "addrs P 4096 \<subseteq> kvacant s"
    "addrs dir 4096 \<subseteq> kvacant s" for c using 3(17-20) s2(6,7) by simp_all
  ultimately show ?thesis
    using run 3(4,8,9,11,13,15,16) label
    by - (rule exI [of _ P], rule exI [of _ dir], rule exI [of _ pr], rule exI [of _ "s3\<lparr>con := con ?s4\<rparr>"], simp)
qed

section \<open>The kernel's address space\<close>

lemma make_tables_shape:
  "fold (make_page_table d f) js (o1, s) = (o2, s') \<Longrightarrow> heap_shape (g_kernel_heap s') = heap_shape (g_kernel_heap s)"
proof (induction js arbitrary: o1 s)
  case (Cons i js)
  obtain e s1 where 1: "kzalloc s (4 * PAGING_TOTAL_ENTRIES_PER_TABLE) = (e, s1)" by fastforce
  obtain o3 s2 where 2: "make_page_table d f i (o1, s) = (o3, s2)" by fastforce
  then have "g_kernel_heap s2 = g_kernel_heap s1" using 1 by (auto simp: make_page_table_def)
  moreover have "heap_shape (g_kernel_heap s') = heap_shape (g_kernel_heap s2)"
    by (rule Cons.IH [of o3]) (use Cons.prems 2 in simp)
  ultimately show ?case using kzalloc_shape [OF 1] by simp
qed simp

lemma make_space_shape:
  assumes "make_new_4GB_virtual_memory_address_space s f = (p, s')"
  shows "heap_shape (g_kernel_heap s') = heap_shape (g_kernel_heap s)"
proof -
  obtain d s1 where 1: "kzalloc s (4 * PAGING_TOTAL_ENTRIES_PER_TABLE) = (d, s1)" by fastforce
  obtain off s2 where 2: "fold (make_page_table d f) [0..<1024] (0, s1) = (off, s2)" by fastforce
  obtain s3 where 3: "kzalloc s2 4 = (p, s3)" "s' = s3\<lparr>mem := store32 p d (mem s3)\<rparr>"
    using assms 1 2 by (auto simp: make_new_4GB_virtual_memory_address_space_def split: prod.splits)
  show ?thesis using kzalloc_shape [OF 1] make_tables_shape [OF 2] kzalloc_shape [OF 3(1)] 3(2) by simp
qed

lemma new_space_translate:
  assumes new: "new_space s f page s'" and present: "bit f 0"
  shows "translate (mem s') (space_dir (mem s') page) v = Some v"
proof -
  have bit: "bit (t OR ucast f OR w) 0" for t w :: u32 using present by (simp add: bit_simps)
  have "space_present (mem s') page" using new bit by (simp add: new_space_def space_present_def)
  moreover have "paging_get_entry_of_address (mem s') page (page_of v) = page_of v OR ucast f"
    using new page_of_facts(1) [of v] by (simp add: new_space_def)
  moreover have "(page_of v OR ucast f) AND 0xFFFFF000 = page_of v" "bit (page_of v OR ucast f) 0"
    using table_of_entry [OF page_of_facts(1) [of v], of f 0] bit [of "page_of v" 0] by simp_all
  ultimately show ?thesis using translate_entry [of "mem s'" page v] page_of_facts(4) [of v] by simp
qed

lemma new_space_grows:
  assumes ok: "machine_ok s" and new: "new_space s f page s'"
  shows "grows s s'"
proof -
  have live: "klive s' = (\<lambda>p. if p \<in> set (space_blocks (mem s') page) then Some 1 else klive s p)" and objs: "objs s' = objs s"
    and heap: "kheap_ok s'" "kvacant s' \<subseteq> kvacant s" using new by (simp_all add: new_space_def)
  have fresh: "\<forall>p \<in> set (space_blocks (mem s') page). klive s p = None \<and> addrs p 4096 \<subseteq> kvacant s"
    and mem: "\<forall>a. (\<forall>p \<in> set (space_blocks (mem s') page). a \<notin> addrs p 4096) \<longrightarrow> mem s' a = mem s a"
    using new by (simp_all add: new_space_def)
  have "machine_ok s'" using ok heap(1) by (auto simp: machine_ok_def live objs)
  moreover have "klive s' p = Some k" if "klive s p = Some k" for p k using that fresh by (auto simp: live)
  moreover have "mem s' a = mem s a" if "a \<notin> kvacant s" for a using that mem fresh by blast
  ultimately show ?thesis using heap(2) by (simp add: grows_def)
qed

lemma kernel_space:
  fixes s :: "'a kernel_scheme"
  assumes ok: "machine_ok s" and room: "1026 \<le> kroom s" and first: "kernel_directory (paging s) = 0"
  shows "\<exists>page m h. vm_initialize s = (page, s\<lparr>mem := m, g_kernel_heap := h,
      paging := \<lparr>kernel_directory = page, current_directory = space_dir m page, cr3 = space_dir m page\<rparr>\<rparr>) \<and>
    grows s (s\<lparr>mem := m, g_kernel_heap := h\<rparr>) \<and> kroom s = free_room h + 1026 \<and> heap_shape h = heap_shape (g_kernel_heap s) \<and>
    (\<forall>q \<in> set (space_blocks m page). addrs q 4096 \<subseteq> kvacant s \<and> live h q = Some 1) \<and> (\<forall>v. translate m (space_dir m page) v = Some v)"
proof -
  let ?f = "PAGING_IS_WRITEABLE OR PAGING_IS_PRESENT OR PAGING_ACCESS_FROM_ALL"
  obtain page s1 where make: "make_new_4GB_virtual_memory_address_space s ?f = (page, s1)" by fastforce
  have new: "new_space s ?f page s1" by (rule make_new_space [OF machine_okD [OF ok] room make])
  let ?m = "mem s1" and ?h = "g_kernel_heap s1"
  have "machine.more s1 = machine.more s" "con s1 = con s" "objs s1 = objs s" using new by (simp_all add: new_space_def)
  then have s1: "s1 = s\<lparr>mem := ?m, g_kernel_heap := ?h\<rparr>" by (cases s; cases s1) simp
  have "paging s1 = paging s" using more_kernel [of s1 s] new by (simp add: new_space_def)
  then have "vm_initialize s = (page, s1\<lparr>paging := \<lparr>kernel_directory = page, current_directory = load32 ?m page, cr3 = load32 ?m page\<rparr>\<rparr>)"
    using make first by (simp add: vm_initialize_def switch_to_kvm_def switch_to_kernel_page_def switch_to_page_def paging_install_kernel_page_def)
  moreover have "bit ?f 0" by (simp add: bit_simps paging_consts)
  moreover have "\<forall>q \<in> set (space_blocks ?m page). addrs q 4096 \<subseteq> kvacant s \<and> live ?h q = Some 1" "kroom s = free_room ?h + 1026"
    using new by (simp_all add: new_space_def space_ok_def kheap_defs)
  ultimately show ?thesis
    using new_space_grows [OF ok new] make_space_shape [OF make] new_space_translate [OF new] s1
    by (intro exI [of _ page] exI [of _ ?m] exI [of _ ?h]) (simp add: space_dir_def)
qed

section \<open>From power on to the first process\<close>

lemma core_part:
  "kernel.more s' = kernel.more s \<Longrightarrow> idt s' = idt s \<and> interrupts_enabled s' = interrupts_enabled s \<and>
     gdt_runtime s' = gdt_runtime s \<and> gdt_loaded s' = gdt_loaded s \<and> tss s' = tss s \<and> task_register s' = task_register s \<and>
     calls s' = calls s \<and> kvm s' = kvm s"
  for s s' :: "'a core_scheme"
  by (cases s; cases s') simp

lemma kept_str_kept: "kept_str s p cs \<Longrightarrow> grows s s' \<Longrightarrow> kept_str s' p cs"
  using kept_str_grows [of s p cs s'] growsD(3) [of s s' "addrs p (Suc (length cs))"] by (simp add: kept_str_def)

abbreviation chars :: "string \<Rightarrow> u8 list" where
  "chars l \<equiv> map of_char l"

text \<open>
  The machine before \<open>arch_initialize\<close>: static storage is zero, no object exists, and the static
  objects and the literals lie outside the heap; the literals also outside the buffers of the file
  system and the name of the FAT16 driver.
\<close>

definition boot_literals :: "string set" where
  "boot_literals = {''r'', ''/loop.bin'', ''Load success process: '', ''with pid: ''}"

definition power_on :: "'a core_scheme \<Rightarrow> bool" where
  "power_on s \<longleftrightarrow> objs s = (\<lambda>p. None) \<and> head_task s = 0 \<and> tail_task s = 0 \<and> current_task s = 0 \<and> processes s = replicate 20 0 \<and>
     calls s = replicate 100 None \<and> kernel_directory (paging s) = 0 \<and> disk_address s \<noteq> 0 \<and> fat16_fs_address s \<noteq> 0 \<and>
     tmp_range s \<inter> heap_range = {} \<and> addrs (stat_local s) 32 \<inter> heap_range = {} \<and> addrs (fat16_fs_address s) 6 \<inter> heap_range = {} \<and>
     (\<forall>l \<in> boot_literals. literal s l \<noteq> 0 \<and> str_at (mem s) (literal s l) (chars l) \<and>
        addrs (literal s l) (Suc (length l)) \<inter> (heap_range \<union> tmp_range s \<union> addrs (stat_local s) 32 \<union> addrs (fat16_fs_address s) 6) = {})"

text \<open>The disk that the kernel works on, mounted by the driver at address \<open>a\<close>.\<close>

definition mounted_disk :: "(nat \<Rightarrow> u8 list) \<Rightarrow> nat \<Rightarrow> u32 \<Rightarrow> 'a core_scheme \<Rightarrow> bool" where
  "mounted_disk img k a s' \<longleftrightarrow>
     (\<exists>P dir pr. disk_private s' (disk_address s') = Some (P, pr) \<and> root_dir pr = mounted_root img k dir \<and> stream_on s' (cluster_read_stream pr) \<and>
        bytes_at (mem s') P 62 = disk_bytes img 0 62 \<and>
        bytes_at (mem s') dir (32 * root_entries img) = disk_bytes img (512 * root_sector img) (32 * root_entries img) \<and>
        disk_var s' = new_disk\<lparr>fs_private_data := P, disk_fs := a\<rparr> \<and> klive s' P = Some 1 \<and> klive s' dir = Some 1 \<and>
        addrs P 4096 \<subseteq> heap_range \<and> addrs dir 4096 \<subseteq> heap_range)"

text \<open>
  The parts of the kernel that \<open>arch_initialize\<close> has set up by the time it makes the address space of
  the kernel: the mounted disk, the empty tables, the segments and the interrupt gates.
\<close>

definition kernel_parts :: "symbols \<Rightarrow> (nat \<Rightarrow> u8 list) \<Rightarrow> nat \<Rightarrow> 'a core_scheme \<Rightarrow> 'a core_scheme \<Rightarrow> bool" where
  "kernel_parts y img k s s' \<longleftrightarrow> machine_ok s' \<and> kvacant s' \<subseteq> heap_range \<and>
     mounted_disk img k (fat16_fs_address s) s' \<and>
     disk_address s' = disk_address s \<and> file_descriptors s' = replicate 512 0 \<and> tmp_filename s' = tmp_filename s \<and>
     stat_local s' = stat_local s \<and> literal s' = literal s \<and> processes s' = replicate 20 0 \<and>
     head_task s' = 0 \<and> tail_task s' = 0 \<and> current_task s' = 0 \<and> kept_str s' (fat16_fs_address s) fat16_label \<and>
     (\<forall>x. x \<notin> heap_range \<union> addrs (fat16_fs_address s) 6 \<longrightarrow> mem s' x = mem s x) \<and>
     (\<exists>ds. gdt_loaded s' = Some ds \<and> list_all2 decodes ds (structured_gdt y)) \<and> \<not> interrupts_enabled s' \<and>
     idt s' = init_interrupt_descriptor_table (idt_address y) (no_interrupt_address y) (idt_divide_by_zero_address y)
       (syscall_wrapper_address y) (idt s)"

text \<open>Taking memory from the heap leaves them alone.\<close>

lemma mounted_disk_grow:
  fixes s s' :: "'a core_scheme"
  assumes md: "mounted_disk img k a s" and size: "root_entries img \<le> 128" and ok: "machine_ok s" and g: "grows s s'" "objs s' = objs s"
    and disk: "disk_var s' = disk_var s" "disk_address s' = disk_address s"
  shows "mounted_disk img k a s'"
proof -
  obtain P dir pr where d: "disk_private s (disk_address s) = Some (P, pr)" "root_dir pr = mounted_root img k dir"
    "stream_on s (cluster_read_stream pr)" "bytes_at (mem s) P 62 = disk_bytes img 0 62"
    "bytes_at (mem s) dir (32 * root_entries img) = disk_bytes img (512 * root_sector img) (32 * root_entries img)"
    "disk_var s = new_disk\<lparr>fs_private_data := P, disk_fs := a\<rparr>" "klive s P = Some 1" "klive s dir = Some 1"
    "addrs P 4096 \<subseteq> heap_range" "addrs dir 4096 \<subseteq> heap_range"
    using md unfolding mounted_disk_def by blast
  have bytes: "bytes_at (mem s') q n = bytes_at (mem s) q n" if "klive s q = Some 1" "n \<le> 4096" for q n
  proof (rule bytes_at_cong)
    fix x assume "x \<in> addrs q n"
    moreover have "addrs q 4096 \<inter> kvacant s = {}" using klive_vacant [OF machine_okD [OF ok] that(1)] by simp
    ultimately show "mem s' x = mem s x" using addrs_mono [OF that(2)] g(1) unfolding grows_def by blast
  qed (use that in simp)
  have "disk_private s' (disk_address s') = Some (P, pr)" "stream_on s' (cluster_read_stream pr)"
    using d(1,3) disk g(2) by (simp_all add: disk_private_def disk_at_def private_at_def stream_on_def)
  moreover have "bytes_at (mem s') P 62 = disk_bytes img 0 62"
    "bytes_at (mem s') dir (32 * root_entries img) = disk_bytes img (512 * root_sector img) (32 * root_entries img)"
    using bytes [OF d(7)] bytes [OF d(8)] d(4,5) size by simp_all
  moreover have "klive s' P = Some 1" "klive s' dir = Some 1" using growsD(2) [OF g(1)] d(7,8) by blast+
  moreover have "disk_var s' = new_disk\<lparr>fs_private_data := P, disk_fs := a\<rparr>" using d(6) disk(1) by simp
  ultimately show ?thesis using d(2,9,10) unfolding mounted_disk_def by blast
qed

lemma kernel_parts_grow:
  assumes parts: "kernel_parts y img k s s1" and size: "root_entries img \<le> 128" and g: "grows s1 s2" "objs s2 = objs s1"
    and disk: "disk_var s2 = disk_var s1" "disk_address s2 = disk_address s1" "tmp_filename s2 = tmp_filename s1"
      "file_descriptors s2 = file_descriptors s1" "literal s2 = literal s1" "stat_local s2 = stat_local s1"
    and tasks: "processes s2 = processes s1" "head_task s2 = head_task s1" "tail_task s2 = tail_task s1" "current_task s2 = current_task s1"
    and core: "gdt_loaded s2 = gdt_loaded s1" "interrupts_enabled s2 = interrupts_enabled s1" "idt s2 = idt s1"
  shows "kernel_parts y img k s s2"
proof -
  have ok: "machine_ok s1" "machine_ok s2" "kvacant s1 \<subseteq> heap_range" "kvacant s2 \<subseteq> kvacant s1"
    "\<forall>x. x \<notin> kvacant s1 \<longrightarrow> mem s2 x = mem s1 x"
    using parts g(1) by (simp_all add: kernel_parts_def grows_def)
  have "mounted_disk img k (fat16_fs_address s) s2"
    by (rule mounted_disk_grow [OF _ size ok(1) g disk(1,2)]) (use parts in \<open>simp add: kernel_parts_def\<close>)
  moreover have "kept_str s2 (fat16_fs_address s) fat16_label"
    using parts g(1) unfolding kernel_parts_def by (blast intro: kept_str_kept)
  moreover have "mem s2 x = mem s x" if "x \<notin> heap_range \<union> addrs (fat16_fs_address s) 6" for x
    using that parts ok(3,5) unfolding kernel_parts_def by auto
  moreover have "kvacant s2 \<subseteq> heap_range" using ok(3,4) by blast
  ultimately show ?thesis
    using parts ok(2) disk tasks core unfolding kernel_parts_def by simp
qed

text \<open>What \<open>arch_initialize\<close> has reached before it makes the first process.\<close>

definition started :: "symbols \<Rightarrow> (nat \<Rightarrow> u8 list) \<Rightarrow> nat \<Rightarrow> 'a core_scheme \<Rightarrow> 'a core_scheme \<Rightarrow> bool" where
  "started y img k s s' \<longleftrightarrow> kernel_parts y img k s s' \<and> kroom s' = 24569 \<and> heap_blocks (g_kernel_heap s') = 25600 \<and>
     cr3 (paging s') = space_dir (mem s') (kvm s') \<and> kernel_directory (paging s') = kvm s' \<and>
     (\<forall>q \<in> set (space_blocks (mem s') (kvm s')). klive s' q = Some 1 \<and> addrs q 4096 \<subseteq> heap_range) \<and>
     (\<forall>v. translate (mem s') (cr3 (paging s')) v = Some v) \<and> calls s' = Some sys_zero # replicate 99 None"

lemma core_cons: "(replicate 100 None)[0 := Some f] = Some f # replicate 99 (None :: syscall_fn option)"
  by (simp add: numeral_eq_Suc)

text \<open>The first half: segments, heap, disk, gates.\<close>

lemma kernel_devices:
  fixes s :: "'a core_scheme"
  assumes on: "power_on s" and dev: "ata_ok dev img" and disk: "fat16_disk img k"
  shows "\<exists>s'. kernel_parts y img k s s' \<and> kroom s' = 25595 \<and> heap_blocks (g_kernel_heap s') = 25600 \<and> paging s' = paging s \<and>
    calls s' = calls s \<and> arch_initialize y (kernel_filesystems dev (fat16_fs_address s)) s = (do {
      let (page, t) = vm_initialize s';
      t \<leftarrow> syscalls_initialize (t\<lparr>kvm := page\<rparr>);
      (name, t) \<leftarrow> string_of_chars (literal t ''/loop.bin'') t;
      t \<leftarrow> load_proc (kernel_filesystems dev (fat16_fs_address s)) name t;
      string_destroy name t })"
proof -
  let ?a = "fat16_fs_address s" and ?fss = "kernel_filesystems dev (fat16_fs_address s) :: 'a core_scheme fs_table"
  have on': "objs s = (\<lambda>p. None)" "kernel_directory (paging s) = 0" "disk_address s \<noteq> 0" "?a \<noteq> 0" "addrs ?a 6 \<inter> heap_range = {}"
    "calls s = replicate 100 None" "processes s = replicate 20 0" "head_task s = 0" "tail_task s = 0" "current_task s = 0"
    using on by (simp_all add: power_on_def)
  obtain ds where ds: "gdt_initialize y (interrupt_disable s) = Some (interrupt_disable s\<lparr>gdt_runtime := ds, gdt_loaded := Some ds\<rparr>)"
    "list_all2 decodes ds (structured_gdt y)" using gdt_built [of y "interrupt_disable s"] by blast
  define s1 where "s1 = interrupt_disable s\<lparr>gdt_runtime := ds, gdt_loaded := Some ds\<rparr>"
  define s2 where "s2 = kheap_init s1"
  have m2: "machine.more s2 = machine.more s1" "mem s2 = mem s" "objs s2 = (\<lambda>p. None)" "kvacant s2 = heap_range" "kroom s2 = 25600"
    "heap_blocks (g_kernel_heap s2) = 25600" "machine_ok s2"
    using fresh_heap [of s1] kheap_init_heap [of s1] on'(1) by (simp_all add: s2_def s1_def interrupt_disable_def disable_interrupt_def machine_ok_def)
  have f2: "disk_address s2 = disk_address s" "fat16_fs_address s2 = ?a" "tmp_filename s2 = tmp_filename s" "stat_local s2 = stat_local s"
    "fs_machine.more s2 = fs_machine.more s1"
    using more_disk [OF m2(1)] more_fs16 [OF m2(1)] more_locals [OF m2(1)] more_kernel_part [OF m2(1)]
    by (simp_all add: s1_def interrupt_disable_def disable_interrupt_def)
  obtain P dir pr s3 where 3: "vfs_initialize ?fss s2 = Some s3" "machine_ok s3" "disk_private s3 (disk_address s2) = Some (P, pr)"
    "root_dir pr = mounted_root img k dir" "stream_on s3 (cluster_read_stream pr)" "bytes_at (mem s3) P 62 = disk_bytes img 0 62"
    "bytes_at (mem s3) dir (32 * root_entries img) = disk_bytes img (512 * root_sector img) (32 * root_entries img)"
    "disk_var s3 = new_disk\<lparr>fs_private_data := P, disk_fs := ?a\<rparr>" "disk_address s3 = disk_address s2" "fat16_fs_address s3 = ?a"
    "tmp_filename s3 = tmp_filename s2" "file_descriptors s3 = replicate 512 0" "fs_machine.more s3 = fs_machine.more s2"
    "str_at (mem s3) ?a fat16_label" "klive s3 P = Some 1" "klive s3 dir = Some 1" "P \<noteq> dir" "addrs P 4096 \<subseteq> kvacant s2"
    "addrs dir 4096 \<subseteq> kvacant s2" "kroom s2 = kroom s3 + 5" "kvacant s3 \<subseteq> kvacant s2"
    "\<forall>x. x \<notin> kvacant s2 \<union> addrs ?a 6 \<longrightarrow> mem s3 x = mem s2 x" "heap_shape (g_kernel_heap s3) = heap_shape (g_kernel_heap s2)"
  proof -
    have "disk_address s2 \<noteq> 0" "?a = fat16_fs_address s2" "addrs ?a 6 \<inter> kvacant s2 = {}" "6 \<le> kroom s2"
      using f2 on' m2 by simp_all
    from vfs_mounts [OF dev disk m2(7) this(1,2) on'(4) this(3,4)] show thesis by (elim exE conjE) (rule that)
  qed
  define s4 where "s4 = proc_initialize (interrupt_initialize y s3)"
  have f4: "machine_ok s4" "kroom s4 = 25595" "kvacant s4 = kvacant s3" "mem s4 = mem s3" "objs s4 = objs s3" "klive s4 = klive s3"
    "g_kernel_heap s4 = g_kernel_heap s3" "paging s4 = paging s3" "literal s4 = literal s3"
    using 3(2,20) m2(5) by (simp_all add: s4_def proc_initialize_def interrupt_initialize_def initialize_task_state_segment_def machine_ok_def
      kheap_defs Let_def)
  have k3: "paging s3 = paging s" "literal s3 = literal s" "stat_local s3 = stat_local s" "head_task s3 = 0" "tail_task s3 = 0"
    "current_task s3 = 0" "processes s3 = replicate 20 0" "kernel.more s3 = kernel.more s1"
    using kernel_part_fields [OF 3(13)] kernel_part_fields [OF f2(5)] on' by (simp_all add: s1_def interrupt_disable_def disable_interrupt_def)
  note c3 = core_part [OF k3(8)]
  have run: "arch_initialize y ?fss s = (do {
      let (page, t) = vm_initialize s4;
      t \<leftarrow> syscalls_initialize (t\<lparr>kvm := page\<rparr>);
      (name, t) \<leftarrow> string_of_chars (literal t ''/loop.bin'') t;
      t \<leftarrow> load_proc ?fss name t;
      string_destroy name t })"
    using ds(1) 3(1) by (simp add: arch_initialize_def initialize_kernel_heap_def s1_def [symmetric] s2_def [symmetric] s4_def [symmetric] Let_def)
  have six: "Suc (length fat16_label) = 6" by simp
  have "kept_str s3 ?a fat16_label"
    unfolding kept_str_def six using 3(14,21) m2(4) on'(5) by auto
  then have kept: "kept_str s4 ?a fat16_label" by (simp only: kept_str_def f4)
  have f: "disk_address s4 = disk_address s" "file_descriptors s4 = replicate 512 0" "tmp_filename s4 = tmp_filename s"
    "stat_local s4 = stat_local s" "processes s4 = replicate 20 0" "head_task s4 = 0" "tail_task s4 = 0" "current_task s4 = 0"
    "disk_var s4 = disk_var s3" "gdt_loaded s4 = gdt_loaded s3" "interrupts_enabled s4 = interrupts_enabled s3" "calls s4 = calls s3"
    "idt s4 = init_interrupt_descriptor_table (idt_address y) (no_interrupt_address y) (idt_divide_by_zero_address y)
       (syscall_wrapper_address y) (idt s3)"
    using f2 3(9,11,12) k3
    by (simp_all add: s4_def proc_initialize_def interrupt_initialize_def initialize_task_state_segment_def Let_def)
  have c4: "gdt_loaded s4 = Some ds" "\<not> interrupts_enabled s4" "idt s3 = idt s" "calls s4 = calls s"
    using c3 f(10-12) by (simp_all add: s1_def interrupt_disable_def disable_interrupt_def)
  have range: "kvacant s4 \<subseteq> heap_range" "addrs P 4096 \<subseteq> heap_range" "addrs dir 4096 \<subseteq> heap_range"
    using f4(3) 3(18,19,21) m2(4) by simp_all
  have "mounted_disk img k ?a s4"
    unfolding mounted_disk_def
    using 3(3-8,15,16) f(1,9) f2(1) f4(4-6) range
    by - (rule exI [of _ P], rule exI [of _ dir], rule exI [of _ pr], simp add: disk_private_def disk_at_def private_at_def stream_on_def 3(9))
  moreover have "mem s4 x = mem s x" if "x \<notin> heap_range \<union> addrs ?a 6" for x using that f4(4) 3(22) m2(2,4) by simp
  ultimately have "kernel_parts y img k s s4"
    unfolding kernel_parts_def using f4(1,9) f(1-8,13) k3(2) c4 ds(2) kept range(1) by simp
  then show ?thesis using run f4(2,7,8) k3(1) heap_shape_blocks [OF 3(23)] m2(6) c4(4) by (intro exI [of _ s4]) simp
qed

text \<open>The second half: the address space of the kernel and the system calls.\<close>

lemma kernel_starts:
  fixes s :: "'a core_scheme"
  assumes on: "power_on s" and dev: "ata_ok dev img" and disk: "fat16_disk img k"
  shows "\<exists>s'. started y img k s s' \<and> arch_initialize y (kernel_filesystems dev (fat16_fs_address s)) s = (do {
      (name, t) \<leftarrow> string_of_chars (literal s' ''/loop.bin'') s';
      t \<leftarrow> load_proc (kernel_filesystems dev (fat16_fs_address s)) name t;
      string_destroy name t })"
proof -
  let ?fss = "kernel_filesystems dev (fat16_fs_address s) :: 'a core_scheme fs_table"
  obtain s4 where parts: "kernel_parts y img k s s4" and 4: "kroom s4 = 25595" "heap_blocks (g_kernel_heap s4) = 25600"
    "paging s4 = paging s" "calls s4 = calls s" "arch_initialize y ?fss s = (do {
      let (page, t) = vm_initialize s4;
      t \<leftarrow> syscalls_initialize (t\<lparr>kvm := page\<rparr>);
      (name, t) \<leftarrow> string_of_chars (literal t ''/loop.bin'') t;
      t \<leftarrow> load_proc ?fss name t;
      string_destroy name t })"
    using kernel_devices [OF assms, of y] by (elim exE conjE) (rule that)
  have ok: "machine_ok s4" "kvacant s4 \<subseteq> heap_range" "calls s4 = replicate 100 None" "1026 \<le> kroom s4" "kernel_directory (paging s4) = 0"
    "root_entries img \<le> 128"
    using parts on disk 4(1,3,4) by (simp_all add: kernel_parts_def power_on_def fat16_disk_def)
  obtain page m h where vm: "vm_initialize s4 = (page, s4\<lparr>mem := m, g_kernel_heap := h,
      paging := \<lparr>kernel_directory = page, current_directory = space_dir m page, cr3 = space_dir m page\<rparr>\<rparr>)"
    "grows s4 (s4\<lparr>mem := m, g_kernel_heap := h\<rparr>)" "kroom s4 = free_room h + 1026" "heap_shape h = heap_shape (g_kernel_heap s4)"
    "\<forall>q \<in> set (space_blocks m page). addrs q 4096 \<subseteq> kvacant s4 \<and> live h q = Some 1" "\<forall>v. translate m (space_dir m page) v = Some v"
    using kernel_space [OF ok(1,4,5)] by (elim exE conjE) (rule that)
  define s5 where "s5 = s4\<lparr>mem := m, g_kernel_heap := h,
    paging := \<lparr>kernel_directory = page, current_directory = space_dir m page, cr3 = space_dir m page\<rparr>, kvm := page,
    calls := Some sys_zero # replicate 99 None\<rparr>"
  have run: "arch_initialize y ?fss s = (do {
      (name, t) \<leftarrow> string_of_chars (literal s5 ''/loop.bin'') s5;
      t \<leftarrow> load_proc ?fss name t;
      string_destroy name t })"
    unfolding 4(5) vm(1)
    by (simp add: ok(3) syscalls_initialize_def syscalls_add_def calls_at_def core_consts core_cons s5_def Let_def)
  have f5: "mem s5 = m" "g_kernel_heap s5 = h" "kvm s5 = page" "cr3 (paging s5) = space_dir m page" "kernel_directory (paging s5) = page"
    "calls s5 = Some sys_zero # replicate 99 None" by (simp_all add: s5_def)
  have "grows s4 s5" using vm(2) by (simp add: grows_def machine_ok_def kheap_defs s5_def)
  then have "kernel_parts y img k s s5" by (rule kernel_parts_grow [OF parts ok(6)]) (simp_all add: s5_def)
  moreover have "kroom s5 = 24569" "heap_blocks (g_kernel_heap s5) = 25600"
    using vm(3) 4(1,2) heap_shape_blocks [OF vm(4)] by (simp_all add: f5(2) kroom_def)
  moreover have "\<forall>q \<in> set (space_blocks (mem s5) (kvm s5)). klive s5 q = Some 1 \<and> addrs q 4096 \<subseteq> heap_range"
    using vm(5) ok(2) unfolding f5(1,3) klive_def f5(2) by blast
  ultimately have "started y img k s s5" using vm(6) f5 by (simp add: started_def)
  then show ?thesis using run by blast
qed

end
