(* ===== verification/Kernel_Boot.thy ===== *)
theory Kernel_Boot
  imports Kernel_Start
begin

text \<open>
  Starting the kernel, second part: the program \<open>loop.bin\<close> of the mounted disk becomes the first
  process.
\<close>

section \<open>A file on the mounted disk\<close>

text \<open>
  Entry \<open>j\<close> of the root directory is the only one with the name \<open>nm\<close>: a file of \<open>fs\<close> bytes, at most a
  page and in one cluster, from byte \<open>start\<close> of the disk on. The driver sees as many entries as are
  not deleted among the first \<open>k\<close>.
\<close>

definition disk_file :: "(nat \<Rightarrow> u8 list) \<Rightarrow> nat \<Rightarrow> nat \<Rightarrow> u8 list \<Rightarrow> nat \<Rightarrow> nat \<Rightarrow> bool" where
  "disk_file img k j nm start fs \<longleftrightarrow>
     (let p = 512 * root_sector img; n = nat (used_items img p k); e = p + 32 * j; spc = unat (disk_byte img 13) in
      k \<le> root_entries img \<and> j < n \<and>
      (\<forall>i < n. casefold (item_name (disk_bytes img (p + 32 * i) 11)) = casefold nm \<longleftrightarrow> i = j) \<and>
      disk_byte img (e + 11) AND FAT_FILE_SUBDIRECTORY = 0 \<and> disk_byte img (e + 12) = 0 \<and> disk_word img (e + 20) = 0 \<and>
      disk_word img (e + 28) + 65536 * disk_word img (e + 30) = fs \<and>
      int (512 * (root_sector img + 32 * root_entries img div 512)) + 512 * (int (disk_word img (e + 26)) - 2) * int spc = int start \<and>
      0 < fs \<and> fs \<le> 4096 \<and> fs \<le> spc * 512 \<and> start + fs < 2 ^ 31)"

lemma load32_of_nat:
  "load32 m q = of_nat (unat (m q) + 256 * unat (m (q + 1)) + 65536 * (unat (m (q + 2)) + 256 * unat (m (q + 3))))"
proof -
  let ?a = "ucast (m q) :: u32" and ?b = "push_bit 8 (ucast (m (q + 1))) :: u32"
    and ?c = "push_bit 16 (ucast (m (q + 2))) :: u32" and ?d = "push_bit 24 (ucast (m (q + 3))) :: u32"
  have "?a AND ?b = 0" "(?a OR ?b) AND ?c = 0" "(?a OR ?b OR ?c) AND ?d = 0"
    by (rule bit_word_eqI, auto simp: bit_simps dest: bit_imp_le_length)+
  then have "load32 m q = ?a + ?b + ?c + ?d" by (simp add: load32_def disjunctive_add_eq_or or.assoc)
  then show ?thesis by (simp add: push_bit_eq_mult algebra_simps)
qed

lemma used_items_bound: "used_items img p k \<le> int k"
  using length_filter_le [of "\<lambda>i. disk_byte img (p + 32 * i) \<noteq> 0xE5" "[0..<k]"] by (simp add: used_items_def)

text \<open>The root directory as it is in memory: byte \<open>x\<close> of it is byte \<open>p + x\<close> of the disk.\<close>

lemma root_fields:
  assumes dir: "bytes_at m dir N = disk_bytes img p N" and e: "32 * Suc i \<le> N"
  shows "bytes_at m (dir + 32 * of_nat i) 11 = disk_bytes img (p + 32 * i) 11"
    and "i_attribute m (dir + 32 * of_nat i) = disk_byte img (p + 32 * i + 11)"
    and "i_reserved m (dir + 32 * of_nat i) = disk_byte img (p + 32 * i + 12)"
    and "i_filesize m (dir + 32 * of_nat i) = of_nat (disk_word img (p + 32 * i + 28) + 65536 * disk_word img (p + 32 * i + 30))"
    and "uint (i_low_16_bits_first_cluster m (dir + 32 * of_nat i)) = int (disk_word img (p + 32 * i + 26))"
    and "uint (i_high_16_bits_first_cluster m (dir + 32 * of_nat i)) = int (disk_word img (p + 32 * i + 20))"
proof -
  have byte: "m (dir + 32 * of_nat i + of_nat l) = disk_byte img (p + 32 * i + l)" if "l < 32" for l
  proof -
    have "32 * i + l < N" using e that by simp
    then have "m (dir + of_nat (32 * i + l)) = disk_byte img (p + (32 * i + l))"
      using arg_cong [OF dir, of "\<lambda>b. b ! (32 * i + l)"] by (simp add: disk_bytes_nth del: of_nat_add of_nat_mult)
    then show ?thesis by (simp add: add.assoc)
  qed
  show "bytes_at m (dir + 32 * of_nat i) 11 = disk_bytes img (p + 32 * i) 11"
    by (rule nth_equalityI) (simp_all add: byte disk_bytes_nth)
  show "i_attribute m (dir + 32 * of_nat i) = disk_byte img (p + 32 * i + 11)"
    "i_reserved m (dir + 32 * of_nat i) = disk_byte img (p + 32 * i + 12)"
    using byte [of 11] byte [of 12] by (simp_all add: i_attribute_def i_reserved_def)
  have word: "unat (m (dir + 32 * of_nat i + of_nat l)) + 256 * unat (m (dir + 32 * of_nat i + of_nat (Suc l))) = disk_word img (p + 32 * i + l)"
    if "Suc l < 32" for l using byte [of l] byte [of "Suc l"] that by (simp add: disk_word_def)
  show "i_filesize m (dir + 32 * of_nat i) = of_nat (disk_word img (p + 32 * i + 28) + 65536 * disk_word img (p + 32 * i + 30))"
    using word [of 28] word [of 30] by (simp add: i_filesize_def load32_of_nat add.assoc)
  have "uint (load16 m (dir + 32 * of_nat i + of_nat l)) = int (disk_word img (p + 32 * i + l))" if "Suc l < 32" for l
    using arg_cong [OF word [OF that], of int] by (simp add: uint_load16 add.assoc add.commute [of 1])
  from this [of 26] this [of 20]
  show "uint (i_low_16_bits_first_cluster m (dir + 32 * of_nat i)) = int (disk_word img (p + 32 * i + 26))"
    "uint (i_high_16_bits_first_cluster m (dir + 32 * of_nat i)) = int (disk_word img (p + 32 * i + 20))"
    by (simp_all add: i_low_16_bits_first_cluster_def i_high_16_bits_first_cluster_def)
qed

lemma mounted_file:
  assumes df: "disk_file img k j nm start fs" and size: "root_entries img \<le> 128" and ok: "machine_ok s"
    and pr: "disk_private s (disk_address s) = Some (P, pr)" "root_dir pr = mounted_root img k dir" "stream_on s (cluster_read_stream pr)"
    and header: "bytes_at (mem s) P 62 = disk_bytes img 0 62"
    and root: "bytes_at (mem s) dir (32 * root_entries img) = disk_bytes img (512 * root_sector img) (32 * root_entries img)"
    and dv: "disk_var s = new_disk\<lparr>fs_private_data := P, disk_fs := a\<rparr>" "disk_address s \<noteq> 0" "a \<noteq> 0"
    and fds: "file_descriptors s = replicate 512 0" and live: "klive s P = Some 1" "klive s dir = Some 1"
    and range: "addrs P 4096 \<subseteq> R" "addrs dir 4096 \<subseteq> R" "kvacant s \<subseteq> R" "tmp_range s \<inter> R = {}" "addrs (stat_local s) 32 \<inter> R = {}"
    and strs: "kept_str s a label" "mem s (literal s ''r'') = 0x72" "literal s ''r'' \<notin> kvacant s"
    and path: "path_str s name cs" "path_names cs = [nm]"
  shows "program_file s a name P pr (nat (used_items img (512 * root_sector img) k)) j nm 0 start fs"
proof -
  let ?p = "512 * root_sector img" and ?N = "32 * root_entries img"
  let ?n = "nat (used_items img ?p k)"
  have f: "k \<le> root_entries img" "j < ?n"
    "\<forall>i < ?n. casefold (item_name (disk_bytes img (?p + 32 * i) 11)) = casefold nm \<longleftrightarrow> i = j"
    "disk_byte img (?p + 32 * j + 11) AND FAT_FILE_SUBDIRECTORY = 0" "disk_byte img (?p + 32 * j + 12) = 0"
    "disk_word img (?p + 32 * j + 20) = 0"
    "disk_word img (?p + 32 * j + 28) + 65536 * disk_word img (?p + 32 * j + 30) = fs"
    "int (512 * (root_sector img + ?N div 512)) + 512 * (int (disk_word img (?p + 32 * j + 26)) - 2) * int (unat (disk_byte img 13)) = int start"
    "0 < fs" "fs \<le> 4096" "fs \<le> unat (disk_byte img 13) * 512" "start + fs < 2 ^ 31"
    using df unfolding disk_file_def Let_def by blast+
  have n: "0 \<le> used_items img ?p k" "?n \<le> root_entries img"
    using used_items_bound [of img ?p k] f(1) by (simp_all add: used_items_def)
  have kh: "kheap_ok s" using ok by (rule machine_okD)
  have fields: "32 * Suc i \<le> ?N" if "i < ?n" for i using that n(2) by simp
  note at = root_fields [OF root fields]
  have dirs: "addrs dir (32 * ?n) \<subseteq> addrs dir 4096" using n(2) size by (intro addrs_mono) simp
  have vac: "addrs dir 4096 \<inter> kvacant s = {}" "addrs P 4096 \<inter> kvacant s = {}"
    using klive_vacant [OF kh live(2)] klive_vacant [OF kh live(1)] by simp_all
  have "root_entry s pr ?n j nm"
    unfolding root_entry_def entry_matches_def
  proof (intro conjI allI impI)
    show "dir_total (root_dir pr) = int ?n" "?n < 2 ^ 16" "j < ?n" using pr(2) n size f(2) by (simp_all add: mounted_root_def)
    show "addrs (dir_item (root_dir pr)) (32 * ?n) \<inter> (tmp_range s \<union> kvacant s) = {}" "tmp_range s \<inter> kvacant s = {}"
      using pr(2) dirs vac(1) range by (auto simp: mounted_root_def)
    show "casefold (item_name (bytes_at (mem s) (dir_item (root_dir pr) + 32 * of_nat i) 11)) = casefold nm \<longleftrightarrow> i = j" if "i < ?n" for i
      using f(3) that at(1) [OF that] pr(2) by (simp add: mounted_root_def)
    show "i_attribute (mem s) (dir_item (root_dir pr) + 32 * of_nat j) AND FAT_FILE_SUBDIRECTORY = 0"
      using f(4) at(2) [OF f(2)] pr(2) by (simp add: mounted_root_def)
  qed
  moreover have "fopen_ready s a (literal s ''r'')"
    using ok fds dv strs by (auto simp: fopen_ready_def fd_table_ok_def)
  moreover have h: "h_sectors_per_cluster (mem s) P = int (unat (disk_byte img 13))"
    using arg_cong [OF header, of "\<lambda>b. b ! 13"] by (simp add: h_sectors_per_cluster_def disk_bytes_nth)
  moreover have "P + 13 \<notin> tmp_range s \<union> kvacant s \<union> addrs (stat_local s) 32"
    using in_addrs_offset [of 13 4096 P] range vac(2) by auto
  moreover have "i_high_16_bits_first_cluster (mem s) (dir + 32 * of_nat j) = 0"
    using at(6) [OF f(2)] f(6) by (simp flip: uint_0_iff)
  moreover have "first_byte (mem s) P pr (dir + 32 * of_nat j) = int start"
    using f(8) at(5) [OF f(2)] h pr(2) by (simp add: first_byte_def mounted_root_def algebra_simps)
  moreover have "i_reserved (mem s) (dir + 32 * of_nat j) = 0" "i_filesize (mem s) (dir + 32 * of_nat j) = of_nat fs"
    using at(3,4) [OF f(2)] f(5,7) by simp_all
  moreover have "addrs (stat_local s) 32 \<inter> kvacant s = {}" using range by blast
  moreover have "0 < uint (disk_byte img 13)" "int fs \<le> uint (disk_byte img 13) * 512"
  proof -
    have "int fs \<le> int (unat (disk_byte img 13) * 512)" using f(11) by (simp only: of_nat_le_iff)
    then show "int fs \<le> uint (disk_byte img 13) * 512" by simp
    moreover have "0 < int fs" using f(9) by simp
    ultimately show "0 < uint (disk_byte img 13)" by linarith
  qed
  ultimately show ?thesis
    using pr path dv(1) fds f(9,10,12)
    by (auto simp: program_file_def Let_def mounted_root_def DISK_SECTOR_SIZE_def)
qed

section \<open>The first process\<close>

text \<open>A string that neither the heap nor the two buffers of the file system touch.\<close>

definition safe_str :: "'a kernel_scheme \<Rightarrow> u32 \<Rightarrow> u8 list \<Rightarrow> bool" where
  "safe_str s p cs \<longleftrightarrow> kept_str s p cs \<and> addrs p (Suc (length cs)) \<inter> (tmp_range s \<union> addrs (stat_local s) 32) = {}"

lemma log_str: "str_at (mem s) p cs \<Longrightarrow> \<exists>c. klog_at p (s\<lparr>con := c0\<rparr>) = Some (s\<lparr>con := c\<rparr>)"
  using klog_at_returns [of "s\<lparr>con := c0\<rparr>" p cs] by auto

text \<open>What the scheduler and the address space keep when only the console and the fields of \<open>proc\<close> change.\<close>

lemma sched_ok_con [simp]: "sched_ok (s\<lparr>con := c\<rparr>) ts = sched_ok s ts" for s :: "'a kernel_scheme"
  by (simp add: sched_ok_def task_list_def links_ok_def task_at_def machine_ok_def)

lemma sched_ok_proc [simp]:
  "sched_ok (s\<lparr>current_proc := q\<rparr>) ts = sched_ok s ts" "sched_ok (s\<lparr>current_proc_id := i\<rparr>) ts = sched_ok s ts" for s :: "'a core_scheme"
  by (simp_all add: sched_ok_def task_list_def links_ok_def task_at_def machine_ok_def kheap_defs)

lemma load_proc_root:
  fixes s :: "'a core_scheme"
  assumes sched: "sched_ok s ts" and f: "program_file s a name private pr n j nm i start fs" and dev: "ata_ok dev img"
    and room: "1040 \<le> kroom s" "4 * int (heap_taken s + 10) \<le> heap_blocks (g_kernel_heap s)" and top: "0xFFFFF000 \<notin> kvacant s"
    and k: "k < 20" "processes s ! k = 0" "\<forall>l < k. processes s ! l \<noteq> 0"
    and strs: "safe_str s (literal s ''Load success process: '') m1" "safe_str s name m2" "safe_str s (literal s ''with pid: '') m3"
  shows "\<exists>q s' t y z. load_proc (kernel_filesystems dev a) name s = Some s' \<and> current_proc s' = q \<and> current_proc_id s' = 0 \<and> q \<noteq> 0 \<and>
    processes s' = (processes s)[k := q] \<and> sched_ok s' (ts @ [t]) \<and> task_at s' t = Some y \<and> task_proc y = q \<and>
    task_registers y = first_registers \<and> proc_at s' q = Some z \<and> proc_task z = t \<and> proc_id z = of_nat k \<and>
    (\<forall>l < fs. \<exists>p. translate (mem s') (space_dir (mem s') (page_directory y)) (0x400000 + of_nat l) = Some p \<and>
       mem s' p = disk_bytes img start fs ! l) \<and>
    paging s' = paging s \<and> calls s' = calls s \<and> gdt_loaded s' = gdt_loaded s \<and> interrupts_enabled s' = interrupts_enabled s \<and>
    idt s' = idt s \<and> tss s' = tss s \<and> kvm s' = kvm s \<and> (\<forall>r k. klive s r = Some k \<longrightarrow> klive s' r = Some k) \<and>
    klive s q = None \<and> klive s t = None \<and>
    (\<forall>x. x \<notin> kvacant s \<union> tmp_range s \<union> addrs (stat_local s) 32 \<longrightarrow> mem s' x = mem s x)"
proof -
  obtain q s1 t y z where 1: "load_process (kernel_filesystems dev a) name s = Some (0, Some q, s1)" "q \<noteq> 0"
    "processes s1 = (processes s)[k := q]" "sched_ok s1 (ts @ [t])" "task_at s1 t = Some y" "task_proc y = q"
    "task_registers y = first_registers" "proc_at s1 q = Some z" "proc_task z = t" "proc_id z = of_nat k"
    "\<forall>l < fs. \<exists>p. translate (mem s1) (space_dir (mem s1) (page_directory y)) (0x400000 + of_nat l) = Some p \<and>
       mem s1 p = disk_bytes img start fs ! l" "paging s1 = paging s" "literal s1 = literal s" "kernel.more s1 = kernel.more s"
    "\<forall>r k. klive s r = Some k \<longrightarrow> klive s1 r = Some k" "klive s q = None" "klive s t = None"
    "\<forall>x. x \<notin> kvacant s \<union> tmp_range s \<union> addrs (stat_local s) 32 \<longrightarrow> mem s1 x = mem s x"
    using load_process_root [OF sched f dev room top k] by (elim exE conjE) (rule that)
  let ?s2 = "s1\<lparr>current_proc := q, current_proc_id := 0\<rparr>"
  have str: "str_at (mem s1) p cs" if p: "safe_str s p cs" for p cs
  proof -
    have "a \<notin> kvacant s \<union> tmp_range s \<union> addrs (stat_local s) 32" if "a \<in> addrs p (Suc (length cs))" for a
      using p that by (auto simp: safe_str_def kept_str_def)
    then have "mem s a = mem s1 a" if "a \<in> addrs p (Suc (length cs))" for a using 1(18) that by simp
    moreover have "str_at (mem s) p cs" "length cs < 2 ^ 32" using p by (simp_all add: safe_str_def kept_str_def)
    ultimately show ?thesis using str_at_frame [of cs p "mem s" "mem s1"] by blast
  qed
  obtain c1 where c1: "klog_at (literal s ''Load success process: '') ?s2 = Some (?s2\<lparr>con := c1\<rparr>)"
    using klog_at_returns [of ?s2] str [OF strs(1)] by auto
  obtain c2 where c2: "klog_at name (?s2\<lparr>con := c1\<rparr>) = Some (?s2\<lparr>con := c2\<rparr>)" using log_str [of ?s2 name m2 c1] str [OF strs(2)] by auto
  obtain c3 where c3: "klog_at (literal s ''with pid: '') (?s2\<lparr>con := c2\<rparr>) = Some (?s2\<lparr>con := c3\<rparr>)"
    using log_str [of ?s2 _ m3 c2] str [OF strs(3)] by auto
  obtain c4 where c4: "klog_number 0 (?s2\<lparr>con := c3\<rparr>) = Some (?s2\<lparr>con := c4\<rparr>)" using klog_number_returns [of 0 "?s2\<lparr>con := c3\<rparr>"] by auto
  let ?s3 = "?s2\<lparr>con := print_lit ''\<newline>'' c4\<rparr>"
  have "load_proc (kernel_filesystems dev a) name s = Some ?s3"
    using 1(1,13) c1 c2 c3 c4
    by (simp add: load_proc_def string_data_def cout_str_def cout_string_def cout_int_def endl_def klog_def Let_def)
  moreover have "klive ?s3 = klive s1" "task_at ?s3 = task_at s1" "proc_at ?s3 = proc_at s1"
    by (simp_all add: kheap_defs task_at_def proc_at_def fun_eq_iff)
  ultimately show ?thesis
    using 1(2-12,15-18) core_part [OF 1(14)]
    by - (rule exI [of _ q], rule exI [of _ ?s3], rule exI [of _ t], rule exI [of _ y], rule exI [of _ z], simp)
qed

text \<open>The literals are as they were, once the heap holds the parts of the kernel.\<close>

lemma boot_literal:
  assumes on: "power_on s" and st: "kernel_parts y img k s s'" and l: "l \<in> boot_literals"
  shows "safe_str s' (literal s' l) (chars l)" and "literal s' l \<noteq> 0"
proof -
  let ?p = "literal s l" and ?n = "Suc (length l)"
  have lit: "?p \<noteq> 0" "str_at (mem s) ?p (chars l)"
    "addrs ?p ?n \<inter> (heap_range \<union> tmp_range s \<union> addrs (stat_local s) 32 \<union> addrs (fat16_fs_address s) 6) = {}"
    using on l unfolding power_on_def by blast+
  have st': "literal s' = literal s" "kvacant s' \<subseteq> heap_range" "tmp_filename s' = tmp_filename s" "stat_local s' = stat_local s"
    "\<forall>x. x \<notin> heap_range \<union> addrs (fat16_fs_address s) 6 \<longrightarrow> mem s' x = mem s x"
    using st unfolding kernel_parts_def by blast+
  show "literal s' l \<noteq> 0" using lit(1) st'(1) by simp
  have len: "length (chars l) = length l" "length l < 4096" using l by (auto simp: boot_literals_def)
  have "mem s x = mem s' x" if "x \<in> addrs ?p (Suc (length (chars l)))" for x
    using that lit(3) st'(5) unfolding len(1) by auto
  then have "str_at (mem s') ?p (chars l)" using str_at_frame [of "chars l" ?p "mem s" "mem s'"] lit(2) len by simp
  then show "safe_str s' (literal s' l) (chars l)"
    using lit(3) len st'(1-4) unfolding safe_str_def kept_str_def by auto
qed

text \<open>
  The program is ready: process 0 and its task are the only ones, and the address space of the task
  holds its bytes. The kernel is ready: it is on the identity, with its segments, gates and calls.
\<close>

definition program_ready :: "(nat \<Rightarrow> u8 list) \<Rightarrow> nat \<Rightarrow> nat \<Rightarrow> 'a core_scheme \<Rightarrow> bool" where
  "program_ready img start fs s \<longleftrightarrow>
     (\<exists>q t x z. processes s = q # replicate 19 0 \<and> q \<noteq> 0 \<and> current_proc s = q \<and> proc_at s q = Some z \<and> proc_task z = t \<and> proc_id z = 0 \<and>
        sched_ok s [t] \<and> task_at s t = Some x \<and> task_proc x = q \<and> task_registers x = first_registers \<and>
        (\<forall>l < fs. \<exists>p. translate (mem s) (space_dir (mem s) (page_directory x)) (PROGRAM_VIRTUAL_ADDRESS + of_nat l) = Some p \<and>
           mem s p = disk_bytes img start fs ! l))"

definition kernel_ready :: "symbols \<Rightarrow> 'a core_scheme \<Rightarrow> 'a core_scheme \<Rightarrow> bool" where
  "kernel_ready y s s' \<longleftrightarrow>
     kernel_directory (paging s') = kvm s' \<and> (\<forall>v. translate (mem s') (cr3 (paging s')) v = Some v) \<and>
     (\<exists>ds. gdt_loaded s' = Some ds \<and> list_all2 decodes ds (structured_gdt y)) \<and> \<not> interrupts_enabled s' \<and>
     idt s' = init_interrupt_descriptor_table (idt_address y) (no_interrupt_address y) (idt_divide_by_zero_address y)
       (syscall_wrapper_address y) (idt s) \<and>
     calls s' = Some sys_zero # replicate 99 None"

text \<open>The kernel keeps its parts while it makes processes: they do not touch the memory of its address space.\<close>

lemma kernel_kept:
  assumes st: "started y img k s s1" and ok: "machine_ok s1"
    and fields: "paging s' = paging s1" "kvm s' = kvm s1" "gdt_loaded s' = gdt_loaded s1" "interrupts_enabled s' = interrupts_enabled s1"
      "idt s' = idt s1" "calls s' = calls s1"
    and out: "tmp_range s1 \<inter> heap_range = {}" "addrs (stat_local s1) 32 \<inter> heap_range = {}"
    and mem: "\<And>x. x \<notin> kvacant s1 \<union> tmp_range s1 \<union> addrs (stat_local s1) 32 \<Longrightarrow> mem s' x = mem s1 x"
  shows "kernel_ready y s s'"
proof -
  have st': "cr3 (paging s1) = space_dir (mem s1) (kvm s1)"
    "\<forall>q \<in> set (space_blocks (mem s1) (kvm s1)). klive s1 q = Some 1 \<and> addrs q 4096 \<subseteq> heap_range"
    "\<forall>v. translate (mem s1) (cr3 (paging s1)) v = Some v"
    using st unfolding started_def by blast+
  have "mem s' a = mem s1 a" if q: "q \<in> set (space_blocks (mem s1) (kvm s1))" and a: "a \<in> addrs q 4096" for a q
  proof (rule mem)
    have "addrs q 4096 \<inter> kvacant s1 = {}" using klive_vacant [OF machine_okD [OF ok]] st'(2) q by (metis mult.right_neutral)
    then show "a \<notin> kvacant s1 \<union> tmp_range s1 \<union> addrs (stat_local s1) 32" using a st'(2) q out by blast
  qed
  note same = space_same [of "s1" "kvm s1" s', OF this]
  have "translate (mem s') (cr3 (paging s')) v = Some v" for v using same(3) st'(1,3) fields(1) by simp
  then show ?thesis using st fields unfolding kernel_ready_def started_def kernel_parts_def by simp
qed

lemma heap_range_top: "0 \<notin> heap_range" "0xFFFFF000 \<notin> heap_range"
  by (simp_all add: heap_range_def)

lemma safe_str_grows:
  assumes "safe_str s p cs" and "grows s s'" and "tmp_filename s' = tmp_filename s" "stat_local s' = stat_local s"
  shows "safe_str s' p cs"
  using assms kept_str_kept [OF _ assms(2), of p cs] by (simp add: safe_str_def)

lemma boot_path: "path_names (chars ''/loop.bin'') = [chars ''loop.bin'']"
  by (simp add: path_names_def)

lemma more_files:
  "machine.more s' = machine.more s \<Longrightarrow> file_descriptors s' = file_descriptors s \<and> kvm s' = kvm s \<and> calls s' = calls s \<and>
     gdt_loaded s' = gdt_loaded s \<and> interrupts_enabled s' = interrupts_enabled s \<and> idt s' = idt s" for s s' :: "'a core_scheme"
  by (cases s; cases s') simp

lemma more_core_fields: "machine.more s' = machine.more s \<Longrightarrow> current_proc s' = current_proc s" for s s' :: "'a core_scheme"
  by (cases s; cases s') simp

text \<open>The name of the program is made as a string of the heap.\<close>

lemma boot_name:
  fixes s s1 :: "'a core_scheme"
  assumes on: "power_on s" and st: "kernel_parts y img k s s1" and size: "root_entries img \<le> 128" and room: "0 < kroom s1"
  shows "\<exists>name s2. kernel_parts y img k s s2 \<and> string_of_chars (literal s1 ''/loop.bin'') s1 = Some (name, s2) \<and> grows s1 s2 \<and> kroom s1 = kroom s2 + 1 \<and>
    klive s2 = (klive s1)(name \<mapsto> 1) \<and> objs s2 = objs s1 \<and> machine.more s2 = machine.more s1 \<and>
    heap_shape (g_kernel_heap s2) = heap_shape (g_kernel_heap s1) \<and> path_str s2 name (chars ''/loop.bin'') \<and>
    safe_str s2 name (chars ''/loop.bin'') \<and> (\<forall>l \<in> boot_literals. safe_str s2 (literal s2 l) (chars l))"
proof -
  note lits = boot_literal [OF on st]
  have out: "tmp_range s \<inter> heap_range = {}" "addrs (stat_local s) 32 \<inter> heap_range = {}" using on by (simp_all add: power_on_def)
  have f1: "machine_ok s1" "tmp_filename s1 = tmp_filename s" "stat_local s1 = stat_local s" "kvacant s1 \<subseteq> heap_range"
    using st unfolding kernel_parts_def by blast+
  obtain name s2 where 2: "string_of_chars (literal s1 ''/loop.bin'') s1 = Some (name, s2)" "name \<noteq> 0" "grows s1 s2"
    "kroom s1 = kroom s2 + 1" "klive s1 name = None" "klive s2 = (klive s1)(name \<mapsto> 1)" "objs s2 = objs s1"
    "machine.more s2 = machine.more s1" "str_at (mem s2) name (chars ''/loop.bin'')" "addrs name 4096 \<subseteq> kvacant s1"
    "heap_shape (g_kernel_heap s2) = heap_shape (g_kernel_heap s1)"
  proof -
    have "kept_str s1 (literal s1 ''/loop.bin'') (chars ''/loop.bin'')" "literal s1 ''/loop.bin'' \<noteq> 0"
      using lits [of "''/loop.bin''"] by (simp_all add: boot_literals_def safe_str_def)
    from string_made [OF f1(1) this room] that show thesis by auto
  qed
  note m2 = more_disk [OF 2(8)] more_locals [OF 2(8)]
  have ok2: "machine_ok s2" using 2(3) by (simp add: grows_def)
  have name: "addrs name 4096 \<subseteq> heap_range" "addrs name 4096 \<inter> kvacant s2 = {}"
    "addrs name (Suc (length (chars ''/loop.bin''))) \<subseteq> addrs name 4096"
  proof -
    show "addrs name 4096 \<subseteq> heap_range" using 2(10) f1(4) by blast
    show "addrs name 4096 \<inter> kvacant s2 = {}" using klive_vacant [OF machine_okD [OF ok2], of name 1] 2(6) by simp
    show "addrs name (Suc (length (chars ''/loop.bin''))) \<subseteq> addrs name 4096" by (rule addrs_mono) simp
  qed
  have path: "path_str s2 name (chars ''/loop.bin'')"
    unfolding path_str_def
  proof (intro conjI)
    show "length (chars ''/loop.bin'') < 4096" by simp
  qed (use 2(9) name heap_range_top(1) in blast)+
  have ranges: "tmp_range s2 \<inter> heap_range = {}" "addrs (stat_local s2) 32 \<inter> heap_range = {}"
    using out m2 f1(2,3) by simp_all
  have safe: "safe_str s2 name (chars ''/loop.bin'')"
    unfolding safe_str_def using path_kept_str [OF path] name(1,3) ranges by blast
  have "safe_str s2 (literal s2 l) (chars l)" if "l \<in> boot_literals" for l
    using safe_str_grows [OF lits(1) [OF that] 2(3)] m2 by simp
  moreover have "kernel_parts y img k s s2"
    by (rule kernel_parts_grow [OF st size 2(3,7)]) (use m2 more_kernel [OF 2(8)] more_files [OF 2(8)] in simp_all)
  ultimately show ?thesis using 2 path safe by (intro exI [of _ name] exI [of _ s2]) simp
qed

text \<open>The program is a file of the mounted disk.\<close>

lemma boot_program:
  fixes s s' :: "'a core_scheme"
  assumes on: "power_on s" and parts: "kernel_parts y img k s s'" and size: "root_entries img \<le> 128"
    and df: "disk_file img k j (chars ''loop.bin'') start fs"
    and path: "path_str s' name (chars ''/loop.bin'')" and lits: "\<forall>l \<in> boot_literals. safe_str s' (literal s' l) (chars l)"
  shows "\<exists>P pr n nm i. program_file s' (fat16_fs_address s) name P pr n j nm i start fs"
proof -
  let ?a = "fat16_fs_address s"
  have out: "tmp_range s \<inter> heap_range = {}" "addrs (stat_local s) 32 \<inter> heap_range = {}" "disk_address s \<noteq> 0" "?a \<noteq> 0"
    using on by (simp_all add: power_on_def)
  obtain P dir pr where d: "disk_private s' (disk_address s') = Some (P, pr)" "root_dir pr = mounted_root img k dir"
    "stream_on s' (cluster_read_stream pr)" "bytes_at (mem s') P 62 = disk_bytes img 0 62"
    "bytes_at (mem s') dir (32 * root_entries img) = disk_bytes img (512 * root_sector img) (32 * root_entries img)"
    "disk_var s' = new_disk\<lparr>fs_private_data := P, disk_fs := ?a\<rparr>" "klive s' P = Some 1" "klive s' dir = Some 1"
    "addrs P 4096 \<subseteq> heap_range" "addrs dir 4096 \<subseteq> heap_range"
    using parts unfolding kernel_parts_def mounted_disk_def by blast
  have f: "machine_ok s'" "disk_address s' = disk_address s" "file_descriptors s' = replicate 512 0" "kept_str s' ?a fat16_label"
    "tmp_filename s' = tmp_filename s" "stat_local s' = stat_local s" "kvacant s' \<subseteq> heap_range"
    using parts unfolding kernel_parts_def by blast+
  have "safe_str s' (literal s' ''r'') [0x72]" using lits by (simp add: boot_literals_def)
  then have "str_at (mem s') (literal s' ''r'') [0x72]" "addrs (literal s' ''r'') 2 \<inter> kvacant s' = {}"
    by (simp_all add: safe_str_def kept_str_def numeral_2_eq_2)
  then have "mem s' (literal s' ''r'') = 0x72" "literal s' ''r'' \<notin> kvacant s'"
    using in_addrs_offset [of 0 2 "literal s' ''r''"] by auto
  then have "program_file s' ?a name P pr (nat (used_items img (512 * root_sector img) k)) j (chars ''loop.bin'') 0 start fs"
    using mounted_file [OF df size f(1) d(1-5), of ?a heap_range fat16_label name "chars ''/loop.bin''"]
      d(6-10) f out path boot_path by simp
  then show ?thesis by blast
qed

lemma first_process:
  fixes s s1 :: "'a core_scheme"
  assumes on: "power_on s" and st: "started y img k s s1" and dev: "ata_ok dev img" and size: "root_entries img \<le> 128"
    and df: "disk_file img k j (chars ''loop.bin'') start fs"
  shows "\<exists>s'. (do {
      (name, t) \<leftarrow> string_of_chars (literal s1 ''/loop.bin'') s1;
      t \<leftarrow> load_proc (kernel_filesystems dev (fat16_fs_address s)) name t;
      string_destroy name t }) = Some s' \<and> program_ready img start fs s' \<and> kernel_ready y s s'"
proof -
  let ?a = "fat16_fs_address s"
  have out: "tmp_range s \<inter> heap_range = {}" "addrs (stat_local s) 32 \<inter> heap_range = {}" using on by (simp_all add: power_on_def)
  have parts: "kernel_parts y img k s s1" using st by (simp add: started_def)
  have f1: "machine_ok s1" "kroom s1 = 24569" "heap_blocks (g_kernel_heap s1) = 25600" "kvacant s1 \<subseteq> heap_range"
    "tmp_filename s1 = tmp_filename s" "stat_local s1 = stat_local s" "processes s1 = replicate 20 0"
    using st parts unfolding started_def kernel_parts_def by blast+
  obtain name s2 where parts2: "kernel_parts y img k s s2"
    and 2: "string_of_chars (literal s1 ''/loop.bin'') s1 = Some (name, s2)" "grows s1 s2" "kroom s1 = kroom s2 + 1"
    "klive s2 = (klive s1)(name \<mapsto> 1)" "objs s2 = objs s1" "machine.more s2 = machine.more s1"
    "heap_shape (g_kernel_heap s2) = heap_shape (g_kernel_heap s1)" "path_str s2 name (chars ''/loop.bin'')"
    "safe_str s2 name (chars ''/loop.bin'')" "\<forall>l \<in> boot_literals. safe_str s2 (literal s2 l) (chars l)"
  proof -
    have "0 < kroom s1" using f1(2) by simp
    from boot_name [OF on parts size this] show thesis by (elim exE conjE) (rule that)
  qed
  obtain P pr n nm i where pf: "program_file s2 ?a name P pr n j nm i start fs"
    using boot_program [OF on parts2 size df 2(8,10)] by blast
  have ok2: "machine_ok s2" "kvacant s2 \<subseteq> kvacant s1" "\<forall>x. x \<notin> kvacant s1 \<longrightarrow> mem s2 x = mem s1 x"
    using 2(2) by (simp_all add: grows_def)
  note m2 = more_disk [OF 2(6)] more_locals [OF 2(6)] more_kernel [OF 2(6)] more_files [OF 2(6)]
  have sched2: "sched_ok s2 []" using parts2 by (simp add: sched_ok_def task_list_def links_ok_def kernel_parts_def)
  obtain q s3 t x z where 3: "load_proc (kernel_filesystems dev ?a) name s2 = Some s3" "current_proc s3 = q" "current_proc_id s3 = 0"
    "q \<noteq> 0" "processes s3 = (processes s2)[0 := q]" "sched_ok s3 ([] @ [t])" "task_at s3 t = Some x" "task_proc x = q"
    "task_registers x = first_registers" "proc_at s3 q = Some z" "proc_task z = t" "proc_id z = of_nat 0"
    "\<forall>l < fs. \<exists>p. translate (mem s3) (space_dir (mem s3) (page_directory x)) (0x400000 + of_nat l) = Some p \<and>
       mem s3 p = disk_bytes img start fs ! l" "paging s3 = paging s2" "calls s3 = calls s2" "gdt_loaded s3 = gdt_loaded s2"
    "interrupts_enabled s3 = interrupts_enabled s2" "idt s3 = idt s2" "tss s3 = tss s2" "kvm s3 = kvm s2"
    "\<forall>r k. klive s2 r = Some k \<longrightarrow> klive s3 r = Some k" "klive s2 q = None" "klive s2 t = None"
    "\<forall>a. a \<notin> kvacant s2 \<union> tmp_range s2 \<union> addrs (stat_local s2) 32 \<longrightarrow> mem s3 a = mem s2 a"
  proof -
    have "1040 \<le> kroom s2" "4 * int (heap_taken s2 + 10) \<le> heap_blocks (g_kernel_heap s2)"
      using 2(3) f1(2,3) heap_shape_blocks [OF 2(7)] by (simp_all add: heap_taken_def)
    moreover have "0xFFFFF000 \<notin> kvacant s2" using ok2(2) f1(4) heap_range_top(2) by blast
    moreover have "0 < (20 :: nat)" "processes s2 ! 0 = 0" "\<forall>l < 0. processes s2 ! l \<noteq> 0" using m2 f1(7) by simp_all
    moreover have "''Load success process: '' \<in> boot_literals" "''with pid: '' \<in> boot_literals" by (simp_all add: boot_literals_def)
    note calculation = calculation this
    from load_proc_root [OF sched2 pf dev calculation(1-6) 2(10) [rule_format, OF calculation(7)] 2(9)
        2(10) [rule_format, OF calculation(8)]]
    show thesis by (elim exE conjE) (rule that)
  qed
  have "klive s3 name = Some 1" using 3(21) 2(4) by simp
  then obtain s4 where 4: "string_destroy name s3 = Some s4" "machine_ok s4" "mem s4 = mem s3" "objs s4 = (objs s3)(name := None)"
    "machine.more s4 = machine.more s3"
    using string_freed [of s3 name] 3(6) by (auto simp: sched_ok_def)
  have alone: "t \<noteq> name" "q \<noteq> name" using 3(22,23) 2(4) by auto
  note m4 = more_kernel [OF 4(5)] more_files [OF 4(5)] more_core_fields [OF 4(5)]
  have run: "(do {
      (name, t) \<leftarrow> string_of_chars (literal s1 ''/loop.bin'') s1;
      t \<leftarrow> load_proc (kernel_filesystems dev ?a) name t;
      string_destroy name t }) = Some s4" using 2(1) 3(1) 4(1) by simp
  moreover have "program_ready img start fs s4"
  proof -
    have "sched_ok s4 [t]" using 3(6) 4(2,4) m4 alone by (simp add: sched_ok_def task_list_def links_ok_def task_at_def)
    moreover have "task_at s4 t = Some x" "proc_at s4 q = Some z" using 3(7,10) alone by (simp_all add: task_at_def proc_at_def 4(4))
    moreover have "processes s4 = q # replicate 19 0" using 3(5) m2 m4 f1(7) by (simp add: numeral_eq_Suc)
    ultimately show ?thesis
      unfolding program_ready_def PROGRAM_VIRTUAL_ADDRESS_def 4(3) using 3(2,4,8,9,11-13) m4 by (intro exI conjI) (assumption | simp)+
  qed
  moreover have "kernel_ready y s s4"
  proof (rule kernel_kept [OF st f1(1)])
    fix a assume "a \<notin> kvacant s1 \<union> tmp_range s1 \<union> addrs (stat_local s1) 32"
    then show "mem s4 a = mem s1 a" using 3(24) ok2(2,3) m2 4(3) by auto
  qed (use 3(14-20) m2 m4 out(1,2) f1(5,6) in simp_all)
  ultimately show ?thesis by blast
qed

end
