(* ===== verification/Boot_Properties.thy ===== *)
theory Boot_Properties
  imports Kernel_Boot Mount_Properties
begin

text \<open>
  What starting the kernel promises: from power on to the first process with the program of the disk in
  its address space.
\<close>

section \<open>An example machine\<close>

text \<open>
  The disk of \<open>Mount_Properties\<close> with the file \<open>LOOP.BIN\<close> of 4 bytes in cluster 3, which starts at
  sector 844: a jump to itself.
\<close>

definition loop_item :: "u8 list" where
  "loop_item = [0x4C, 0x4F, 0x4F, 0x50, 0x20, 0x20, 0x20, 0x20, 0x42, 0x49, 0x4E, 0x20, 0, 0, 0, 0,
     0, 0, 0, 0, 0, 0, 0, 0, 0, 0, 3, 0, 4, 0, 0, 0]"

definition loop_image :: "nat \<Rightarrow> u8 list" where
  "loop_image l = (if l = 0 then boot_sector else if l = 712 then loop_item @ replicate 480 0
     else if l = 844 then [0xEB, 0xFE, 0x90, 0x90] @ replicate 508 0 else replicate 512 0)"

lemma loop_image_ok: "ata_ok (ata_disk loop_image) loop_image"
  by (rule ata_disk_ok) (simp add: loop_image_def boot_sector_def loop_item_def)

lemma loop_root: "root_entries loop_image = 64" "root_sector loop_image = 712"
  by (simp_all add: root_entries_def root_sector_def disk_word_def disk_byte_def loop_image_def boot_sector_def)

lemma loop_fat16: "fat16_disk loop_image 1"
  by (simp add: fat16_disk_def loop_root) (simp add: disk_byte_def loop_image_def boot_sector_def loop_item_def)

lemma loop_byte: "i < 32 \<Longrightarrow> disk_byte loop_image (364544 + i) = loop_item ! i"
proof -
  assume i: "i < 32"
  then have "(364544 + i) div 512 = 712" by (simp add: div_nat_eqI)
  moreover have "(364544 + i) mod 512 = i" using i mod_mult_self4 [of 512 712 i] by simp
  moreover have "length loop_item = 32" by (simp add: loop_item_def)
  ultimately show ?thesis using i by (simp add: disk_byte_def loop_image_def nth_append)
qed

lemma loop_file: "disk_file loop_image 1 0 (chars ''loop.bin'') 432128 4"
proof -
  have name: "disk_bytes loop_image 364544 11 = take 11 loop_item"
    by (rule nth_equalityI) (simp_all add: disk_bytes_nth loop_byte, simp add: loop_item_def)
  have words: "disk_word loop_image 364564 = 0" "disk_word loop_image 364570 = 3" "disk_word loop_image 364572 = 4"
    "disk_word loop_image 364574 = 0" "disk_byte loop_image 364555 = 0x20" "disk_byte loop_image 364556 = 0"
    using loop_byte [of 20] loop_byte [of 21] loop_byte [of 26] loop_byte [of 27] loop_byte [of 28] loop_byte [of 29] loop_byte [of 30]
      loop_byte [of 31] loop_byte [of 11] loop_byte [of 12] by (simp_all add: disk_word_def loop_item_def)
  have spc: "disk_byte loop_image 13 = 0x80" by (simp add: disk_byte_def loop_image_def boot_sector_def)
  have used: "used_items loop_image 364544 1 = 1" using loop_byte [of 0] by (simp add: used_items_def loop_item_def)
  show ?thesis
    unfolding disk_file_def Let_def loop_root
    using used by (simp add: name words spc item_name_def field_text_def loop_item_def FAT_FILE_SUBDIRECTORY_def casefold_def tolower_def isupper_def)
qed

definition boot_literal_address :: "string \<Rightarrow> u32" where
  "boot_literal_address l = (if l = ''/loop.bin'' then 0xB000 else if l = ''r'' then 0xC000
     else if l = ''Load success process: '' then 0xE000 else 0xF000)"

definition boot_memory :: memory where
  "boot_memory = write_bytes 0xB000 (chars ''/loop.bin'' @ [0]) (write_bytes 0xC000 (chars ''r'' @ [0])
     (write_bytes 0xE000 (chars ''Load success process: '' @ [0]) (write_bytes 0xF000 (chars ''with pid: '' @ [0]) (\<lambda>a. 0))))"

definition power_core :: core where
  "power_core = core_of (kernel_of small_heap (\<lambda>p. None) 0 0 0\<lparr>mem := boot_memory, literal := boot_literal_address,
     stat_local := 0xD000, paging := \<lparr>kernel_directory = 0, current_directory = 0, cr3 = 0\<rparr>\<rparr>) (replicate 100 None)"

definition boot_symbols :: symbols where
  "boot_symbols = \<lparr>idt_address = 0x5000, no_interrupt_address = 0x6000, idt_divide_by_zero_address = 0x6100,
     syscall_wrapper_address = 0x6200, tss_address = 0x7000\<rparr>"

lemma str_at_beside:
  "str_at m p cs \<Longrightarrow> length cs < 2 ^ 31 \<Longrightarrow> addrs p (Suc (length cs)) \<inter> addrs q (length bs) = {} \<Longrightarrow> str_at (write_bytes q bs m) p cs"
  using str_at_frame [of cs p m "write_bytes q bs m"] write_bytes_outside [of _ q bs m] by fastforce

lemma boot_memory_literals:
  "str_at boot_memory 0xB000 (chars ''/loop.bin'')" "str_at boot_memory 0xC000 (chars ''r'')"
  "str_at boot_memory 0xE000 (chars ''Load success process: '')" "str_at boot_memory 0xF000 (chars ''with pid: '')"
  unfolding boot_memory_def
  by (intro str_at_beside str_at_write_bytes; auto simp: addrs_interval)+

lemma boot_literals_apart:
  assumes "unat p + n \<le> 0x10100" and "0xB000 \<le> unat p" and "unat p + n \<le> 0xD000 \<or> 0xE000 \<le> unat p"
  shows "addrs p n \<inter> (heap_range \<union> addrs 0xA000 100 \<union> addrs 0xD000 32 \<union> addrs 0x9000 6) = {}"
  using assms by (auto simp: addrs_interval heap_range_def)

lemma power_core_simps [simp]:
  "mem power_core = boot_memory" "literal power_core = boot_literal_address" "tmp_filename power_core = 0xA000"
  "stat_local power_core = 0xD000" "fat16_fs_address power_core = 0x9000" "disk_address power_core = 0x8000"
  "objs power_core = (\<lambda>p. None)" "processes power_core = replicate 20 0" "calls power_core = replicate 100 None"
  "head_task power_core = 0" "tail_task power_core = 0" "current_task power_core = 0" "kernel_directory (paging power_core) = 0"
  by (simp_all add: power_core_def core_of_def kernel_of_def)

lemma power_core_on: "power_on power_core"
proof -
  have "tmp_range power_core \<inter> heap_range = {}" "addrs (stat_local power_core) 32 \<inter> heap_range = {}"
    "addrs (fat16_fs_address power_core) 6 \<inter> heap_range = {}"
    by (auto simp: addrs_interval heap_range_def)
  moreover have "literal power_core l \<noteq> 0 \<and> str_at (mem power_core) (literal power_core l) (chars l) \<and>
      addrs (literal power_core l) (Suc (length l)) \<inter> (heap_range \<union> tmp_range power_core \<union> addrs (stat_local power_core) 32 \<union>
        addrs (fat16_fs_address power_core) 6) = {}" if l: "l \<in> boot_literals" for l
  proof -
    consider "l = ''r''" | "l = ''/loop.bin''" | "l = ''Load success process: ''" | "l = ''with pid: ''"
      using l unfolding boot_literals_def by blast
    then show ?thesis
      unfolding power_core_simps
      by cases (intro conjI boot_literals_apart; use boot_memory_literals in \<open>simp only: boot_literal_address_def; simp del: str_at.simps\<close>)+
  qed
  ultimately show ?thesis by (simp add: power_on_def)
qed

section \<open>Properties\<close>

text \<open>
  C1. Starting the kernel: from a machine just switched on, with a FAT16 disk whose root
  directory has at most 128 entries, one of which, among those the driver looks at, is
  \<open>loop.bin\<close>, a file of 1 to 4096 bytes in one cluster,
  \<open>arch_initialize\<close> returns. Then the first process, with number 0, is the only
  entry of the process table and its task the only one of the scheduler; byte \<open>l\<close>
  at the program address of the task is byte \<open>l\<close> of the file on the disk; and the
  kernel is on its own identity address space, interrupts off, with the six segments of
  \<open>arch\<close>, the interrupt gates, and system call 0 installed.
\<close>

lemma kernel_boots:
  fixes s :: "'a core_scheme"
  assumes "power_on s" and "ata_ok dev img" and "fat16_disk img k" and "disk_file img k j (chars ''loop.bin'') start fs"
  shows "\<exists>s'. arch_initialize y (kernel_filesystems dev (fat16_fs_address s)) s = Some s' \<and> program_ready img start fs s' \<and>
    kernel_ready y s s'"
proof -
  have "root_entries img \<le> 128" using assms(3) by (simp add: fat16_disk_def)
  moreover obtain s1 where s1: "started y img k s s1" "arch_initialize y (kernel_filesystems dev (fat16_fs_address s)) s = (do {
      (name, t) \<leftarrow> string_of_chars (literal s1 ''/loop.bin'') s1;
      t \<leftarrow> load_proc (kernel_filesystems dev (fat16_fs_address s)) name t;
      string_destroy name t })" using kernel_starts [OF assms(1-3)] by blast
  ultimately show ?thesis using first_process [OF assms(1) s1(1) assms(2) _ assms(4)] s1(2) by auto
qed

lemma kernel_boots_witness:
  "\<exists>q t x p s'. arch_initialize boot_symbols (kernel_filesystems (ata_disk loop_image) 0x9000) power_core = Some s' \<and>
     processes s' = q # replicate 19 0 \<and> current_task s' = t \<and> task_at s' t = Some x \<and> reg_ip (task_registers x) = 0x400000 \<and>
     translate (mem s') (space_dir (mem s') (page_directory x)) 0x400000 = Some p \<and> mem s' p = 0xEB \<and>
     translate (mem s') (cr3 (paging s')) 0xB8000 = Some 0xB8000"
proof -
  obtain s' where s': "arch_initialize boot_symbols (kernel_filesystems (ata_disk loop_image) 0x9000) power_core = Some s'"
    "program_ready loop_image 432128 4 s'" "kernel_ready boot_symbols power_core s'"
    using kernel_boots [OF power_core_on loop_image_ok loop_fat16 loop_file, of boot_symbols] by auto
  obtain q t x where 1: "processes s' = q # replicate 19 0" "sched_ok s' [t]" "task_at s' t = Some x" "task_registers x = first_registers"
    "\<forall>l < 4. \<exists>p. translate (mem s') (space_dir (mem s') (page_directory x)) (PROGRAM_VIRTUAL_ADDRESS + of_nat l) = Some p \<and>
       mem s' p = disk_bytes loop_image 432128 4 ! l"
    using s'(2) unfolding program_ready_def by blast
  have "disk_bytes loop_image 432128 4 ! 0 = 0xEB" by (simp add: disk_bytes_nth disk_byte_def loop_image_def)
  then obtain p where "translate (mem s') (space_dir (mem s') (page_directory x)) 0x400000 = Some p" "mem s' p = 0xEB"
    using 1(5) [rule_format, of 0] by (auto simp: PROGRAM_VIRTUAL_ADDRESS_def)
  moreover have "current_task s' = t" using 1(2) by (simp add: sched_ok_def)
  moreover have "reg_ip first_registers = 0x400000" by (simp add: first_registers_def PROGRAM_VIRTUAL_ADDRESS_def)
  moreover have "translate (mem s') (cr3 (paging s')) 0xB8000 = Some 0xB8000" using s'(3) by (simp add: kernel_ready_def)
  ultimately show ?thesis using s'(1) 1(1,3,4) by auto
qed

end
