(* ===== verification/Spec2Isabelle.thy ===== *)
theory Spec2Isabelle
  imports CLib_Properties Paging_Properties Descriptor_Properties Path_Properties Disk_Properties Fat16_Properties Vfs_Properties Mount_Properties Task_Properties Program_Properties Core_Properties Boot_Properties
begin

text \<open>
  A verification library of the LarvaOS kernel. The paths below are under \<open>src/src/kernel\<close>;
  \<open>x86\<close> is \<open>arch/x86\<close>.

  The program. LarvaOS is a 32-bit x86 kernel in two layers. The C layer under \<open>arch/x86\<close> owns the
  machine: a block allocator and the kernel heap on it, page tables, an ATA driver with byte
  streams, a FAT16 driver, a file layer with descriptors over it, tasks in a linked list and
  processes loaded from files. The C++ layer under \<open>core\<close> is what the rest of the kernel sees:
  strings, streams, files, processes, system calls, interrupts, and the order in which all of it
  starts. Everything allocates from the kernel heap; opening a file goes from the file layer to the
  path parser, the FAT16 driver, a stream and the driver; loading a process goes through all of
  these and then to the tasks and their page tables; a system call goes from the interrupt through
  the page tables of the caller to a handler.

  State. One record grows with the layers: \<open>machine\<close> (byte memory, console, heap, object store) is
  extended to \<open>disk_machine\<close>, \<open>fs_machine\<close>, \<open>kernel\<close> and \<open>core\<close>. Each field is a global or a static of
  the code. Memory is a function from 32-bit addresses to bytes. A struct with typed fields that
  the heap hands out is an object of the store \<open>objs\<close>, at its address; what the code reads as raw
  bytes stays in memory. An operation takes the state and returns it; \<open>None\<close> is a call that does not
  return or that reads or writes what it must not (a freed or a wrong object, an index out of an
  array). Errors of the code are its own negative numbers, NULL or error pointers, in the result.

  Theories, in the order of the layers.
  \<open>Larva_Prelude\<close>: \<open>libc/include/types.h\<close> and \<open>errno.h\<close>, conversions, words.
  \<open>CLib_Memory\<close>, \<open>CLib_String\<close>, \<open>CLib_Stdlib\<close>: \<open>libc/src/string.c\<close>, \<open>strings.c\<close>, \<open>ctype.c\<close>, \<open>stdlib.c\<close>.
  \<open>Console\<close>: \<open>x86/video/video.c\<close>.
  \<open>Heap_Blocks\<close>: \<open>x86/memory/heap.c\<close>; \<open>Heap_Correct\<close>: the invariant \<open>heap_ok\<close>, the view \<open>allocation\<close>
  and first fit.
  \<open>Allocator\<close>: the contracts \<open>block_allocator\<close> and \<open>zeroing_allocator\<close>, with what follows from them;
  \<open>Heap_Interface\<close> and \<open>KHeap\<close> interpret them for \<open>heap.c\<close> and for \<open>x86/memory/kheap.c\<close>.
  \<open>Kernel_Objects\<close>: the structs in the heap and the record \<open>machine\<close>.
  \<open>Paging\<close>, \<open>Paging_Correct\<close>: \<open>x86/memory/paging.c\<close>, the invariant \<open>space_ok\<close> of an address space and
  its translation.
  \<open>Path_Parser\<close>, \<open>Path_Correct\<close>: \<open>x86/fs/path_parser.c\<close>, against the function \<open>path_names\<close>.
  \<open>Disk\<close>, \<open>Disk_Correct\<close>: \<open>x86/disk/disk.c\<close> and \<open>stream.c\<close>; the controller is the parameter \<open>dev\<close>, and
  \<open>ata_ok\<close> is what the driver relies on of it.
  \<open>Fat16_Data\<close>, \<open>Fat16_Directory\<close>, \<open>Fat16\<close>: \<open>x86/fs/fat16.c\<close>; \<open>Fat16_Correct\<close> on its parts,
  \<open>Fat16_Frame\<close> on what it leaves alone (locales \<open>driver_frame\<close> and \<open>disk_frame\<close>, interpreted four
  times), \<open>Fat16_Lookup\<close> on finding a name and opening a file, \<open>Fat16_Mount\<close> on \<open>fat16_resolve\<close>, which
  mounts a disk.
  \<open>Vfs\<close>, \<open>Vfs_Correct\<close>, \<open>Vfs_Open\<close>, \<open>Vfs_Seek\<close>: \<open>x86/fs/file.c\<close>, with seeks and reads down to the bytes of
  the disk in the last; the filesystems behind its function pointers are
  the locale \<open>fs_drivers\<close>, interpreted by the FAT16 driver.
  \<open>Descriptors\<close>: \<open>x86/gdt_runtime/gdt.c\<close>, \<open>x86/interrupt/interrupt.c\<close>, \<open>x86/panic/panic.c\<close>.
  \<open>Tasks\<close>, \<open>Task_Correct\<close>: \<open>x86/task/task.c\<close>, the list \<open>task_list\<close> and the scheduler's steps
  \<open>sched_step\<close>; \<open>User_Memory\<close> and \<open>Task_Space\<close>: memory through the tables of a task.
  \<open>Processes\<close>, \<open>Process_Correct\<close>: \<open>x86/task/process.c\<close>, with the locale \<open>kernel_drivers\<close>; \<open>Heap_Pages\<close>,
  \<open>Program_Steps\<close> and \<open>Program_Load\<close>: one program loaded, from its path to its bytes in user memory.
  \<open>Core_Runtime\<close>: \<open>core/memory.cc\<close>, \<open>iostream.cc\<close>, \<open>string.cc\<close>, \<open>file.cc\<close>, \<open>default_symbols.cc\<close>.
  \<open>Core_System\<close>: \<open>core/process.cc\<close>, \<open>syscall.cc\<close>, \<open>api.cc\<close>, \<open>panic.cc\<close>, \<open>interrupt.cc\<close>, \<open>architecture.cc\<close>,
  \<open>kernel.cc\<close>.
  \<open>Kernel_Start\<close> and \<open>Kernel_Boot\<close>: one run through all of these, from \<open>power_on\<close> over \<open>arch_initialize\<close> to
  the first process; \<open>kernel_parts\<close> is what each step of it keeps.
  The theories named \<open>_Properties\<close> hold the properties of each part with an instance of each on a
  concrete machine; \<open>Example_Machine\<close> is a mounted disk for them. This theory joins them.

  What the lemmas show. The heap is a map from blocks to sizes, allocation is first fit in fresh
  memory and freeing undoes it. A new address space is the identity, and mapping a page changes one
  translation. A path is read as its names. Mounting a disk reads its header and its root directory
  from where the header says they are. A file of the root directory is found, opened under the
  first free descriptor, and its bytes in its first cluster are the bytes of the disk. The descriptor
  table, the address spaces and the list of tasks keep their invariants in every step, every task
  gets its turn, a string is copied out of a task's memory without a trace, a program file ends in
  the user memory of a new task, a system call serves its caller, and the kernel starts: from power on
  to the program of the disk in the memory of the first process. Where the code does not do
  what it means to do, a lemma says what it does: mapping a range maps one page, an entry of the
  allocation table is read from a wrong place, no subdirectory is ever opened, a released task leaves
  a dangling pointer, opening and closing a file leaves the parsed path in the heap, the number of a
  system call is let through one past the end of the table of handlers, a pointer into an
  allocation frees another one, a read from the inside of a sector over its end runs off the sector
  buffer, seeks relative to the position add up to positions behind the end of the file and a read
  there gives what lies on the disk, a string out of a task's memory is cut after 255 bytes.

  Bounds. The heap lemmas hold for at most \<open>2 ^ 19\<close> blocks, 2 GB; the kernel has 25600. A new
  address space takes 1026 blocks, a task 1027, and a process with its file and its stack 1040: the
  sizes of the allocations on the way. Four of them have to be in a row for the stack, so at most a
  quarter of the blocks is in use before: then one of the windows of four blocks is free. At boot
  the disk takes 5 blocks and the kernel's address space 1026, which leaves 24569. A program is at most one page and
  in one cluster, because mapping stops after a page and an entry of the allocation table is not
  found. Counters that cannot reach the limit of their type (block numbers, positions on a disk
  below 2 GB) are \<open>int\<close>; everything else has its width and wraps. Loops without a bound (strings,
  waiting for the disk, following a path) are \<open>partial_function (option)\<close>: the lemmas say that they
  return. No fuel is used.

  Not modelled. The boot loader and the assembly routines are not C; the routines that C calls are
  what they do to the machine: port accesses, the loads of segment, table and page registers, the
  return to user mode. The disk controller is a parameter. Addresses that the linker chooses and the
  strings of the source as the code passes them on are fields or arguments. Interrupts do not occur
  inside the kernel, which runs with them disabled. The C++ layer of exceptions is empty, and the
  function \<open>move\<close> is a cast. The user programs and the documents are no part of the kernel.
\<close>

section \<open>Error pointers\<close>

text \<open>
  An error number from 1 to 4095, negated and made a pointer by \<open>ERR_PTR\<close>,
  is recognised by \<open>IS_ERR\<close> and read back by \<open>PTR_ERR\<close>.
\<close>

lemma err_ptr_roundtrip:
  assumes "1 \<le> e" and "e \<le> 4095"
  shows "IS_ERR (ERR_PTR (- e)) \<and> PTR_ERR (ERR_PTR (- e)) = - e"
proof -
  have "sint (word_of_int (- e) :: u32) = - e"
    using assms by (subst sint_sbintrunc') (simp add: signed_take_bit_int_eq_self)
  moreover have "uint (word_of_int (- e) :: u32) = 2 ^ 32 - e"
  proof -
    have "uint (word_of_int (- e) :: u32) = (- e) mod 2 ^ 32"
      by (simp only: uint_word_of_int) simp
    also have "\<dots> = 2 ^ 32 - e" using assms by (simp add: zmod_zminus1_eq_if)
    finally show ?thesis .
  qed
  ultimately show ?thesis
    unfolding IS_ERR_def IS_ERR_VALUE_def ERR_PTR_def PTR_ERR_def MAX_ERRNO_def word_le_def
    using assms by simp
qed

lemma err_ptr_roundtrip_witness: "IS_ERR (ERR_PTR (- EIO)) \<and> PTR_ERR (ERR_PTR (- EIO)) = - 5"
  using err_ptr_roundtrip [of 5] by (simp add: EIO_def)

end
